(* ===== verification/Prelude.thy ===== *)
theory Prelude
  imports Complex_Main "HOL-Library.AList" "HOL-Library.Multiset"
begin

text \<open>
  What every component shares: Python's insertion-ordered dictionary as an association list,
  the exceptions the code raises as a datatype of errors, the named collections of rewrite
  rules the component proofs use, and the interfaces (locales) that several components
  implement: a keyed table with upsert (\<open>keyed_table\<close>), an atomic claim (\<open>claim_once\<close>),
  a first-writer-wins register (\<open>first_writer\<close>), a lock with a lifetime (\<open>ttl_lock\<close>) and a
  priority heap (\<open>min_heap\<close>).
\<close>

named_theorems store_defs \<open>definitions of the in-memory store's operations\<close>
named_theorems backend_defs \<open>definitions of the snapshot backends' operations\<close>
named_theorems frame \<open>which parts of the state an operation leaves alone\<close>

section \<open>Python dictionaries\<close>

text \<open>
  A Python \<open>dict\<close> keeps insertion order; assigning to an existing key keeps the key's place.
  \<open>AList.update\<close> and \<open>AList.delete\<close> of the library do exactly that.
\<close>

type_synonym ('k, 'v) dict = "('k \<times> 'v) list"

abbreviation dget :: "('k, 'v) dict \<Rightarrow> 'k \<Rightarrow> 'v option" where
  "dget d k \<equiv> map_of d k"

abbreviation dset :: "'k \<Rightarrow> 'v \<Rightarrow> ('k, 'v) dict \<Rightarrow> ('k, 'v) dict" where
  "dset k v d \<equiv> AList.update k v d"

abbreviation dpop :: "'k \<Rightarrow> ('k, 'v) dict \<Rightarrow> ('k, 'v) dict" where
  "dpop k d \<equiv> AList.delete k d"

abbreviation dkeys :: "('k, 'v) dict \<Rightarrow> 'k list" where
  "dkeys d \<equiv> map fst d"

abbreviation dvals :: "('k, 'v) dict \<Rightarrow> 'v list" where
  "dvals d \<equiv> map snd d"

abbreviation dwf :: "('k, 'v) dict \<Rightarrow> bool" where
  "dwf d \<equiv> distinct (map fst d)"

lemma dget_dset [simp]: "dget (dset k v d) j = (if j = k then Some v else dget d j)"
  by (simp add: update_conv)

lemma dget_dpop [simp]: "dget (dpop k d) j = (if j = k then None else dget d j)"
  by (simp add: delete_conv)

lemma dwf_dset [simp]: "dwf d \<Longrightarrow> dwf (dset k v d)"
  by (rule distinct_update)

lemma dwf_dpop [simp]: "dwf d \<Longrightarrow> dwf (dpop k d)"
  by (rule distinct_delete)

lemma dkeys_dset_present: "k \<in> set (dkeys d) \<Longrightarrow> dkeys (dset k v d) = dkeys d"
  by (induction d) auto

lemma dkeys_dset_absent: "k \<notin> set (dkeys d) \<Longrightarrow> dset k v d = d @ [(k, v)]"
  by (induction d) auto

lemma dget_None_iff: "dget d k = None \<longleftrightarrow> k \<notin> set (dkeys d)"
  by (simp add: map_of_eq_None_iff)

lemma dget_mem: "dwf d \<Longrightarrow> (k, v) \<in> set d \<longleftrightarrow> dget d k = Some v"
  by (simp add: map_of_eq_Some_iff)

lemma dpop_filter: "dpop k d = filter (\<lambda>p. fst p \<noteq> k) d"
  by (induction d) auto

section \<open>Exceptions\<close>

text \<open>
  The exceptions the modelled code raises or lets through. \<open>HttpError\<close> is FastAPI's
  \<open>HTTPException\<close> with its status code; \<open>ResponseError\<close> is the Redis client's for an error reply;
  \<open>CancelledError\<close> is asyncio's.
\<close>

datatype py_exc =
    ValueError string
  | TypeError string
  | RuntimeError string
  | KeyError string
  | NotImplementedError string
  | TaskArgumentError string
  | QueueFullError string
  | HttpError nat string
  | OverflowError string
  | ResponseError string
  | AssertionError string
  | CancelledError

lemma find_append: "find P (xs @ ys) = (case find P xs of None \<Rightarrow> find P ys | Some x \<Rightarrow> Some x)"
  by (induction xs) auto

section \<open>Keyed tables\<close>

text \<open>
  A table addressed by a key with insert-or-replace and delete: the in-memory store, and the
  history tables of the backends. The client lemmas are about bulk operations.
\<close>

locale keyed_table =
  fixes lookup :: "'t \<Rightarrow> 'k \<Rightarrow> 'r option"
    and upsert :: "'r \<Rightarrow> 't \<Rightarrow> 't"
    and remove :: "'k \<Rightarrow> 't \<Rightarrow> 't"
    and key :: "'r \<Rightarrow> 'k"
  assumes lookup_upsert: "lookup (upsert r t) k = (if k = key r then Some r else lookup t k)"
    and lookup_remove: "lookup (remove j t) k = (if k = j then None else lookup t k)"
begin

lemma lookup_bulk_upsert_other:
  "k \<notin> key ` set rs \<Longrightarrow> lookup (fold upsert rs t) k = lookup t k"
  by (induction rs arbitrary: t) (auto simp: lookup_upsert)

lemma lookup_bulk_upsert:
  "distinct (map key rs) \<Longrightarrow> r \<in> set rs \<Longrightarrow> lookup (fold upsert rs t) (key r) = Some r"
proof (induction rs arbitrary: t)
  case (Cons a rs)
  then show ?case
    by (cases "r = a") (auto simp: lookup_bulk_upsert_other lookup_upsert)
qed simp

lemma lookup_bulk_upsert_cases:
  "lookup (fold upsert rs t) k = Some r \<Longrightarrow> (r \<in> set rs \<and> key r = k) \<or> lookup t k = Some r"
proof (induction rs arbitrary: t)
  case (Cons a rs)
  from Cons.IH [of "upsert a t"] Cons.prems show ?case
    by (auto simp: lookup_upsert split: if_splits)
qed simp

lemma bulk_upsert_idem:
  "distinct (map key rs) \<Longrightarrow>
   lookup (fold upsert rs (fold upsert rs t)) k = lookup (fold upsert rs t) k"
proof (cases "k \<in> key ` set rs")
  case True
  assume d: "distinct (map key rs)"
  from True obtain r where "r \<in> set rs" "k = key r" by auto
  then show ?thesis using d by (simp add: lookup_bulk_upsert)
next
  case False
  then show ?thesis by (simp add: lookup_bulk_upsert_other)
qed

lemma lookup_bulk_remove:
  "lookup (fold remove ks t) k = (if k \<in> set ks then None else lookup t k)"
  by (induction ks arbitrary: t) (auto simp: lookup_remove)

end

section \<open>Atomic claims\<close>

text \<open>
  The exactly-once primitive of the backends: one delete that reports whether this caller was
  the one that removed the row. A list of claims is the order in which the shared store
  serialised the calls of all instances.
\<close>

fun run_claims :: "('k \<Rightarrow> 't \<Rightarrow> bool \<times> 't) \<Rightarrow> 'k list \<Rightarrow> 't \<Rightarrow> (bool list \<times> 't)" where
  "run_claims claim [] t = ([], t)"
| "run_claims claim (k # ks) t =
     (let (b, t1) = claim k t; (bs, t2) = run_claims claim ks t1 in (b # bs, t2))"

definition wins :: "'k \<Rightarrow> 'k list \<Rightarrow> bool list \<Rightarrow> nat" where
  "wins k ks bs = length (filter (\<lambda>(j, b). j = k \<and> b) (zip ks bs))"

locale claim_once =
  fixes claim :: "'k \<Rightarrow> 't \<Rightarrow> bool \<times> 't"
    and present :: "'t \<Rightarrow> 'k \<Rightarrow> bool"
    and good :: "'t \<Rightarrow> bool"
    and valid :: "'k \<Rightarrow> bool"
  assumes claim_result: "good t \<Longrightarrow> valid k \<Longrightarrow> fst (claim k t) = present t k"
    and claim_removes:
      "good t \<Longrightarrow> valid k \<Longrightarrow> valid j \<Longrightarrow> present (snd (claim k t)) j = (j \<noteq> k \<and> present t j)"
    and claim_good: "good t \<Longrightarrow> valid k \<Longrightarrow> good (snd (claim k t))"
begin

lemma wins_absent:
  "good t \<Longrightarrow> list_all valid ks \<Longrightarrow> valid k \<Longrightarrow> \<not> present t k \<Longrightarrow>
   wins k ks (fst (run_claims claim ks t)) = 0"
proof (induction ks arbitrary: t)
  case Nil
  then show ?case by (simp add: wins_def)
next
  case (Cons j ks)
  have "\<not> present (snd (claim j t)) k" using Cons.prems by (simp add: claim_removes)
  then have "wins k ks (fst (run_claims claim ks (snd (claim j t)))) = 0"
    using Cons.prems by (intro Cons.IH claim_good) auto
  moreover have "\<not> (j = k \<and> fst (claim j t))" using Cons.prems claim_result by auto
  ultimately show ?case by (simp add: wins_def case_prod_beta Let_def)
qed

lemma wins_exactly_once:
  "good t \<Longrightarrow> list_all valid ks \<Longrightarrow> present t k \<Longrightarrow> k \<in> set ks \<Longrightarrow>
   wins k ks (fst (run_claims claim ks t)) = 1"
proof (induction ks arbitrary: t)
  case Nil
  then show ?case by simp
next
  case (Cons j ks)
  have v: "valid k" using Cons.prems(2,4) by (auto simp: list_all_iff)
  have g: "good (snd (claim j t))" using Cons.prems(1,2) by (simp add: claim_good)
  show ?case
  proof (cases "j = k")
    case True
    then have "fst (claim j t)" and "\<not> present (snd (claim j t)) k"
      using Cons.prems by (simp_all add: claim_result claim_removes)
    then show ?thesis
      using True wins_absent [OF g _ v, of ks] Cons.prems(2)
      by (simp add: wins_def case_prod_beta Let_def)
  next
    case False
    then have "present (snd (claim j t)) k" and "k \<in> set ks"
      using Cons.prems v by (auto simp: claim_removes)
    then show ?thesis
      using False Cons.IH [OF g] Cons.prems(2)
      by (simp add: wins_def case_prod_beta Let_def)
  qed
qed

lemma wins_at_most_once:
  "good t \<Longrightarrow> list_all valid ks \<Longrightarrow> valid k \<Longrightarrow> wins k ks (fst (run_claims claim ks t)) \<le> 1"
proof (cases "present t k \<and> k \<in> set ks")
  assume g: "good t" "list_all valid ks"
  case True
  then show ?thesis using g by (simp add: wins_exactly_once)
next
  assume g: "good t" "list_all valid ks" "valid k"
  case False
  then show ?thesis
  proof (cases "present t k")
    case True
    then have "k \<notin> set ks" using False by simp
    then have "filter (\<lambda>(j, b). j = k \<and> b) (zip ks bs) = []" for bs
      by (auto simp: filter_empty_conv dest: set_zip_leftD)
    then show ?thesis unfolding wins_def by simp
  qed (simp add: wins_absent g)
qed

end

section \<open>First writer wins\<close>

locale first_writer =
  fixes check :: "'t \<Rightarrow> 'k \<Rightarrow> 'v option"
    and put_new :: "'k \<Rightarrow> 'v \<Rightarrow> 't \<Rightarrow> 't"
  assumes check_write:
    "check (put_new k v t) j = (if j = k \<and> check t k = None then Some v else check t j)"
begin

lemma check_stable: "check t k = Some v \<Longrightarrow> check (put_new j u t) k = Some v"
  by (auto simp: check_write)

lemma check_stable_run:
  "check t k = Some v \<Longrightarrow> check (fold (\<lambda>(j, u). put_new j u) ws t) k = Some v"
  by (induction ws arbitrary: t) (auto simp: check_stable)

lemma check_first:
  "check t k = None \<Longrightarrow> check (fold (\<lambda>(j, u). put_new j u) ((k, v) # ws) t) k = Some v"
  by (simp add: check_stable_run check_write)

end

section \<open>Locks with a lifetime\<close>

text \<open>
  A lock acquired at time \<open>t\<close> for \<open>ttl\<close> seconds is refused to every caller until
  \<open>t + ttl\<close>. Times are in microseconds.
\<close>

locale ttl_lock =
  fixes acquire :: "'k \<Rightarrow> int \<Rightarrow> int \<Rightarrow> 't \<Rightarrow> bool \<times> 't"
    and held_until :: "'t \<Rightarrow> 'k \<Rightarrow> int option"
    and good :: "'t \<Rightarrow> bool"
    and lifetime :: "int \<Rightarrow> bool"
  assumes acquire_iff:
      "good t \<Longrightarrow> lifetime ttl \<Longrightarrow> fst (acquire k ttl now t) \<longleftrightarrow>
         (case held_until t k of None \<Rightarrow> True | Some e \<Rightarrow> e \<le> now)"
    and acquire_won:
      "good t \<Longrightarrow> lifetime ttl \<Longrightarrow> fst (acquire k ttl now t) \<Longrightarrow>
         held_until (snd (acquire k ttl now t)) k = Some (now + ttl * 1000000)"
    and acquire_keeps:
      "good t \<Longrightarrow> lifetime ttl \<Longrightarrow> held_until t k = Some e \<Longrightarrow> now < e \<Longrightarrow>
         held_until (snd (acquire j ttl now t)) k = Some e"
    and acquire_good: "good t \<Longrightarrow> lifetime ttl \<Longrightarrow> good (snd (acquire k ttl now t))"
begin

definition run_acquires :: "('k \<times> int \<times> int) list \<Rightarrow> 't \<Rightarrow> 't" where
  "run_acquires = fold (\<lambda>(k, ttl, now) t. snd (acquire k ttl now t))"

lemma run_acquires_keeps:
  "good t \<Longrightarrow> held_until t k = Some e \<Longrightarrow> \<forall>(j, ttl, now) \<in> set xs. lifetime ttl \<and> now < e \<Longrightarrow>
   held_until (run_acquires xs t) k = Some e \<and> good (run_acquires xs t)"
  unfolding run_acquires_def
  by (induction xs arbitrary: t) (auto simp: acquire_keeps acquire_good case_prod_beta)

lemma exclusive:
  assumes "good t" and "lifetime ttl" and "fst (acquire k ttl now t)"
    and "\<forall>(j, ttl', now') \<in> set xs. lifetime ttl' \<and> now' < now + ttl * 1000000"
    and "lifetime ttl2" and "later < now + ttl * 1000000"
  shows "\<not> fst (acquire k ttl2 later
                 (fold (\<lambda>(j, l, n) t. snd (acquire j l n t)) xs (snd (acquire k ttl now t))))"
proof -
  have "held_until (run_acquires xs (snd (acquire k ttl now t))) k
          = Some (now + ttl * 1000000) \<and> good (run_acquires xs (snd (acquire k ttl now t)))"
    using assms(1-4) by (intro run_acquires_keeps acquire_won acquire_good)
  then show ?thesis using assms(5,6) by (simp add: acquire_iff run_acquires_def)
qed

end

text \<open>
  A store that forgets nothing of a lock but its own: a refused attempt and an attempt on another
  key leave every lock as it was.
\<close>

locale precise_ttl_lock =
  fixes acquire :: "'k \<Rightarrow> int \<Rightarrow> int \<Rightarrow> 't \<Rightarrow> bool \<times> 't"
    and held_until :: "'t \<Rightarrow> 'k \<Rightarrow> int option"
    and good :: "'t \<Rightarrow> bool"
  assumes precise_iff:
      "good t \<Longrightarrow> fst (acquire k ttl now t) \<longleftrightarrow>
         (case held_until t k of None \<Rightarrow> True | Some e \<Rightarrow> e \<le> now)"
    and precise_held:
      "good t \<Longrightarrow> held_until (snd (acquire k ttl now t)) j =
         (if j = k \<and> fst (acquire k ttl now t) then Some (now + ttl * 1000000) else held_until t j)"
    and precise_good: "good t \<Longrightarrow> good (snd (acquire k ttl now t))"

sublocale precise_ttl_lock \<subseteq> ttl_lock acquire held_until good "\<lambda>ttl. True"
  by unfold_locales (auto simp: precise_iff precise_held precise_good)

section \<open>Priority heaps\<close>

text \<open>
  What the code relies on of \<open>heapq\<close> (and of \<open>asyncio.PriorityQueue\<close>, which uses it): pushing
  adds one element, popping removes an element no other is smaller than.
\<close>

locale min_heap =
  fixes push :: "'a \<Rightarrow> 'h \<Rightarrow> 'h"
    and pop :: "'h \<Rightarrow> ('a \<times> 'h) option"
    and elems :: "'h \<Rightarrow> 'a multiset"
    and prio :: "'a \<Rightarrow> 'p::linorder"
  assumes elems_push: "elems (push x h) = add_mset x (elems h)"
    and pop_None: "pop h = None \<longleftrightarrow> elems h = {#}"
    and pop_elems: "pop h = Some (x, h') \<Longrightarrow> elems h = add_mset x (elems h')"
    and pop_min: "pop h = Some (x, h') \<Longrightarrow> y \<in># elems h' \<Longrightarrow> prio x \<le> prio y"
begin

lemma pop_is_least: "pop h = Some (x, h') \<Longrightarrow> y \<in># elems h \<Longrightarrow> prio x \<le> prio y"
  using pop_elems pop_min by fastforce

lemma size_pop: "pop h = Some (x, h') \<Longrightarrow> size (elems h) = Suc (size (elems h'))"
  by (simp add: pop_elems)

fun drain :: "nat \<Rightarrow> 'h \<Rightarrow> 'a list" where
  "drain 0 h = []"
| "drain (Suc n) h = (case pop h of None \<Rightarrow> [] | Some (x, h') \<Rightarrow> x # drain n h')"

lemma set_drain: "set (drain n h) \<subseteq> set_mset (elems h)"
proof (induction n arbitrary: h)
  case (Suc n)
  show ?case
  proof (cases "pop h")
    case (Some p)
    then obtain x h' where p: "pop h = Some (x, h')" by (cases p) auto
    show ?thesis using Suc.IH [of h'] pop_elems [OF p] p by auto
  qed simp
qed simp

lemma drain_sorted: "sorted (map prio (drain n h))"
proof (induction n arbitrary: h)
  case (Suc n)
  show ?case
  proof (cases "pop h")
    case (Some p)
    then obtain x h' where p: "pop h = Some (x, h')" by (cases p) auto
    have "\<forall>y \<in> set (drain n h'). prio x \<le> prio y"
      using set_drain [of n h'] pop_min [OF p] by blast
    then show ?thesis using Suc.IH [of h'] p by simp
  qed simp
qed simp

lemma mset_drain: "size (elems h) \<le> n \<Longrightarrow> mset (drain n h) = elems h"
proof (induction n arbitrary: h)
  case 0
  then show ?case by simp
next
  case (Suc n)
  show ?case
  proof (cases "pop h")
    case None
    then show ?thesis by (simp add: pop_None [symmetric])
  next
    case (Some p)
    then obtain x h' where p: "pop h = Some (x, h')" by (cases p) auto
    have "size (elems h') \<le> n" using Suc.prems size_pop [OF p] by simp
    then show ?thesis using Suc.IH [of h'] p pop_elems [OF p] by simp
  qed
qed

end

end
