(* ===== verification/Py_Values.thy ===== *)
theory Py_Values
  imports Prelude "HOL-Library.Char_ord" "HOL-Library.List_Lexorder"
begin

text \<open>
  The Python values the code stores: dynamic argument values and their JSON form, and
  timestamps with their ISO 8601 text. Standard-library behaviour only, so nothing here is
  translated from a file under src/; the components use it as the code uses \<open>json\<close> and
  \<open>datetime\<close>.
\<close>

section \<open>Dynamic values and JSON\<close>

text \<open>
  \<open>VObj r\<close> is any object JSON has no form for; \<open>r\<close> is its \<open>repr\<close>. \<open>VStamp\<close> is a string that
  holds an ISO timestamp (kept apart so that timestamps can be read back).
\<close>

datatype isotext = IsoText (iso_secs: int) (iso_suffix: string)

datatype pyval =
    VNone
  | VBool bool
  | VInt int
  | VFloat rat
  | VStr string
  | VStamp isotext
  | VList "pyval list"
  | VTuple "pyval list"
  | VDict "(string \<times> pyval) list"
  | VObj string

type_synonym pyargs = "pyval list"
type_synonym pykwargs = "(string, pyval) dict"

datatype json =
    JNull
  | JBool bool
  | JInt int
  | JNum rat
  | JStr string
  | JStamp isotext
  | JArr "json list"
  | JObj "(string \<times> json) list"

text \<open>\<open>json.dumps(v, default=repr)\<close>: tuples become arrays, foreign objects their \<open>repr\<close>.\<close>

fun dumps :: "pyval \<Rightarrow> json" where
  "dumps VNone = JNull"
| "dumps (VBool b) = JBool b"
| "dumps (VInt i) = JInt i"
| "dumps (VFloat q) = JNum q"
| "dumps (VStr s) = JStr s"
| "dumps (VStamp t) = JStamp t"
| "dumps (VList vs) = JArr (map dumps vs)"
| "dumps (VTuple vs) = JArr (map dumps vs)"
| "dumps (VDict kvs) = JObj (map (\<lambda>(k, v). (k, dumps v)) kvs)"
| "dumps (VObj r) = JStr r"

fun loads :: "json \<Rightarrow> pyval" where
  "loads JNull = VNone"
| "loads (JBool b) = VBool b"
| "loads (JInt i) = VInt i"
| "loads (JNum q) = VFloat q"
| "loads (JStr s) = VStr s"
| "loads (JStamp t) = VStamp t"
| "loads (JArr js) = VList (map loads js)"
| "loads (JObj kjs) = VDict (map (\<lambda>(k, j). (k, loads j)) kjs)"

fun json_native :: "pyval \<Rightarrow> bool" where
  "json_native (VList vs) = list_all json_native vs"
| "json_native (VTuple vs) = False"
| "json_native (VDict kvs) = list_all (\<lambda>(k, v). json_native v) kvs"
| "json_native (VObj r) = False"
| "json_native _ = True"

lemma loads_dumps: "json_native v \<Longrightarrow> loads (dumps v) = v"
proof (induction v rule: json_native.induct)
  case (1 vs)
  then show ?case by (auto simp: list_all_iff intro: map_idI)
next
  case (3 kvs)
  then show ?case by (force simp: list_all_iff intro!: map_idI)
qed auto

lemma loads_dumps_native: "json_native (loads (dumps v))"
  by (induction v) (auto simp: list_all_iff)

text \<open>The argument columns: \<open>json.dumps(list(args))\<close> / \<open>tuple(json.loads(...))\<close>.\<close>

definition args_json :: "pyargs \<Rightarrow> json list" where
  "args_json as = map dumps as"

definition json_args :: "json list \<Rightarrow> pyargs" where
  "json_args js = map loads js"

definition kwargs_json :: "pykwargs \<Rightarrow> (string \<times> json) list" where
  "kwargs_json kw = map (\<lambda>(k, v). (k, dumps v)) kw"

definition json_kwargs :: "(string \<times> json) list \<Rightarrow> pykwargs" where
  "json_kwargs kj = map (\<lambda>(k, j). (k, loads j)) kj"

definition native_call :: "pyargs \<Rightarrow> pykwargs \<Rightarrow> bool" where
  "native_call as kw \<longleftrightarrow> list_all json_native as \<and> list_all (\<lambda>(k, v). json_native v) kw"

lemma json_args_roundtrip: "list_all json_native as \<Longrightarrow> json_args (args_json as) = as"
  by (auto simp: json_args_def args_json_def list_all_iff loads_dumps intro: map_idI)

lemma json_kwargs_roundtrip:
  "list_all (\<lambda>(k, v). json_native v) kw \<Longrightarrow> json_kwargs (kwargs_json kw) = kw"
  by (induction kw) (auto simp: json_kwargs_def kwargs_json_def loads_dumps)

section \<open>Timestamps\<close>

text \<open>
  \<open>dt_wall\<close> is the wall-clock reading in microseconds since 0001-01-01T00:00:00 and \<open>dt_tz\<close> the
  offset from UTC in microseconds, \<open>None\<close> for a naive datetime. Comparison of aware datetimes
  is by the UTC instant; the code only compares datetimes that are both aware or both naive.
\<close>

record datetime =
  dt_wall :: int
  dt_tz :: "int option"

definition utc_dt :: "int \<Rightarrow> datetime" where
  "utc_dt us = \<lparr>dt_wall = us, dt_tz = Some 0\<rparr>"

definition instant :: "datetime \<Rightarrow> int" where
  "instant d = dt_wall d - (case dt_tz d of None \<Rightarrow> 0 | Some off \<Rightarrow> off)"

definition replace_tz :: "int option \<Rightarrow> datetime \<Rightarrow> datetime" where
  "replace_tz tz d = d\<lparr>dt_tz := tz\<rparr>"

definition add_us :: "datetime \<Rightarrow> int \<Rightarrow> datetime" where
  "add_us d us = d\<lparr>dt_wall := dt_wall d + us\<rparr>"

definition dt_le :: "datetime \<Rightarrow> datetime \<Rightarrow> bool" where
  "dt_le a b \<longleftrightarrow> instant a \<le> instant b"

definition dt_less :: "datetime \<Rightarrow> datetime \<Rightarrow> bool" where
  "dt_less a b \<longleftrightarrow> instant a < instant b"

definition is_aware :: "datetime \<Rightarrow> bool" where
  "is_aware d \<longleftrightarrow> dt_tz d \<noteq> None"

text \<open>\<open>dt.replace(tzinfo=utc)\<close> when naive: the convention the code uses throughout.\<close>

definition as_utc_aware :: "datetime \<Rightarrow> datetime" where
  "as_utc_aware d = (if dt_tz d = None then replace_tz (Some 0) d else d)"

lemma instant_utc [simp]: "instant (utc_dt us) = us"
  by (simp add: instant_def utc_dt_def)

lemma instant_add_us [simp]: "instant (add_us d us) = instant d + us"
  by (simp add: instant_def add_us_def)

lemma instant_as_utc_aware [simp]: "instant (as_utc_aware d) = instant d"
  by (auto simp: instant_def as_utc_aware_def replace_tz_def)

lemma add_us_utc [simp]: "add_us (utc_dt a) b = utc_dt (a + b)"
  by (simp add: add_us_def utc_dt_def)

lemma as_utc_aware_utc [simp]: "as_utc_aware (utc_dt a) = utc_dt a"
  by (simp add: as_utc_aware_def utc_dt_def)

section \<open>ISO 8601 text\<close>

text \<open>
  \<open>isoformat\<close> writes \<open>YYYY-MM-DDTHH:MM:SS[.ffffff][+HH:MM]\<close>. The first nineteen characters have
  fixed width, so they are ordered as the wall-clock second they denote; \<open>IsoText\<close> keeps that
  second as a number and the rest as the characters written. Text comparison (\<open>end_time < ?\<close>
  in SQL, \<open>end_time < cutoff_iso\<close> in Python) is then lexicographic on the pair.
\<close>

fun digits :: "nat \<Rightarrow> nat \<Rightarrow> string" where
  "digits 0 n = []"
| "digits (Suc w) n = digits w (n div 10) @ [char_of (48 + n mod 10)]"

definition off_text :: "int \<Rightarrow> string" where
  "off_text off =
     (let m = nat (\<bar>off\<bar> div 60000000)
      in (if off < 0 then ''-'' else ''+'') @ digits 2 (m div 60) @ '':'' @ digits 2 (m mod 60))"

definition us_text :: "int \<Rightarrow> string" where
  "us_text us = (if us = 0 then [] else CHR ''.'' # digits 6 (nat us))"

definition isoformat :: "datetime \<Rightarrow> isotext" where
  "isoformat d =
     IsoText (dt_wall d div 1000000)
       (us_text (dt_wall d mod 1000000)
        @ (case dt_tz d of None \<Rightarrow> [] | Some off \<Rightarrow> off_text off))"

definition iso_less :: "isotext \<Rightarrow> isotext \<Rightarrow> bool" where
  "iso_less a b \<longleftrightarrow>
     iso_secs a < iso_secs b \<or> iso_secs a = iso_secs b \<and> iso_suffix a < iso_suffix b"

definition iso_le :: "isotext \<Rightarrow> isotext \<Rightarrow> bool" where
  "iso_le a b \<longleftrightarrow> a = b \<or> iso_less a b"

fun undigits :: "string \<Rightarrow> nat" where
  "undigits cs = fold (\<lambda>c n. 10 * n + (of_char c - 48)) cs 0"

declare undigits.simps [simp del]

definition parse_off :: "string \<Rightarrow> int option" where
  "parse_off s =
     (case s of [] \<Rightarrow> None
      | c # r \<Rightarrow>
          Some ((if c = CHR ''-'' then -1 else 1)
                * int (60 * undigits (take 2 r) + undigits (drop 3 r)) * 60000000))"

definition fromisoformat :: "isotext \<Rightarrow> datetime" where
  "fromisoformat t =
     (case iso_suffix t of
        [] \<Rightarrow> \<lparr>dt_wall = iso_secs t * 1000000, dt_tz = None\<rparr>
      | c # r \<Rightarrow>
          (if c = CHR ''.''
           then \<lparr>dt_wall = iso_secs t * 1000000 + int (undigits (take 6 r)),
                 dt_tz = parse_off (drop 6 r)\<rparr>
           else \<lparr>dt_wall = iso_secs t * 1000000, dt_tz = parse_off (c # r)\<rparr>))"

text \<open>Offsets the standard library's fixed zones have and \<open>HH:MM\<close> can show.\<close>

definition dt_ok :: "datetime \<Rightarrow> bool" where
  "dt_ok d \<longleftrightarrow>
     (case dt_tz d of None \<Rightarrow> True | Some off \<Rightarrow> 60000000 dvd off \<and> \<bar>off\<bar> < 86400000000)"

lemma length_digits [simp]: "length (digits w n) = w"
  by (induction w arbitrary: n) auto

lemma of_char_digit: "k < 10 \<Longrightarrow> (of_char (char_of (48 + k :: nat)) :: nat) = 48 + k"
  by (simp add: of_char_of)

lemma undigits_append: "undigits (s @ [c]) = 10 * undigits s + (of_char c - 48)"
  by (simp add: undigits.simps)

lemma undigits_digits: "n < 10 ^ w \<Longrightarrow> undigits (digits w n) = n"
proof (induction w arbitrary: n)
  case 0
  then show ?case by (simp add: undigits.simps)
next
  case (Suc w)
  have "n div 10 < 10 ^ w" using Suc.prems by (simp add: less_mult_imp_div_less mult.commute)
  then have "undigits (digits w (n div 10)) = n div 10" by (rule Suc.IH)
  moreover have "(of_char (char_of (48 + n mod 10 :: nat)) :: nat) = 48 + n mod 10"
    by (rule of_char_digit) simp
  ultimately show ?case by (simp add: undigits_append)
qed

lemma parse_off_text:
  assumes "60000000 dvd off" and "\<bar>off\<bar> < 86400000000"
  shows "parse_off (off_text off) = Some off"
proof -
  define m where "m = nat (\<bar>off\<bar> div 60000000)"
  have m: "m < 1440" and off: "\<bar>off\<bar> = int m * 60000000"
    using assms by (auto simp: m_def)
  have d: "undigits (digits 2 (m div 60)) = m div 60" "undigits (digits 2 (m mod 60)) = m mod 60"
    using m by (auto intro!: undigits_digits)
  have len: "length (digits 2 (m div 60)) = 2" by simp
  have m60: "int m = 60 * int (m div 60) + int (m mod 60)"
    using mult_div_mod_eq [of 60 m] by (metis of_nat_add of_nat_mult of_nat_numeral)
  have whole: "(if off < 0 then -1 else 1) * int (60 * (m div 60) + m mod 60) * 60000000 = off"
    using off m60 by (auto simp: abs_if split: if_splits)
  show ?thesis
    using d len whole m60 off unfolding parse_off_def off_text_def m_def [symmetric] Let_def
    by (auto split: if_splits)
qed

lemma off_text_head: "off_text off = c # r \<Longrightarrow> c \<noteq> CHR ''.''"
  by (auto simp: off_text_def Let_def split: if_splits)

lemma off_text_nonempty: "off_text off \<noteq> []"
  by (simp add: off_text_def Let_def)

lemma parse_off_Nil [simp]: "parse_off [] = None"
  by (simp add: parse_off_def)

lemma parse_off_opt:
  "dt_ok d \<Longrightarrow> parse_off (case dt_tz d of None \<Rightarrow> [] | Some off \<Rightarrow> off_text off) = dt_tz d"
  by (auto simp: dt_ok_def parse_off_text split: option.splits)

lemma fromisoformat_isoformat:
  assumes "dt_ok d"
  shows "fromisoformat (isoformat d) = d"
proof -
  define tz where "tz = (case dt_tz d of None \<Rightarrow> [] | Some off \<Rightarrow> off_text off)"
  have tz: "parse_off tz = dt_tz d" using assms parse_off_opt by (simp add: tz_def)
  have tz0: "tz = [] \<longleftrightarrow> dt_tz d = None" and tzc: "tz = c # r \<Longrightarrow> c \<noteq> CHR ''.''" for c r
    by (auto simp: tz_def off_text_nonempty off_text_head split: option.splits)
  have iso: "isoformat d = IsoText (dt_wall d div 1000000) (us_text (dt_wall d mod 1000000) @ tz)"
    by (simp add: isoformat_def tz_def)
  show ?thesis
  proof (cases "dt_wall d mod 1000000 = 0")
    case True
    then have w: "dt_wall d div 1000000 * 1000000 = dt_wall d" by auto
    show ?thesis
      using True w tz tz0 tzc
      by (cases tz) (auto simp: iso fromisoformat_def us_text_def)
  next
    case False
    have "nat (dt_wall d mod 1000000) < 10 ^ 6" by (simp add: nat_less_iff)
    then have u: "int (undigits (digits 6 (nat (dt_wall d mod 1000000)))) = dt_wall d mod 1000000"
      by (subst undigits_digits) auto
    show ?thesis
      using False u tz by (simp add: iso fromisoformat_def us_text_def)
  qed
qed

lemma dt_ok_utc [simp]: "dt_ok (utc_dt us)"
  by (simp add: dt_ok_def utc_dt_def)

text \<open>Text order of the UTC timestamps the code writes is chronological order.\<close>

lemma snoc_less:
  fixes xs ys :: string
  shows "length xs = length ys \<Longrightarrow>
         xs @ [a] < ys @ [b] \<longleftrightarrow> xs < ys \<or> xs = ys \<and> a < b"
proof (induction xs ys rule: list_induct2)
  case (Cons x xs y ys)
  then show ?case by auto
qed simp

lemma append_less_same_length:
  fixes xs ys :: string
  shows "length xs = length ys \<Longrightarrow> xs @ zs < ys @ zs \<longleftrightarrow> xs < ys"
proof (induction xs ys rule: list_induct2)
  case (Cons x xs y ys)
  then show ?case by auto
qed simp

lemma digit_char_less:
  "j < 10 \<Longrightarrow> k < 10 \<Longrightarrow> (char_of (48 + j :: nat) :: char) < char_of (48 + k :: nat) \<longleftrightarrow> j < k"
  by (simp add: less_char_def of_char_of)

lemma digits_inj: "m < 10 ^ w \<Longrightarrow> n < 10 ^ w \<Longrightarrow> digits w m = digits w n \<Longrightarrow> m = n"
  by (metis undigits_digits)

lemma div_mod_less_nat:
  fixes a b c :: nat
  assumes "0 < c"
  shows "a div c < b div c \<or> a div c = b div c \<and> a mod c < b mod c \<longleftrightarrow> a < b"
proof -
  have le: "a div c \<le> b div c" if "a < b" using that by (intro div_le_mono) auto
  have ge: "b div c \<le> a div c" if "b \<le> a" using that by (intro div_le_mono) auto
  have a: "a = c * (a div c) + a mod c" and b: "b = c * (b div c) + b mod c" by simp_all
  show ?thesis
  proof (cases "a div c = b div c")
    case True
    then have "c * (a div c) = c * (b div c)" by simp
    then have "a < b \<longleftrightarrow> a mod c < b mod c" using a b by linarith
    then show ?thesis using True by simp
  next
    case False
    then show ?thesis using le ge by linarith
  qed
qed

lemma digits_less: "m < 10 ^ w \<Longrightarrow> n < 10 ^ w \<Longrightarrow> digits w m < digits w n \<longleftrightarrow> m < n"
proof (induction w arbitrary: m n)
  case 0
  then show ?case by simp
next
  case (Suc w)
  have b: "m div 10 < 10 ^ w" "n div 10 < 10 ^ w"
    using Suc.prems by (simp_all add: less_mult_imp_div_less mult.commute)
  have "digits (Suc w) m < digits (Suc w) n
          \<longleftrightarrow> digits w (m div 10) < digits w (n div 10)
              \<or> digits w (m div 10) = digits w (n div 10)
                 \<and> (char_of (48 + m mod 10) :: char) < char_of (48 + n mod 10)"
    unfolding digits.simps by (rule snoc_less) simp
  also have "\<dots> \<longleftrightarrow> m div 10 < n div 10 \<or> m div 10 = n div 10 \<and> m mod 10 < n mod 10"
  proof -
    have "(char_of (48 + m mod 10) :: char) < char_of (48 + n mod 10) \<longleftrightarrow> m mod 10 < n mod 10"
      by (rule digit_char_less) simp_all
    then show ?thesis unfolding Suc.IH [OF b] using digits_inj [OF b] by metis
  qed
  also have "\<dots> \<longleftrightarrow> m < n" by (rule div_mod_less_nat) simp
  finally show ?case .
qed

lemma us_text_less:
  assumes "0 \<le> a" "a < 1000000" "0 \<le> b" "b < 1000000"
    and z: "z = [] \<or> hd z < CHR ''.''"
  shows "us_text a @ z < us_text b @ z \<longleftrightarrow> a < b"
proof -
  have plus_dot: "z < CHR ''.'' # cs" "\<not> CHR ''.'' # cs < z" for cs
    using z by (cases z; force)+
  have d: "nat x < 10 ^ 6" if "x < 1000000" for x :: int using that by simp
  consider "a = 0" "b = 0" | "a = 0" "b \<noteq> 0" | "a \<noteq> 0" "b = 0" | "a \<noteq> 0" "b \<noteq> 0" by blast
  then show ?thesis
  proof cases
    case 4
    have "digits 6 (nat a) < digits 6 (nat b) \<longleftrightarrow> nat a < nat b"
      using d [OF assms(2)] d [OF assms(4)] by (rule digits_less)
    then show ?thesis
      using 4 assms append_less_same_length [of "digits 6 (nat a)" "digits 6 (nat b)" z]
      by (simp add: us_text_def nat_less_eq_zless)
  qed (use assms plus_dot in \<open>auto simp: us_text_def\<close>)
qed

lemma off_text_0 [simp]: "off_text 0 = ''+00:00''"
  by code_simp

lemma isoformat_utc_inj: "isoformat (utc_dt a) = isoformat (utc_dt b) \<Longrightarrow> a = b"
  by (metis dt_ok_utc fromisoformat_isoformat instant_utc)

lemma div_mod_less:
  fixes a b c :: int
  assumes "0 < c"
  shows "a div c < b div c \<or> a div c = b div c \<and> a mod c < b mod c \<longleftrightarrow> a < b"
proof -
  have "a div c \<le> b div c" if "a < b" using that assms by (intro zdiv_mono1) auto
  moreover have "b div c \<le> a div c" if "b \<le> a" using that assms by (intro zdiv_mono1) auto
  moreover have "a = c * (a div c) + a mod c" "b = c * (b div c) + b mod c" by simp_all
  ultimately show ?thesis by (smt (verit))
qed

lemma iso_less_utc: "iso_less (isoformat (utc_dt a)) (isoformat (utc_dt b)) \<longleftrightarrow> a < b"
proof -
  have "iso_less (isoformat (utc_dt a)) (isoformat (utc_dt b))
          \<longleftrightarrow> a div 1000000 < b div 1000000
              \<or> a div 1000000 = b div 1000000 \<and> a mod 1000000 < b mod 1000000"
    by (simp add: iso_less_def isoformat_def utc_dt_def us_text_less less_char_def)
  also have "\<dots> \<longleftrightarrow> a < b" by (rule div_mod_less) simp
  finally show ?thesis .
qed

lemma iso_le_utc: "iso_le (isoformat (utc_dt a)) (isoformat (utc_dt b)) \<longleftrightarrow> a \<le> b"
  using isoformat_utc_inj iso_less_utc by (auto simp: iso_le_def)

text \<open>The same for the naive timestamps \<open>datetime.utcnow()\<close> gives.\<close>

definition naive_dt :: "int \<Rightarrow> datetime" where
  "naive_dt us = \<lparr>dt_wall = us, dt_tz = None\<rparr>"

lemma iso_less_naive: "iso_less (isoformat (naive_dt a)) (isoformat (naive_dt b)) \<longleftrightarrow> a < b"
proof -
  have "iso_less (isoformat (naive_dt a)) (isoformat (naive_dt b))
          \<longleftrightarrow> a div 1000000 < b div 1000000
              \<or> a div 1000000 = b div 1000000 \<and> a mod 1000000 < b mod 1000000"
    using us_text_less [of "a mod 1000000" "b mod 1000000" "[]"]
    by (simp add: iso_less_def isoformat_def naive_dt_def)
  also have "\<dots> \<longleftrightarrow> a < b" by (rule div_mod_less) simp
  finally show ?thesis .
qed

lemma dt_ok_naive: "dt_ok (naive_dt us)"
  by (simp add: dt_ok_def naive_dt_def)

lemma isoformat_naive_inj: "isoformat (naive_dt a) = isoformat (naive_dt b) \<Longrightarrow> a = b"
proof -
  assume "isoformat (naive_dt a) = isoformat (naive_dt b)"
  then have "naive_dt a = naive_dt b"
    using fromisoformat_isoformat [OF dt_ok_naive] by metis
  then show "a = b" by (simp add: naive_dt_def)
qed

lemma iso_le_naive: "iso_le (isoformat (naive_dt a)) (isoformat (naive_dt b)) \<longleftrightarrow> a \<le> b"
  using isoformat_naive_inj iso_less_naive by (auto simp: iso_le_def)

end
