(* ===== verification/Models.thy ===== *)
theory Models
  imports Py_Values
begin

text \<open>
  The data model of \<^verbatim>\<open>src/fastapi_taskflow/models.py\<close>: task states, per-function
  configuration, the record of one task invocation with its JSON form, one-off schedule entries
  and audit entries.
\<close>

section \<open>Enumerations\<close>

datatype task_status =
  PENDING | RUNNING | SUCCESS | FAILED | INTERRUPTED | CANCELLED | REJECTED

fun status_value :: "task_status \<Rightarrow> string" where
  "status_value PENDING = ''pending''"
| "status_value RUNNING = ''running''"
| "status_value SUCCESS = ''success''"
| "status_value FAILED = ''failed''"
| "status_value INTERRUPTED = ''interrupted''"
| "status_value CANCELLED = ''cancelled''"
| "status_value REJECTED = ''rejected''"

definition all_statuses :: "task_status list" where
  "all_statuses = [PENDING, RUNNING, SUCCESS, FAILED, INTERRUPTED, CANCELLED, REJECTED]"

text \<open>\<open>TaskStatus(value)\<close>: lookup by value, \<open>ValueError\<close> when there is no such member.\<close>

definition status_of_value :: "string \<Rightarrow> py_exc + task_status" where
  "status_of_value v =
     (case find (\<lambda>s. status_value s = v) all_statuses of
        Some s \<Rightarrow> Inr s | None \<Rightarrow> Inl (ValueError v))"

lemma status_of_value_value [simp]: "status_of_value (status_value s) = Inr s"
  by (cases s) (simp_all add: status_of_value_def all_statuses_def)

datatype exec_kind = EAsync | EThread | EProcess

fun exec_name :: "exec_kind \<Rightarrow> string" where
  "exec_name EAsync = ''async''"
| "exec_name EThread = ''thread''"
| "exec_name EProcess = ''process''"

section \<open>Configuration\<close>

record queue_config =
  qc_concurrency :: "int option"
  qc_max_size :: "int option"

record task_config =
  tc_retries :: int
  tc_delay :: rat
  tc_backoff :: rat
  tc_persist :: bool
  tc_name :: "string option"
  tc_requeue_on_interrupt :: bool
  tc_eager :: bool
  tc_priority :: "int option"
  tc_executor :: "exec_kind option"
  tc_queue :: "string option"

text \<open>\<open>TaskConfig()\<close> with every field at its default.\<close>

definition default_config :: task_config where
  "default_config =
     \<lparr>tc_retries = 0, tc_delay = 0, tc_backoff = 1, tc_persist = False, tc_name = None,
      tc_requeue_on_interrupt = False, tc_eager = False, tc_priority = None,
      tc_executor = None, tc_queue = None\<rparr>"

section \<open>Task records\<close>

record task_record =
  task_id :: string
  func_name :: string
  status :: task_status
  args :: pyargs
  kwargs :: pykwargs
  created_at :: datetime
  start_time :: "datetime option"
  end_time :: "datetime option"
  retries_used :: int
  error :: "string option"
  logs :: "string list"
  stacktrace :: "string option"
  idempotency_key :: "string option"
  tags :: "(string, string) dict"
  encrypted_payload :: "string option"
  source :: string
  priority :: "int option"
  executor :: "exec_kind option"
  queue :: string

definition iso_utc :: "datetime option \<Rightarrow> isotext option" where
  "iso_utc d = map_option (\<lambda>d. isoformat (as_utc_aware d)) d"

text \<open>Elapsed seconds; \<open>None\<close> until the task has finished.\<close>

definition duration :: "task_record \<Rightarrow> rat option" where
  "duration r =
     (case (start_time r, end_time r) of
        (Some s, Some e) \<Rightarrow> Some (of_int (instant e - instant s) / 1000000)
      | _ \<Rightarrow> None)"

definition opt_val :: "('a \<Rightarrow> pyval) \<Rightarrow> 'a option \<Rightarrow> pyval" where
  "opt_val f x = (case x of None \<Rightarrow> VNone | Some v \<Rightarrow> f v)"

definition to_dict :: "task_record \<Rightarrow> (string, pyval) dict" where
  "to_dict r =
     [(''task_id'', VStr (task_id r)),
      (''func_name'', VStr (func_name r)),
      (''status'', VStr (status_value (status r))),
      (''created_at'', opt_val VStamp (iso_utc (Some (created_at r)))),
      (''start_time'', opt_val VStamp (iso_utc (start_time r))),
      (''end_time'', opt_val VStamp (iso_utc (end_time r))),
      (''duration'', opt_val VFloat (duration r)),
      (''retries_used'', VInt (retries_used r)),
      (''error'', opt_val VStr (error r)),
      (''logs'', VList (map VStr (logs r))),
      (''stacktrace'', opt_val VStr (stacktrace r)),
      (''tags'', VDict (map (\<lambda>(k, v). (k, VStr v)) (tags r))),
      (''source'', VStr (source r)),
      (''priority'', opt_val VInt (priority r)),
      (''executor'', opt_val (\<lambda>k. VStr (exec_name k)) (executor r)),
      (''queue'', VStr (queue r))]"

text \<open>
  Reading the fields back. Python does not check the field types; a value of a type \<open>to_dict\<close>
  never writes is a \<open>TypeError\<close> here.
\<close>

fun as_str :: "pyval \<Rightarrow> py_exc + string" where
  "as_str (VStr s) = Inr s"
| "as_str _ = Inl (TypeError ''str'')"

fun as_int :: "pyval \<Rightarrow> py_exc + int" where
  "as_int (VInt i) = Inr i"
| "as_int _ = Inl (TypeError ''int'')"

fun as_stamp :: "pyval \<Rightarrow> py_exc + datetime" where
  "as_stamp (VStamp t) = Inr (fromisoformat t)"
| "as_stamp _ = Inl (TypeError ''fromisoformat: argument must be str'')"

fun as_exec :: "pyval \<Rightarrow> py_exc + exec_kind" where
  "as_exec (VStr s) =
     (if s = ''async'' then Inr EAsync else if s = ''thread'' then Inr EThread
      else if s = ''process'' then Inr EProcess else Inl (TypeError ''executor''))"
| "as_exec _ = Inl (TypeError ''executor'')"

fun seqm :: "(py_exc + 'a) list \<Rightarrow> py_exc + 'a list" where
  "seqm [] = Inr []"
| "seqm (Inl e # xs) = Inl e"
| "seqm (Inr x # xs) = (case seqm xs of Inl e \<Rightarrow> Inl e | Inr ys \<Rightarrow> Inr (x # ys))"

fun as_strs :: "pyval \<Rightarrow> py_exc + string list" where
  "as_strs (VList vs) = seqm (map as_str vs)"
| "as_strs _ = Inl (TypeError ''list'')"

fun as_tags :: "pyval \<Rightarrow> py_exc + (string, string) dict" where
  "as_tags (VDict kvs) =
     seqm (map (\<lambda>(k, v). case as_str v of Inl e \<Rightarrow> Inl e | Inr s \<Rightarrow> Inr (k, s)) kvs)"
| "as_tags _ = Inl (TypeError ''dict'')"

definition bindr :: "py_exc + 'a \<Rightarrow> ('a \<Rightarrow> py_exc + 'b) \<Rightarrow> py_exc + 'b" where
  "bindr m f = (case m of Inl e \<Rightarrow> Inl e | Inr x \<Rightarrow> f x)"

lemma bindr_simps [simp]: "bindr (Inl e) f = Inl e" "bindr (Inr x) f = f x"
  by (simp_all add: bindr_def)

text \<open>\<open>data[k]\<close>, \<open>data.get(k)\<close> read as optional, and \<open>data.get(k, default)\<close>.\<close>

definition item :: "(string, pyval) dict \<Rightarrow> string \<Rightarrow> py_exc + pyval" where
  "item d k = (case dget d k of None \<Rightarrow> Inl (KeyError k) | Some v \<Rightarrow> Inr v)"

definition get_opt ::
  "(pyval \<Rightarrow> py_exc + 'a) \<Rightarrow> (string, pyval) dict \<Rightarrow> string \<Rightarrow> py_exc + 'a option" where
  "get_opt f d k =
     (case dget d k of
        None \<Rightarrow> Inr None
      | Some v \<Rightarrow> if v = VNone then Inr None else bindr (f v) (\<lambda>x. Inr (Some x)))"

definition get_or ::
  "(pyval \<Rightarrow> py_exc + 'a) \<Rightarrow> 'a \<Rightarrow> (string, pyval) dict \<Rightarrow> string \<Rightarrow> py_exc + 'a" where
  "get_or f dflt d k = (case dget d k of None \<Rightarrow> Inr dflt | Some v \<Rightarrow> f v)"

definition from_dict :: "(string, pyval) dict \<Rightarrow> py_exc + task_record" where
  "from_dict d =
     bindr (bindr (item d ''task_id'') as_str) (\<lambda>tid.
     bindr (bindr (item d ''func_name'') as_str) (\<lambda>fn.
     bindr (bindr (bindr (item d ''status'') as_str) status_of_value) (\<lambda>st.
     bindr (bindr (item d ''created_at'') as_stamp) (\<lambda>cr.
     bindr (get_opt as_stamp d ''start_time'') (\<lambda>sta.
     bindr (get_opt as_stamp d ''end_time'') (\<lambda>en.
     bindr (get_or as_int 0 d ''retries_used'') (\<lambda>ru.
     bindr (get_opt as_str d ''error'') (\<lambda>er.
     bindr (get_or as_strs [] d ''logs'') (\<lambda>lg.
     bindr (get_opt as_str d ''stacktrace'') (\<lambda>tb.
     bindr (get_or as_tags [] d ''tags'') (\<lambda>tg.
     bindr (get_or as_str ''manual'' d ''source'') (\<lambda>src.
     bindr (get_opt as_int d ''priority'') (\<lambda>pr.
     bindr (get_opt as_exec d ''executor'') (\<lambda>ex.
     bindr (get_or as_str ''default'' d ''queue'') (\<lambda>q.
     Inr \<lparr>task_id = tid, func_name = fn, status = st, args = [], kwargs = [],
          created_at = cr, start_time = sta, end_time = en, retries_used = ru, error = er,
          logs = lg, stacktrace = tb, idempotency_key = None, tags = tg,
          encrypted_payload = None, source = src, priority = pr, executor = ex,
          queue = q\<rparr>)))))))))))))))"

section \<open>One-off schedules and the audit log\<close>

record scheduled_once =
  so_run_key :: string
  so_func_name :: string
  so_fire_at :: datetime
  so_args :: pyargs
  so_kwargs :: pykwargs
  so_encrypted_payload :: "string option"
  so_queue :: string
  so_priority :: "int option"
  so_idempotency_key :: "string option"
  so_tags :: "(string, string) dict"
  so_created_at :: datetime

definition so_to_dict :: "scheduled_once \<Rightarrow> (string, pyval) dict" where
  "so_to_dict e =
     [(''run_key'', VStr (so_run_key e)),
      (''func_name'', VStr (so_func_name e)),
      (''fire_at'', opt_val VStamp (iso_utc (Some (so_fire_at e)))),
      (''queue'', VStr (so_queue e)),
      (''priority'', opt_val VInt (so_priority e)),
      (''tags'', VDict (map (\<lambda>(k, v). (k, VStr v)) (so_tags e))),
      (''created_at'', opt_val VStamp (iso_utc (Some (so_created_at e))))]"

record audit_entry =
  au_entry_id :: string
  au_action :: string
  au_task_id :: string
  au_actor :: string
  au_timestamp :: datetime
  au_detail :: "(string, pyval) dict"

definition au_to_dict :: "audit_entry \<Rightarrow> (string, pyval) dict" where
  "au_to_dict e =
     [(''entry_id'', VStr (au_entry_id e)),
      (''action'', VStr (au_action e)),
      (''task_id'', VStr (au_task_id e)),
      (''actor'', VStr (au_actor e)),
      (''timestamp'', opt_val VStamp (iso_utc (Some (au_timestamp e)))),
      (''detail'', VDict (au_detail e))]"

section \<open>Round trip through the REST form\<close>

text \<open>
  What a peer reads back: the record with its call arguments, encrypted payload and
  idempotency key dropped and every timestamp made explicitly UTC when it was naive.
\<close>

definition display_record :: "task_record \<Rightarrow> task_record" where
  "display_record r =
     r\<lparr>args := [], kwargs := [], encrypted_payload := None, idempotency_key := None,
       created_at := as_utc_aware (created_at r),
       start_time := map_option as_utc_aware (start_time r),
       end_time := map_option as_utc_aware (end_time r)\<rparr>"

definition times_ok :: "task_record \<Rightarrow> bool" where
  "times_ok r \<longleftrightarrow>
     dt_ok (created_at r) \<and> pred_option dt_ok (start_time r) \<and> pred_option dt_ok (end_time r)"

lemma dt_ok_as_utc_aware: "dt_ok d \<Longrightarrow> dt_ok (as_utc_aware d)"
  by (auto simp: dt_ok_def as_utc_aware_def replace_tz_def split: option.splits)

lemma as_stamp_iso: "dt_ok d \<Longrightarrow> as_stamp (VStamp (isoformat (as_utc_aware d))) = Inr (as_utc_aware d)"
  by (simp add: fromisoformat_isoformat dt_ok_as_utc_aware)

lemma seqm_Inr: "seqm (map Inr xs) = Inr xs"
  by (induction xs) auto

lemma as_strs_VStr [simp]: "as_strs (VList (map VStr xs)) = Inr xs"
  using seqm_Inr by (simp add: comp_def)

lemma as_tags_VStr [simp]: "as_tags (VDict (map (\<lambda>(k, v). (k, VStr v)) xs)) = Inr xs"
proof -
  have "map (\<lambda>(k, v). case as_str v of Inl e \<Rightarrow> Inl e | Inr s \<Rightarrow> Inr (k, s))
          (map (\<lambda>(k, v). (k, VStr v)) xs) = map Inr xs"
    by (auto simp: split_beta)
  then show ?thesis by (simp only: as_tags.simps seqm_Inr)
qed

lemma as_exec_name [simp]: "as_exec (VStr (exec_name k)) = Inr k"
  by (cases k) simp_all

lemma dict_fields [simp]:
  "dget (to_dict r) ''task_id'' = Some (VStr (task_id r))"
  "dget (to_dict r) ''func_name'' = Some (VStr (func_name r))"
  "dget (to_dict r) ''status'' = Some (VStr (status_value (status r)))"
  "dget (to_dict r) ''created_at'' = Some (opt_val VStamp (iso_utc (Some (created_at r))))"
  "dget (to_dict r) ''start_time'' = Some (opt_val VStamp (iso_utc (start_time r)))"
  "dget (to_dict r) ''end_time'' = Some (opt_val VStamp (iso_utc (end_time r)))"
  "dget (to_dict r) ''retries_used'' = Some (VInt (retries_used r))"
  "dget (to_dict r) ''error'' = Some (opt_val VStr (error r))"
  "dget (to_dict r) ''logs'' = Some (VList (map VStr (logs r)))"
  "dget (to_dict r) ''stacktrace'' = Some (opt_val VStr (stacktrace r))"
  "dget (to_dict r) ''tags'' = Some (VDict (map (\<lambda>(k, v). (k, VStr v)) (tags r)))"
  "dget (to_dict r) ''source'' = Some (VStr (source r))"
  "dget (to_dict r) ''priority'' = Some (opt_val VInt (priority r))"
  "dget (to_dict r) ''executor'' = Some (opt_val (\<lambda>k. VStr (exec_name k)) (executor r))"
  "dget (to_dict r) ''queue'' = Some (VStr (queue r))"
  by (simp_all add: to_dict_def)

lemma get_opt_val:
  "dget d k = Some (opt_val c x) \<Longrightarrow> (\<And>v. x = Some v \<Longrightarrow> f (c v) = Inr (g v)) \<Longrightarrow>
   (\<And>v. c v \<noteq> VNone) \<Longrightarrow> get_opt f d k = Inr (map_option g x)"
  by (cases x) (auto simp: get_opt_def opt_val_def)

lemma get_opt_stamp:
  assumes "dget d k = Some (opt_val VStamp (iso_utc x))" and "pred_option dt_ok x"
  shows "get_opt as_stamp d k = Inr (map_option as_utc_aware x)"
proof (cases x)
  case None
  then show ?thesis using assms by (simp add: get_opt_def opt_val_def iso_utc_def)
next
  case (Some t)
  then show ?thesis
    using assms as_stamp_iso [of t] by (simp add: get_opt_def opt_val_def iso_utc_def)
qed

lemma from_dict_to_dict:
  assumes "times_ok r"
  shows "from_dict (to_dict r) = Inr (display_record r)"
proof -
  have t: "get_opt as_stamp (to_dict r) ''start_time'' = Inr (map_option as_utc_aware (start_time r))"
       "get_opt as_stamp (to_dict r) ''end_time'' = Inr (map_option as_utc_aware (end_time r))"
    using assms by (auto intro!: get_opt_stamp simp: times_ok_def)
  have s: "get_opt as_str (to_dict r) ''error'' = Inr (map_option id (error r))"
          "get_opt as_str (to_dict r) ''stacktrace'' = Inr (map_option id (stacktrace r))"
          "get_opt as_int (to_dict r) ''priority'' = Inr (map_option id (priority r))"
          "get_opt as_exec (to_dict r) ''executor'' = Inr (map_option id (executor r))"
    by (rule get_opt_val, rule dict_fields, simp_all del: as_exec.simps)+
  have c: "bindr (item (to_dict r) ''created_at'') as_stamp = Inr (as_utc_aware (created_at r))"
    using assms as_stamp_iso [of "created_at r"]
    by (simp add: item_def iso_utc_def opt_val_def times_ok_def)
  show ?thesis
    unfolding from_dict_def t s c
    by (simp add: item_def get_or_def display_record_def option.map_id
             del: as_strs.simps as_tags.simps)
qed

end
