(* ===== verification/Registry.thy ===== *)
theory Registry
  imports Models
begin

text \<open>
  \<^verbatim>\<open>src/fastapi_taskflow/registry.py\<close>: decorated functions and their configuration, looked up
  by identity at enqueue time and by name when only the name was persisted. A callable is its
  identity (\<open>id(func)\<close>), its \<open>__name__\<close>, its \<open>__qualname__\<close> and whether it is a coroutine
  function; the two dictionaries are kept as the code keeps them.
\<close>

record pyfunc =
  fn_id :: nat
  fn_name :: string
  fn_qualname :: string
  fn_coro :: bool

record registry =
  rg_by_id :: "(nat, task_config) dict"
  rg_by_name :: "(string, pyfunc) dict"

definition registry_init :: registry where
  "registry_init = \<lparr>rg_by_id = [], rg_by_name = []\<rparr>"

text \<open>\<open>a or b\<close> on optional strings: the empty string is falsy.\<close>

definition or_str :: "string option \<Rightarrow> string \<Rightarrow> string" where
  "or_str a b = (case a of None \<Rightarrow> b | Some s \<Rightarrow> if s = [] then b else s)"

definition register :: "pyfunc \<Rightarrow> task_config \<Rightarrow> registry \<Rightarrow> registry" where
  "register f c rg =
     rg\<lparr>rg_by_id := dset (fn_id f) c (rg_by_id rg),
        rg_by_name := dset (or_str (tc_name c) (fn_name f)) f (rg_by_name rg)\<rparr>"

definition get_config :: "registry \<Rightarrow> pyfunc \<Rightarrow> task_config option" where
  "get_config rg f = dget (rg_by_id rg) (fn_id f)"

definition get_by_name :: "registry \<Rightarrow> string \<Rightarrow> (pyfunc \<times> task_config) option" where
  "get_by_name rg n =
     (case dget (rg_by_name rg) n of
        None \<Rightarrow> None
      | Some f \<Rightarrow> (case dget (rg_by_id rg) (fn_id f) of None \<Rightarrow> None | Some c \<Rightarrow> Some (f, c)))"

definition is_registered :: "registry \<Rightarrow> pyfunc \<Rightarrow> bool" where
  "is_registered rg f \<longleftrightarrow> fn_id f \<in> set (dkeys (rg_by_id rg))"

text \<open>Every name resolves: the two lookup strategies are kept in sync.\<close>

definition registry_wf :: "registry \<Rightarrow> bool" where
  "registry_wf rg \<longleftrightarrow>
     dwf (rg_by_id rg) \<and> dwf (rg_by_name rg)
     \<and> (\<forall>f \<in> set (dvals (rg_by_name rg)). is_registered rg f)"

lemma set_dvals_dset: "set (dvals (dset k v d)) \<subseteq> insert v (set (dvals d))"
  by (induction d) auto

lemma registry_wf_init: "registry_wf registry_init"
  by (simp add: registry_wf_def registry_init_def)

lemma is_registered_register:
  "is_registered (register f c rg) g \<longleftrightarrow> fn_id g = fn_id f \<or> is_registered rg g"
  by (auto simp: is_registered_def register_def dom_update simp flip: dom_map_of_conv_image_fst
           split: if_splits)

lemma registry_wf_register:
  assumes "registry_wf rg"
  shows "registry_wf (register f c rg)"
proof -
  have "is_registered (register f c rg) g" if "g \<in> set (dvals (rg_by_name (register f c rg)))" for g
  proof -
    have "g \<in> insert f (set (dvals (rg_by_name rg)))"
      using that set_dvals_dset [of "or_str (tc_name c) (fn_name f)" f "rg_by_name rg"]
      by (simp add: register_def subset_iff)
    then show ?thesis using assms by (auto simp: is_registered_register registry_wf_def)
  qed
  moreover have "dwf (rg_by_id (register f c rg))" "dwf (rg_by_name (register f c rg))"
    using assms by (simp_all add: register_def registry_wf_def)
  ultimately show ?thesis by (simp add: registry_wf_def)
qed

lemma get_by_name_wf:
  assumes "registry_wf rg" and "n \<in> set (dkeys (rg_by_name rg))"
  shows "\<exists>f c. get_by_name rg n = Some (f, c) \<and> get_config rg f = Some c"
proof -
  from assms(2) obtain f where f: "dget (rg_by_name rg) n = Some f"
    by (metis dget_None_iff option.exhaust)
  then have "f \<in> set (dvals (rg_by_name rg))" by (force dest: map_of_SomeD)
  then have "is_registered rg f" using assms(1) unfolding registry_wf_def by blast
  then obtain c where "dget (rg_by_id rg) (fn_id f) = Some c"
    unfolding is_registered_def by (metis dget_None_iff option.exhaust)
  then show ?thesis using f by (simp add: get_by_name_def get_config_def)
qed

lemma get_by_name_register [simp]:
  "get_by_name (register f c rg) (or_str (tc_name c) (fn_name f)) = Some (f, c)"
  by (simp add: get_by_name_def register_def)

lemma get_config_register [simp]: "get_config (register f c rg) f = Some c"
  by (simp add: get_config_def register_def)

end
