(* ===== verification/Store.thy ===== *)
theory Store
  imports Registry
begin

text \<open>
  \<^verbatim>\<open>src/fastapi_taskflow/store.py\<close>: the in-memory table of task records with its server-sent
  event subscribers. Each method runs under the store's lock, so an operation is one state
  transformer. \<open>_notify_change\<close> schedules \<open>_fan_out\<close> on the event loop; \<open>st_scheduled\<close> counts
  the scheduled calls that have not run yet. A subscriber queue holds \<open>Some ''change''\<close> or the
  shutdown sentinel \<open>None\<close>, and has \<open>maxsize=1\<close>.
\<close>

record store =
  st_tasks :: "(string, task_record) dict"
  st_shutting_down :: bool
  st_queues :: "(nat, string option list) dict"
  st_next_queue :: nat
  st_scheduled :: nat

definition store_init :: store where
  "store_init = \<lparr>st_tasks = [], st_shutting_down = False, st_queues = [],
                 st_next_queue = 0, st_scheduled = 0\<rparr>"

section \<open>Subscribers\<close>

definition add_subscriber :: "store \<Rightarrow> nat \<times> store" where
  "add_subscriber s =
     (st_next_queue s,
      s\<lparr>st_queues := dset (st_next_queue s) [] (st_queues s),
        st_next_queue := Suc (st_next_queue s)\<rparr>)"

definition remove_subscriber :: "nat \<Rightarrow> store \<Rightarrow> store" where
  "remove_subscriber q s = s\<lparr>st_queues := dpop q (st_queues s)\<rparr>"

text \<open>\<open>put_nowait\<close> on a queue of size one: the item is dropped when one is waiting.\<close>

definition put_nowait :: "string option \<Rightarrow> string option list \<Rightarrow> string option list" where
  "put_nowait x q = (if length q \<ge> 1 then q else q @ [x])"

definition fan_out :: "store \<Rightarrow> store" where
  "fan_out s =
     s\<lparr>st_queues := map (\<lambda>(k, q). (k, put_nowait (Some ''change'') q)) (st_queues s),
       st_scheduled := st_scheduled s - 1\<rparr>"

definition notify_shutdown :: "store \<Rightarrow> store" where
  "notify_shutdown s =
     s\<lparr>st_shutting_down := True,
       st_queues := map (\<lambda>(k, q). (k, put_nowait None (tl q))) (st_queues s)\<rparr>"

definition notify_change :: "store \<Rightarrow> store" where
  "notify_change s = s\<lparr>st_scheduled := Suc (st_scheduled s)\<rparr>"

section \<open>Mutations\<close>

definition new_record ::
  "string \<Rightarrow> string \<Rightarrow> pyargs \<Rightarrow> pykwargs \<Rightarrow> string option \<Rightarrow> (string, string) dict option
   \<Rightarrow> string option \<Rightarrow> string \<Rightarrow> int option \<Rightarrow> exec_kind option \<Rightarrow> string \<Rightarrow> datetime
   \<Rightarrow> task_record" where
  "new_record tid fn as kw ik tg enc src pr ex q now =
     \<lparr>task_id = tid, func_name = fn, status = PENDING, args = as, kwargs = kw,
      created_at = now, start_time = None, end_time = None, retries_used = 0, error = None,
      logs = [], stacktrace = None, idempotency_key = ik,
      tags = (case tg of None \<Rightarrow> [] | Some t \<Rightarrow> t), encrypted_payload = enc, source = src,
      priority = pr, executor = ex, queue = q\<rparr>"

definition store_create :: "task_record \<Rightarrow> store \<Rightarrow> task_record \<times> store" where
  "store_create r s = (r, notify_change (s\<lparr>st_tasks := dset (task_id r) r (st_tasks s)\<rparr>))"

definition retryable_key :: "task_status \<Rightarrow> bool" where
  "retryable_key st \<longleftrightarrow> st = FAILED \<or> st = INTERRUPTED"

definition find_by_idempotency_key :: "string \<Rightarrow> store \<Rightarrow> task_record option" where
  "find_by_idempotency_key k s =
     find (\<lambda>r. idempotency_key r = Some k \<and> \<not> retryable_key (status r)) (dvals (st_tasks s))"

text \<open>\<open>update(task_id, **fields)\<close>: \<open>f\<close> assigns the fields; \<open>None\<close> when the id is unknown.\<close>

definition store_update ::
  "string \<Rightarrow> (task_record \<Rightarrow> task_record) \<Rightarrow> store \<Rightarrow> task_record option \<times> store" where
  "store_update tid f s =
     (case dget (st_tasks s) tid of
        None \<Rightarrow> (None, s)
      | Some r \<Rightarrow> (Some (f r), notify_change (s\<lparr>st_tasks := dset tid (f r) (st_tasks s)\<rparr>)))"

abbreviation upd :: "string \<Rightarrow> (task_record \<Rightarrow> task_record) \<Rightarrow> store \<Rightarrow> store" where
  "upd tid f s \<equiv> snd (store_update tid f s)"

definition append_log :: "string \<Rightarrow> string \<Rightarrow> store \<Rightarrow> store" where
  "append_log tid msg s =
     (case dget (st_tasks s) tid of
        None \<Rightarrow> s
      | Some r \<Rightarrow> notify_change
                   (s\<lparr>st_tasks := dset tid (r\<lparr>logs := logs r @ [msg]\<rparr>) (st_tasks s)\<rparr>))"

definition restore :: "task_record \<Rightarrow> store \<Rightarrow> store" where
  "restore r s =
     (if task_id r \<in> set (dkeys (st_tasks s)) then s
      else s\<lparr>st_tasks := dset (task_id r) r (st_tasks s)\<rparr>)"

section \<open>Reads and deletion\<close>

definition store_get :: "store \<Rightarrow> string \<Rightarrow> task_record option" where
  "store_get s tid = dget (st_tasks s) tid"

definition store_list :: "store \<Rightarrow> task_record list" where
  "store_list s = dvals (st_tasks s)"

definition store_delete :: "string \<Rightarrow> store \<Rightarrow> bool \<times> store" where
  "store_delete tid s =
     (if tid \<in> set (dkeys (st_tasks s))
      then (True, s\<lparr>st_tasks := dpop tid (st_tasks s)\<rparr>) else (False, s))"

definition terminal :: "task_status \<Rightarrow> bool" where
  "terminal st \<longleftrightarrow> st \<in> {SUCCESS, FAILED, INTERRUPTED, CANCELLED, REJECTED}"

text \<open>The test of \<open>delete_completed_before\<close>: both times are compared with their zone dropped.\<close>

definition expired :: "datetime \<Rightarrow> task_record \<Rightarrow> bool" where
  "expired cutoff r \<longleftrightarrow>
     terminal (status r)
     \<and> (case end_time r of None \<Rightarrow> False
        | Some e \<Rightarrow> dt_wall (replace_tz None e) < dt_wall (replace_tz None cutoff))"

definition delete_completed_before :: "datetime \<Rightarrow> store \<Rightarrow> nat \<times> store" where
  "delete_completed_before cutoff s =
     (let to_remove = map fst (filter (\<lambda>(k, r). expired cutoff r) (st_tasks s))
      in (length to_remove, s\<lparr>st_tasks := fold dpop to_remove (st_tasks s)\<rparr>))"

definition store_clear :: "store \<Rightarrow> store" where
  "store_clear s = s\<lparr>st_tasks := []\<rparr>"

lemmas [store_defs] =
  store_create_def store_update_def append_log_def restore_def store_get_def store_list_def
  store_delete_def store_clear_def notify_change_def notify_shutdown_def fan_out_def
  add_subscriber_def remove_subscriber_def

section \<open>Well-formedness\<close>

text \<open>Ids are unique and every record is filed under its own id.\<close>

definition store_wf :: "store \<Rightarrow> bool" where
  "store_wf s \<longleftrightarrow> dwf (st_tasks s) \<and> (\<forall>(k, r) \<in> set (st_tasks s). task_id r = k)"

lemma store_wf_get: "store_wf s \<Longrightarrow> store_get s k = Some r \<Longrightarrow> task_id r = k"
  by (auto simp: store_wf_def store_get_def dest: map_of_SomeD)

lemma store_wf_mem: "store_wf s \<Longrightarrow> r \<in> set (store_list s) \<longleftrightarrow> store_get s (task_id r) = Some r"
  by (force simp: store_wf_def store_list_def store_get_def dget_mem [symmetric])

lemma wf_dset:
  assumes "dwf d" "\<forall>(k, r) \<in> set d. task_id r = k" "task_id r = k"
  shows "\<forall>(j, r') \<in> set (dset k r d). task_id r' = j"
  using assms(2,3) by (induction d) (auto split: if_splits)

lemma store_wf_init: "store_wf store_init"
  by (simp add: store_wf_def store_init_def)

lemma store_wf_notify [simp]: "store_wf (notify_change s) = store_wf s"
  by (simp add: store_wf_def notify_change_def)

lemma store_wf_set:
  "store_wf s \<Longrightarrow> task_id r = k \<Longrightarrow> store_wf (s\<lparr>st_tasks := dset k r (st_tasks s)\<rparr>)"
  using wf_dset [of "st_tasks s" r k] by (simp add: store_wf_def)

lemma store_wf_create: "store_wf s \<Longrightarrow> store_wf (snd (store_create r s))"
  by (simp add: store_create_def store_wf_set)

lemma store_wf_update:
  assumes "store_wf s" and "\<And>r. task_id (f r) = task_id r"
  shows "store_wf (upd tid f s)"
proof (cases "dget (st_tasks s) tid")
  case (Some r)
  then have "task_id r = tid" using assms(1) store_wf_get by (simp add: store_get_def)
  then show ?thesis using Some assms by (simp add: store_update_def store_wf_set)
qed (simp add: store_update_def assms)

lemma store_wf_append_log: "store_wf s \<Longrightarrow> store_wf (append_log tid m s)"
  using store_wf_get [of s tid]
  by (auto simp: append_log_def store_get_def store_wf_set split: option.splits)

lemma store_wf_restore: "store_wf s \<Longrightarrow> store_wf (restore r s)"
  by (simp add: restore_def store_wf_set)

lemma fold_dpop: "fold dpop ks d = filter (\<lambda>p. fst p \<notin> set ks) d"
proof (induction ks arbitrary: d)
  case (Cons k ks)
  have "fold dpop (k # ks) d = filter (\<lambda>p. fst p \<notin> set ks) (dpop k d)"
    using Cons.IH [of "dpop k d"] by simp
  then show ?case by (simp add: dpop_filter)
qed simp

lemma store_wf_filter:
  "store_wf s \<Longrightarrow> store_wf (s\<lparr>st_tasks := filter P (st_tasks s)\<rparr>)"
  by (auto simp: store_wf_def distinct_map_filter)

lemma store_wf_delete: "store_wf s \<Longrightarrow> store_wf (snd (store_delete tid s))"
  by (simp add: store_delete_def dpop_filter store_wf_filter)

lemma store_wf_delete_before: "store_wf s \<Longrightarrow> store_wf (snd (delete_completed_before c s))"
  by (simp add: delete_completed_before_def Let_def fold_dpop store_wf_filter)

lemma store_wf_clear: "store_wf (store_clear s)"
  by (simp add: store_wf_def store_clear_def)

section \<open>What the operations do\<close>

lemma get_notify [simp]: "store_get (notify_change s) k = store_get s k"
  by (simp add: store_get_def notify_change_def)

lemma get_create [simp]:
  "store_get (snd (store_create r s)) k = (if k = task_id r then Some r else store_get s k)"
  by (simp add: store_create_def) (simp add: store_get_def)

lemma get_update [simp]:
  "store_get (upd tid f s) k = (if k = tid then map_option f (store_get s k) else store_get s k)"
  by (auto simp: store_defs split: option.splits)

lemma fst_store_update [simp]: "fst (store_update tid f s) = map_option f (store_get s tid)"
  by (auto simp: store_defs split: option.splits)

lemma get_append_log [simp]:
  "store_get (append_log tid m s) k =
     (if k = tid then map_option (\<lambda>r. r\<lparr>logs := logs r @ [m]\<rparr>) (store_get s k)
      else store_get s k)"
  by (auto simp: store_defs split: option.splits)

lemma get_restore [simp]:
  "store_get (restore r s) k =
     (if k = task_id r \<and> store_get s k = None then Some r else store_get s k)"
  by (auto simp: store_defs dget_None_iff)

lemma get_delete [simp]:
  "store_get (snd (store_delete tid s)) k = (if k = tid then None else store_get s k)"
  using dget_None_iff [of "st_tasks s" tid] by (auto simp: store_delete_def store_get_def)

lemma fst_store_delete: "fst (store_delete tid s) \<longleftrightarrow> store_get s tid \<noteq> None"
  by (simp add: store_defs dget_None_iff)

lemma shutting_down_frame [frame, simp]:
  "st_shutting_down (upd tid f s) = st_shutting_down s"
  "st_shutting_down (append_log tid m s) = st_shutting_down s"
  "st_shutting_down (snd (store_create r s)) = st_shutting_down s"
  "st_shutting_down (restore r s) = st_shutting_down s"
  by (auto simp: store_defs split: option.splits)

interpretation store_table: keyed_table store_get "\<lambda>r s. snd (store_create r s)"
  "\<lambda>k s. snd (store_delete k s)" task_id
  by unfold_locales simp_all

lemma find_by_key_Some:
  "find_by_idempotency_key k s = Some r \<Longrightarrow>
   r \<in> set (store_list s) \<and> idempotency_key r = Some k \<and> \<not> retryable_key (status r)"
  using nth_mem by (fastforce simp: find_by_idempotency_key_def store_list_def find_Some_iff)

lemma find_by_key_None:
  "find_by_idempotency_key k s = None \<longleftrightarrow>
   (\<forall>r \<in> set (store_list s). idempotency_key r = Some k \<longrightarrow> retryable_key (status r))"
  by (auto simp: find_by_idempotency_key_def store_list_def find_None_iff)

lemma delete_before_tasks:
  assumes "store_wf s"
  shows "st_tasks (snd (delete_completed_before c s))
           = filter (\<lambda>(k, r). \<not> expired c r) (st_tasks s)"
proof -
  have "(fst p \<notin> fst ` {q \<in> set (st_tasks s). expired c (snd q)}) = (\<not> expired c (snd p))"
    if "p \<in> set (st_tasks s)" for p
    using that assms by (auto simp: store_wf_def dest: map_of_is_SomeI)
      (metis map_of_is_SomeI option.inject prod.collapse)+
  then show ?thesis
    by (auto simp: delete_completed_before_def Let_def fold_dpop case_prod_unfold
             intro!: filter_cong)
qed

lemma delete_before_get:
  assumes "store_wf s"
  shows "store_get (snd (delete_completed_before c s)) k =
           (case store_get s k of
              None \<Rightarrow> None | Some r \<Rightarrow> if expired c r then None else Some r)"
proof -
  let ?s' = "snd (delete_completed_before c s)"
  have wf: "dwf (st_tasks s)" "dwf (st_tasks ?s')"
    using assms store_wf_delete_before by (auto simp: store_wf_def)
  have eq: "store_get ?s' k = Some r \<longleftrightarrow> store_get s k = Some r \<and> \<not> expired c r" for r
    using dget_mem [OF wf(2), of k r] dget_mem [OF wf(1), of k r]
    by (auto simp: store_get_def delete_before_tasks [OF assms])
  show ?thesis
  proof (cases "store_get s k")
    case None
    then have "store_get ?s' k = None" using eq by (metis not_None_eq option.discI)
    then show ?thesis using None by simp
  next
    case (Some r)
    have "store_get ?s' k = (if expired c r then None else Some r)"
      using eq Some by (metis not_None_eq option.inject)
    then show ?thesis using Some by simp
  qed
qed

lemma delete_before_count:
  "fst (delete_completed_before c s) = length (filter (expired c) (store_list s))"
  by (simp add: delete_completed_before_def Let_def store_list_def filter_map comp_def
                case_prod_unfold)

section \<open>Notifications\<close>

text \<open>No subscriber queue ever exceeds its \<open>maxsize\<close>.\<close>

definition queues_ok :: "store \<Rightarrow> bool" where
  "queues_ok s \<longleftrightarrow> (\<forall>q \<in> set (dvals (st_queues s)). length q \<le> 1)"

lemma put_nowait_le: "length q \<le> 1 \<Longrightarrow> length (put_nowait x q) \<le> 1"
  by (cases q) (auto simp: put_nowait_def)

lemma put_nowait_tl_le: "length q \<le> 1 \<Longrightarrow> length (put_nowait x (tl q)) \<le> 1"
  by (auto simp: put_nowait_def)

lemma queues_ok_fan_out: "queues_ok s \<Longrightarrow> queues_ok (fan_out s)"
  unfolding queues_ok_def fan_out_def using put_nowait_le by fastforce

lemma queues_ok_shutdown: "queues_ok s \<Longrightarrow> queues_ok (notify_shutdown s)"
  unfolding queues_ok_def notify_shutdown_def using put_nowait_tl_le by fastforce

lemma queues_ok_add: "queues_ok s \<Longrightarrow> queues_ok (snd (add_subscriber s))"
  using set_dvals_dset [of "st_next_queue s" "[]" "st_queues s"]
  by (auto simp: queues_ok_def add_subscriber_def simp del: set_map)

lemma shutdown_sentinel:
  assumes "queues_ok s" and "q \<in> set (dvals (st_queues (notify_shutdown s)))"
  shows "q = [None]"
proof -
  obtain k q0 where q0: "(k, q0) \<in> set (st_queues s)" "q = put_nowait None (tl q0)"
    using assms(2) by (auto simp: notify_shutdown_def)
  then have "length q0 \<le> 1" using assms(1) by (force simp: queues_ok_def)
  then have "tl q0 = []" by (cases q0) auto
  then show ?thesis using q0 by (simp add: put_nowait_def)
qed

lemma fan_out_keeps_sentinel:
  "\<forall>q \<in> set (dvals (st_queues s)). q = [None] \<Longrightarrow>
   \<forall>q \<in> set (dvals (st_queues ((fan_out ^^ n) s))). q = [None]"
  by (induction n) (auto simp: fan_out_def put_nowait_def)

end
