(* ===== verification/Sqlite_Backend.thy ===== *)
theory Sqlite_Backend
  imports Store "HOL-Library.Product_Lexorder"
begin

text \<open>
  \<^verbatim>\<open>src/fastapi_taskflow/backends/sqlite.py\<close> and the contract of
  \<^verbatim>\<open>src/fastapi_taskflow/backends/base.py\<close> it implements. A table is a dictionary from its primary
  key to a row; every public method is one transaction, so one state transformer.
  \<open>INSERT OR REPLACE\<close> deletes the old row and appends the new one. Text columns that hold a
  timestamp keep its ISO text; the status column keeps the member whose value it holds. The
  lock table's \<open>expires_at\<close> is the text of the naive UTC time kept here.
\<close>

record hist_row =
  hr_task_id :: string
  hr_func_name :: string
  hr_status :: task_status
  hr_created_at :: isotext
  hr_start_time :: "isotext option"
  hr_end_time :: "isotext option"
  hr_duration :: "rat option"
  hr_retries_used :: int
  hr_error :: "string option"
  hr_snapshotted_at :: isotext
  hr_args_json :: "json list"
  hr_kwargs_json :: "(string \<times> json) list"
  hr_logs_json :: "string list"
  hr_stacktrace :: "string option"
  hr_encrypted_payload :: "string option"
  hr_source :: string
  hr_priority :: "int option"
  hr_executor :: "exec_kind option"
  hr_queue :: string

record pend_row =
  pr_task_id :: string
  pr_func_name :: string
  pr_created_at :: isotext
  pr_retries_used :: int
  pr_args_json :: "json list"
  pr_kwargs_json :: "(string \<times> json) list"
  pr_encrypted_payload :: "string option"
  pr_queue :: string

record sched_row =
  sr_run_key :: string
  sr_func_name :: string
  sr_fire_at :: isotext
  sr_created_at :: isotext
  sr_args_json :: "json list"
  sr_kwargs_json :: "(string \<times> json) list"
  sr_encrypted_payload :: "string option"
  sr_queue :: string
  sr_priority :: "int option"
  sr_idempotency_key :: "string option"
  sr_tags :: "(string, string) dict"

record sqlite =
  sq_history :: "(string, hist_row) dict"
  sq_pending :: "(string, pend_row) dict"
  sq_idem :: "(string, string) dict"
  sq_locks :: "(string, int) dict"
  sq_metadata :: "(string, json) dict"  \<comment> \<open>every value stored is JSON text\<close>
  sq_scheduled :: "(string, sched_row) dict"

definition sqlite_init :: sqlite where
  "sqlite_init = \<lparr>sq_history = [], sq_pending = [], sq_idem = [], sq_locks = [],
                  sq_metadata = [], sq_scheduled = []\<rparr>"

definition replace_row :: "'k \<Rightarrow> 'r \<Rightarrow> ('k, 'r) dict \<Rightarrow> ('k, 'r) dict" where
  "replace_row k r t = dpop k t @ [(k, r)]"

lemma dget_replace_row [simp]:
  "dget (replace_row k r t) j = (if j = k then Some r else dget t j)"
  by (auto simp: replace_row_def map_add_def split: option.splits)

lemma dwf_replace_row [simp]: "dwf t \<Longrightarrow> dwf (replace_row k r t)"
  by (auto simp: replace_row_def dpop_filter distinct_map_filter)

section \<open>History\<close>

text \<open>\<open>t.encrypted_payload.decode() if t.encrypted_payload else None\<close>: empty bytes are falsy.\<close>

definition nonempty :: "string option \<Rightarrow> string option" where
  "nonempty s = (case s of None \<Rightarrow> None | Some x \<Rightarrow> if x = [] then None else Some x)"

definition record_to_row :: "isotext \<Rightarrow> task_record \<Rightarrow> hist_row" where
  "record_to_row now t =
     \<lparr>hr_task_id = task_id t, hr_func_name = func_name t, hr_status = status t,
      hr_created_at = isoformat (created_at t),
      hr_start_time = map_option isoformat (start_time t),
      hr_end_time = map_option isoformat (end_time t),
      hr_duration = duration t, hr_retries_used = retries_used t, hr_error = error t,
      hr_snapshotted_at = now, hr_args_json = args_json (args t),
      hr_kwargs_json = kwargs_json (kwargs t), hr_logs_json = logs t,
      hr_stacktrace = stacktrace t, hr_encrypted_payload = nonempty (encrypted_payload t),
      hr_source = source t, hr_priority = priority t, hr_executor = executor t,
      hr_queue = queue t\<rparr>"

definition or_default :: "string \<Rightarrow> string \<Rightarrow> string" where
  "or_default s d = (if s = [] then d else s)"

definition row_to_record :: "hist_row \<Rightarrow> task_record" where
  "row_to_record d =
     \<lparr>task_id = hr_task_id d, func_name = hr_func_name d, status = hr_status d,
      args = json_args (hr_args_json d), kwargs = json_kwargs (hr_kwargs_json d),
      created_at = fromisoformat (hr_created_at d),
      start_time = map_option fromisoformat (hr_start_time d),
      end_time = map_option fromisoformat (hr_end_time d),
      retries_used = hr_retries_used d, error = hr_error d, logs = hr_logs_json d,
      stacktrace = hr_stacktrace d, idempotency_key = None, tags = [],
      encrypted_payload = nonempty (hr_encrypted_payload d),
      source = or_default (hr_source d) ''manual'', priority = hr_priority d,
      executor = hr_executor d, queue = or_default (hr_queue d) ''default''\<rparr>"

definition put_row :: "hist_row \<Rightarrow> sqlite \<Rightarrow> sqlite" where
  "put_row r db = db\<lparr>sq_history := replace_row (hr_task_id r) r (sq_history db)\<rparr>"

definition sq_save :: "int \<Rightarrow> task_record list \<Rightarrow> sqlite \<Rightarrow> nat \<times> sqlite" where
  "sq_save now records db =
     (length records,
      fold put_row (map (record_to_row (isoformat (naive_dt now))) records) db)"

definition sq_load :: "sqlite \<Rightarrow> task_record list" where
  "sq_load db = map row_to_record (dvals (sq_history db))"

definition sq_get_row :: "sqlite \<Rightarrow> string \<Rightarrow> hist_row option" where
  "sq_get_row db k = dget (sq_history db) k"

definition remove_row :: "string \<Rightarrow> sqlite \<Rightarrow> sqlite" where
  "remove_row k db = db\<lparr>sq_history := dpop k (sq_history db)\<rparr>"

definition sq_delete_records :: "string list \<Rightarrow> sqlite \<Rightarrow> nat \<times> sqlite" where
  "sq_delete_records ids db =
     (if ids = [] then (0, db)
      else (length (filter (\<lambda>(k, r). k \<in> set ids) (sq_history db)),
            db\<lparr>sq_history := filter (\<lambda>(k, r). k \<notin> set ids) (sq_history db)\<rparr>))"

text \<open>\<open>end_time IS NOT NULL AND end_time < ? AND status IN ('success','failed','interrupted')\<close>.\<close>

definition row_expired :: "isotext \<Rightarrow> hist_row \<Rightarrow> bool" where
  "row_expired cutoff r \<longleftrightarrow>
     (case hr_end_time r of None \<Rightarrow> False | Some e \<Rightarrow> iso_less e cutoff)
     \<and> hr_status r \<in> {SUCCESS, FAILED, INTERRUPTED}"

definition sq_delete_before :: "datetime \<Rightarrow> sqlite \<Rightarrow> nat \<times> sqlite" where
  "sq_delete_before cutoff db =
     (length (filter (\<lambda>(k, r). row_expired (isoformat cutoff) r) (sq_history db)),
      db\<lparr>sq_history := filter (\<lambda>(k, r). \<not> row_expired (isoformat cutoff) r) (sq_history db)\<rparr>)"

definition sq_completed_ids :: "string list \<Rightarrow> sqlite \<Rightarrow> string list" where
  "sq_completed_ids ids db =
     (if ids = [] then []
      else map fst (filter (\<lambda>(k, r). k \<in> set ids \<and> hr_status r = SUCCESS) (sq_history db)))"

definition sq_query ::
  "string option \<Rightarrow> string option \<Rightarrow> nat \<Rightarrow> sqlite \<Rightarrow> hist_row list" where
  "sq_query st fn limit db =
     take limit (rev (sort_key (\<lambda>r. (iso_secs (hr_snapshotted_at r), iso_suffix (hr_snapshotted_at r)))
       (filter (\<lambda>r. (case nonempty st of None \<Rightarrow> True | Some s \<Rightarrow> status_value (hr_status r) = s)
                     \<and> (case nonempty fn of None \<Rightarrow> True | Some f \<Rightarrow> hr_func_name r = f))
          (dvals (sq_history db)))))"

section \<open>Tasks to requeue\<close>

definition record_to_pend :: "task_record \<Rightarrow> pend_row" where
  "record_to_pend t =
     \<lparr>pr_task_id = task_id t, pr_func_name = func_name t,
      pr_created_at = isoformat (created_at t), pr_retries_used = retries_used t,
      pr_args_json = args_json (args t), pr_kwargs_json = kwargs_json (kwargs t),
      pr_encrypted_payload = nonempty (encrypted_payload t), pr_queue = queue t\<rparr>"

definition pend_to_record :: "pend_row \<Rightarrow> task_record" where
  "pend_to_record d =
     \<lparr>task_id = pr_task_id d, func_name = pr_func_name d, status = PENDING,
      args = json_args (pr_args_json d), kwargs = json_kwargs (pr_kwargs_json d),
      created_at = fromisoformat (pr_created_at d), start_time = None, end_time = None,
      retries_used = pr_retries_used d, error = None, logs = [], stacktrace = None,
      idempotency_key = None, tags = [],
      encrypted_payload = nonempty (pr_encrypted_payload d), source = ''manual'',
      priority = None, executor = None, queue = or_default (pr_queue d) ''default''\<rparr>"

definition sq_save_pending :: "task_record list \<Rightarrow> sqlite \<Rightarrow> nat \<times> sqlite" where
  "sq_save_pending records db =
     (length records,
      db\<lparr>sq_pending := fold (\<lambda>r. replace_row (pr_task_id r) r) (map record_to_pend records) []\<rparr>)"

definition sq_load_pending :: "sqlite \<Rightarrow> task_record list" where
  "sq_load_pending db = map pend_to_record (dvals (sq_pending db))"

definition sq_clear_pending :: "sqlite \<Rightarrow> sqlite" where
  "sq_clear_pending db = db\<lparr>sq_pending := []\<rparr>"

text \<open>\<open>DELETE ... WHERE task_id = ?\<close>, then \<open>rowcount == 1\<close>.\<close>

definition delete_row :: "'k \<Rightarrow> ('k, 'r) dict \<Rightarrow> nat \<times> ('k, 'r) dict" where
  "delete_row k t = (length (filter (\<lambda>(j, r). j = k) t), filter (\<lambda>(j, r). j \<noteq> k) t)"

definition sq_claim_pending :: "string \<Rightarrow> sqlite \<Rightarrow> bool \<times> sqlite" where
  "sq_claim_pending tid db =
     (let (n, t) = delete_row tid (sq_pending db) in (n = 1, db\<lparr>sq_pending := t\<rparr>))"

section \<open>One-off schedules\<close>

definition sched_to_row :: "scheduled_once \<Rightarrow> sched_row" where
  "sched_to_row e =
     \<lparr>sr_run_key = so_run_key e, sr_func_name = so_func_name e,
      sr_fire_at = isoformat (so_fire_at e), sr_created_at = isoformat (so_created_at e),
      sr_args_json = args_json (so_args e), sr_kwargs_json = kwargs_json (so_kwargs e),
      sr_encrypted_payload = nonempty (so_encrypted_payload e), sr_queue = so_queue e,
      sr_priority = so_priority e, sr_idempotency_key = so_idempotency_key e,
      sr_tags = so_tags e\<rparr>"

definition row_to_scheduled :: "sched_row \<Rightarrow> scheduled_once" where
  "row_to_scheduled d =
     \<lparr>so_run_key = sr_run_key d, so_func_name = sr_func_name d,
      so_fire_at = fromisoformat (sr_fire_at d), so_args = json_args (sr_args_json d),
      so_kwargs = json_kwargs (sr_kwargs_json d),
      so_encrypted_payload = nonempty (sr_encrypted_payload d),
      so_queue = or_default (sr_queue d) ''default'', so_priority = sr_priority d,
      so_idempotency_key = sr_idempotency_key d, so_tags = sr_tags d,
      so_created_at = fromisoformat (sr_created_at d)\<rparr>"

definition sq_save_scheduled :: "scheduled_once \<Rightarrow> sqlite \<Rightarrow> sqlite" where
  "sq_save_scheduled e db =
     db\<lparr>sq_scheduled := replace_row (so_run_key e) (sched_to_row e) (sq_scheduled db)\<rparr>"

definition sq_load_due :: "datetime \<Rightarrow> sqlite \<Rightarrow> scheduled_once list" where
  "sq_load_due before db =
     map row_to_scheduled
       (sort_key (\<lambda>r. (iso_secs (sr_fire_at r), iso_suffix (sr_fire_at r)))
          (filter (\<lambda>r. iso_le (sr_fire_at r) (isoformat before)) (dvals (sq_scheduled db))))"

definition sq_delete_scheduled :: "string \<Rightarrow> sqlite \<Rightarrow> bool \<times> sqlite" where
  "sq_delete_scheduled k db =
     (let (n, t) = delete_row k (sq_scheduled db) in (n = 1, db\<lparr>sq_scheduled := t\<rparr>))"

text \<open>For the SQL backends the delete is the claim.\<close>

definition sq_claim_scheduled :: "string \<Rightarrow> sqlite \<Rightarrow> bool \<times> sqlite" where
  "sq_claim_scheduled k db = sq_delete_scheduled k db"

section \<open>Idempotency keys, locks, metadata\<close>

definition sq_check_idempotency_key :: "sqlite \<Rightarrow> string \<Rightarrow> string option" where
  "sq_check_idempotency_key db k = dget (sq_idem db) k"

text \<open>\<open>INSERT OR IGNORE\<close>.\<close>

definition insert_or_ignore :: "'k \<Rightarrow> 'v \<Rightarrow> ('k, 'v) dict \<Rightarrow> bool \<times> ('k, 'v) dict" where
  "insert_or_ignore k v t =
     (if k \<in> set (dkeys t) then (False, t) else (True, t @ [(k, v)]))"

definition sq_record_idempotency_key :: "string \<Rightarrow> string \<Rightarrow> sqlite \<Rightarrow> sqlite" where
  "sq_record_idempotency_key k tid db =
     db\<lparr>sq_idem := snd (insert_or_ignore k tid (sq_idem db))\<rparr>"

definition sq_acquire_schedule_lock :: "string \<Rightarrow> int \<Rightarrow> int \<Rightarrow> sqlite \<Rightarrow> bool \<times> sqlite" where
  "sq_acquire_schedule_lock k ttl now db =
     (let t = filter (\<lambda>(j, e). \<not> (j = k \<and> iso_le (isoformat (naive_dt e)) (isoformat (naive_dt now))))
                (sq_locks db);
          (ok, t') = insert_or_ignore k (now + ttl * 1000000) t
      in (ok, db\<lparr>sq_locks := t'\<rparr>))"

definition sq_save_metadata :: "string \<Rightarrow> json \<Rightarrow> sqlite \<Rightarrow> sqlite" where
  "sq_save_metadata k v db = db\<lparr>sq_metadata := replace_row k v (sq_metadata db)\<rparr>"

definition sq_load_metadata :: "sqlite \<Rightarrow> string \<Rightarrow> json option" where
  "sq_load_metadata db k = dget (sq_metadata db) k"

section \<open>Primary keys\<close>

text \<open>Every key is unique and every row is filed under its own key, as the schema enforces.\<close>

definition sqlite_wf :: "sqlite \<Rightarrow> bool" where
  "sqlite_wf db \<longleftrightarrow>
     dwf (sq_history db) \<and> (\<forall>(k, r) \<in> set (sq_history db). hr_task_id r = k)
     \<and> dwf (sq_pending db) \<and> (\<forall>(k, r) \<in> set (sq_pending db). pr_task_id r = k)
     \<and> dwf (sq_idem db) \<and> dwf (sq_locks db) \<and> dwf (sq_metadata db)
     \<and> dwf (sq_scheduled db) \<and> (\<forall>(k, r) \<in> set (sq_scheduled db). sr_run_key r = k)"

lemma dwf_filter: "dwf t \<Longrightarrow> dwf (filter P t)"
  by (rule distinct_map_filter)

lemma set_replace_row: "set (replace_row k r t) = insert (k, r) {p \<in> set t. fst p \<noteq> k}"
  by (auto simp: replace_row_def dpop_filter)

lemma dwf_insert_or_ignore: "dwf t \<Longrightarrow> dwf (snd (insert_or_ignore k v t))"
  by (auto simp: insert_or_ignore_def)

lemma delete_row_absent: "k \<notin> set (dkeys t) \<Longrightarrow> fst (delete_row k t) = 0"
  by (induction t) (auto simp: delete_row_def)

lemma delete_row_Cons:
  "fst (delete_row k (p # t)) = (if fst p = k then Suc (fst (delete_row k t)) else fst (delete_row k t))"
  by (simp add: delete_row_def case_prod_beta)

lemma delete_row_count: "dwf t \<Longrightarrow> fst (delete_row k t) = Suc 0 \<longleftrightarrow> k \<in> set (dkeys t)"
proof (induction t)
  case (Cons p t)
  show ?case
  proof (cases "fst p = k")
    case True
    then have "fst (delete_row k t) = 0" using Cons.prems by (intro delete_row_absent) auto
    then show ?thesis using True by (simp add: delete_row_Cons)
  next
    case False
    then show ?thesis using Cons by (simp add: delete_row_Cons)
  qed
qed (simp add: delete_row_def)

lemma delete_row_keys: "dkeys (snd (delete_row k t)) = filter (\<lambda>j. j \<noteq> k) (dkeys t)"
  by (induction t) (auto simp: delete_row_def)

lemma dget_delete_row: "dget (snd (delete_row k t)) j = (if j = k then None else dget t j)"
  by (induction t) (auto simp: delete_row_def)

lemma sqlite_wf_init: "sqlite_wf sqlite_init"
  by (simp add: sqlite_wf_def sqlite_init_def)

lemma sqlite_wf_put_row: "sqlite_wf db \<Longrightarrow> sqlite_wf (put_row r db)"
  by (auto simp: sqlite_wf_def put_row_def set_replace_row)

lemma sqlite_wf_fold_put: "sqlite_wf db \<Longrightarrow> sqlite_wf (fold put_row rs db)"
  by (induction rs arbitrary: db) (simp_all add: sqlite_wf_put_row)

lemma sqlite_wf_save: "sqlite_wf db \<Longrightarrow> sqlite_wf (snd (sq_save now rs db))"
  by (simp add: sq_save_def sqlite_wf_fold_put)

definition rows_ok :: "('r \<Rightarrow> 'k) \<Rightarrow> ('k, 'r) dict \<Rightarrow> bool" where
  "rows_ok key t \<longleftrightarrow> dwf t \<and> (\<forall>(k, r) \<in> set t. key r = k)"

lemma rows_ok_replace: "rows_ok key t \<Longrightarrow> rows_ok key (replace_row (key r) r t)"
  by (auto simp: rows_ok_def set_replace_row)

lemma rows_ok_bulk: "rows_ok key t \<Longrightarrow> rows_ok key (fold (\<lambda>r. replace_row (key r) r) rs t)"
  by (induction rs arbitrary: t) (simp_all add: rows_ok_replace)

lemma sqlite_wf_save_pending: "sqlite_wf db \<Longrightarrow> sqlite_wf (snd (sq_save_pending rs db))"
  using rows_ok_bulk [of pr_task_id "[]" "map record_to_pend rs"]
  by (simp add: sqlite_wf_def sq_save_pending_def rows_ok_def)

lemma sqlite_wf_rest:
  assumes "sqlite_wf db"
  shows "sqlite_wf (snd (sq_delete_records ids db))" "sqlite_wf (snd (sq_delete_before c db))"
    "sqlite_wf (sq_clear_pending db)" "sqlite_wf (snd (sq_claim_pending tid db))"
    "sqlite_wf (sq_save_scheduled e db)" "sqlite_wf (snd (sq_delete_scheduled k db))"
    "sqlite_wf (sq_record_idempotency_key k tid db)"
    "sqlite_wf (snd (sq_acquire_schedule_lock k ttl now db))"
    "sqlite_wf (sq_save_metadata k v db)"
  using assms
  by (auto simp: sqlite_wf_def sq_delete_records_def sq_delete_before_def sq_clear_pending_def
        sq_claim_pending_def sq_save_scheduled_def sq_delete_scheduled_def
        sq_record_idempotency_key_def sq_acquire_schedule_lock_def sq_save_metadata_def
        delete_row_def set_replace_row sched_to_row_def dwf_insert_or_ignore dwf_filter
        case_prod_beta Let_def)

lemma replace_rows_distinct:
  assumes "distinct (map key (xs @ rs))"
  shows "fold (\<lambda>r. replace_row (key r) r) rs (map (\<lambda>r. (key r, r)) xs)
           = map (\<lambda>r. (key r, r)) (xs @ rs)"
  using assms
proof (induction rs arbitrary: xs)
  case (Cons r rs)
  have n: "key r \<notin> key ` set xs" using Cons.prems by auto
  then have "filter (\<lambda>p. fst p \<noteq> key r) (map (\<lambda>r. (key r, r)) xs) = map (\<lambda>r. (key r, r)) xs"
    by (intro filter_True) (auto simp: image_iff)
  then have "replace_row (key r) r (map (\<lambda>r. (key r, r)) xs) = map (\<lambda>r. (key r, r)) (xs @ [r])"
    by (simp add: replace_row_def dpop_filter)
  then show ?case using Cons.IH [of "xs @ [r]"] Cons.prems by simp
qed simp

lemma load_saved_pending:
  assumes "distinct (map task_id rs)"
  shows "sq_load_pending (snd (sq_save_pending rs db)) = map (\<lambda>r. pend_to_record (record_to_pend r)) rs"
proof -
  have i: "pr_task_id (record_to_pend r) = task_id r" for r by (simp add: record_to_pend_def)
  have "fold (\<lambda>r. replace_row (pr_task_id r) r) (map record_to_pend rs) []
          = map (\<lambda>r. (pr_task_id r, r)) (map record_to_pend rs)"
    using replace_rows_distinct [of pr_task_id "[]" "map record_to_pend rs"] assms
    by (simp add: comp_def i)
  then show ?thesis by (simp add: sq_load_pending_def sq_save_pending_def comp_def)
qed

section \<open>The contracts\<close>

lemma sq_get_put_row [simp]:
  "sq_get_row (put_row r db) k = (if k = hr_task_id r then Some r else sq_get_row db k)"
  by (simp add: sq_get_row_def put_row_def)

interpretation history: keyed_table sq_get_row put_row remove_row hr_task_id
  by unfold_locales (simp_all add: sq_get_row_def put_row_def remove_row_def)

text \<open>
  The two claims are exactly-once because a primary key is unique.
\<close>

lemma in_keys_delete_row:
  "j \<in> set (dkeys (snd (delete_row k t))) \<longleftrightarrow> j \<noteq> k \<and> j \<in> set (dkeys t)"
  unfolding delete_row_keys by auto

lemma claim_pending_simps:
  "fst (sq_claim_pending k db) \<longleftrightarrow> fst (delete_row k (sq_pending db)) = 1"
  "sq_pending (snd (sq_claim_pending k db)) = snd (delete_row k (sq_pending db))"
  by (simp_all add: sq_claim_pending_def case_prod_beta)

lemma claim_scheduled_simps:
  "fst (sq_claim_scheduled k db) \<longleftrightarrow> fst (delete_row k (sq_scheduled db)) = 1"
  "sq_scheduled (snd (sq_claim_scheduled k db)) = snd (delete_row k (sq_scheduled db))"
  by (simp_all add: sq_claim_scheduled_def sq_delete_scheduled_def case_prod_beta)

lemma sqlite_wf_dwf:
  assumes "sqlite_wf db"
  shows "dwf (sq_history db)" "dwf (sq_pending db)" "dwf (sq_scheduled db)" "dwf (sq_locks db)"
    "dwf (sq_idem db)"
  using assms unfolding sqlite_wf_def by blast+

interpretation pending_claims: claim_once sq_claim_pending
    "\<lambda>db k. k \<in> set (dkeys (sq_pending db))" sqlite_wf "\<lambda>_. True"
proof
  fix t k j
  assume g: "sqlite_wf t"
  show "fst (sq_claim_pending k t) = (k \<in> set (dkeys (sq_pending t)))"
    unfolding claim_pending_simps using delete_row_count [OF sqlite_wf_dwf(2) [OF g]] by simp
  show "j \<in> set (dkeys (sq_pending (snd (sq_claim_pending k t))))
          \<longleftrightarrow> j \<noteq> k \<and> j \<in> set (dkeys (sq_pending t))"
    unfolding claim_pending_simps by (rule in_keys_delete_row)
  show "sqlite_wf (snd (sq_claim_pending k t))" using g by (rule sqlite_wf_rest)
qed

interpretation scheduled_claims: claim_once sq_claim_scheduled
    "\<lambda>db k. k \<in> set (dkeys (sq_scheduled db))" sqlite_wf "\<lambda>_. True"
proof
  fix t k j
  assume g: "sqlite_wf t"
  show "fst (sq_claim_scheduled k t) = (k \<in> set (dkeys (sq_scheduled t)))"
    unfolding claim_scheduled_simps using delete_row_count [OF sqlite_wf_dwf(3) [OF g]] by simp
  show "j \<in> set (dkeys (sq_scheduled (snd (sq_claim_scheduled k t))))
          \<longleftrightarrow> j \<noteq> k \<and> j \<in> set (dkeys (sq_scheduled t))"
    unfolding claim_scheduled_simps by (rule in_keys_delete_row)
  show "sqlite_wf (snd (sq_claim_scheduled k t))"
    using g unfolding sq_claim_scheduled_def by (rule sqlite_wf_rest)
qed

lemma dget_snoc: "dget (t @ [(k, v)]) j = (case dget t j of None \<Rightarrow> if j = k then Some v else None | Some u \<Rightarrow> Some u)"
  by (induction t) (auto split: option.splits)

lemma dget_insert_or_ignore:
  "dget (snd (insert_or_ignore k v t)) j
     = (if j = k \<and> dget t k = None then Some v else dget t j)"
proof (cases "dget t k")
  case None
  then have "k \<notin> set (dkeys t)" by (simp add: dget_None_iff)
  then have "dget (snd (insert_or_ignore k v t)) j = dget (t @ [(k, v)]) j"
    by (simp add: insert_or_ignore_def)
  then show ?thesis unfolding dget_snoc using None by (auto split: option.splits)
next
  case (Some u)
  then have "k \<in> set (dkeys t)" using dget_None_iff [of t k] by auto
  then show ?thesis using Some by (simp add: insert_or_ignore_def)
qed

lemma fst_insert_or_ignore: "fst (insert_or_ignore k v t) \<longleftrightarrow> dget t k = None"
  by (simp add: insert_or_ignore_def dget_None_iff)

interpretation idempotency: first_writer sq_check_idempotency_key sq_record_idempotency_key
  by unfold_locales
     (simp add: sq_check_idempotency_key_def sq_record_idempotency_key_def dget_insert_or_ignore)

definition lock_expiry :: "sqlite \<Rightarrow> string \<Rightarrow> int option" where
  "lock_expiry db k = dget (sq_locks db) k"

definition live_locks :: "string \<Rightarrow> int \<Rightarrow> (string, int) dict \<Rightarrow> (string, int) dict" where
  "live_locks k now t =
     filter (\<lambda>(j, e). \<not> (j = k \<and> iso_le (isoformat (naive_dt e)) (isoformat (naive_dt now)))) t"

lemma live_locks_Cons:
  "live_locks k now (p # t)
     = (if fst p = k \<and> snd p \<le> now then live_locks k now t else p # live_locks k now t)"
  by (simp add: live_locks_def case_prod_beta iso_le_naive)

lemma live_locks_absent: "k \<notin> set (dkeys t) \<Longrightarrow> live_locks k now t = t"
  by (induction t) (auto simp: live_locks_Cons, simp add: live_locks_def)

lemma dget_live_locks:
  "dwf t \<Longrightarrow> dget (live_locks k now t) j =
     (if j = k then case dget t k of None \<Rightarrow> None | Some e \<Rightarrow> if e \<le> now then None else Some e
      else dget t j)"
proof (induction t)
  case (Cons p t)
  show ?case
  proof (cases "fst p = k")
    case True
    then have n: "k \<notin> set (dkeys t)" using Cons.prems by auto
    then have "dget t k = None" by (simp add: dget_None_iff)
    then show ?thesis
      using True live_locks_absent [OF n] by (cases p) (auto simp: live_locks_Cons)
  next
    case False
    then show ?thesis using Cons by (cases p) (auto simp: live_locks_Cons)
  qed
qed (simp add: live_locks_def)

lemma sq_acquire_unfold:
  "sq_acquire_schedule_lock k ttl now db =
     (let p = insert_or_ignore k (now + ttl * 1000000) (live_locks k now (sq_locks db))
      in (fst p, db\<lparr>sq_locks := snd p\<rparr>))"
  by (simp add: sq_acquire_schedule_lock_def live_locks_def case_prod_beta Let_def)

lemma acquire_simps:
  "fst (sq_acquire_schedule_lock k ttl now db)
     = (dget (live_locks k now (sq_locks db)) k = None)"
  "lock_expiry (snd (sq_acquire_schedule_lock k ttl now db)) j
     = (if j = k \<and> dget (live_locks k now (sq_locks db)) k = None
        then Some (now + ttl * 1000000) else dget (live_locks k now (sq_locks db)) j)"
  unfolding sq_acquire_unfold Let_def lock_expiry_def fst_conv snd_conv
  by (simp_all add: fst_insert_or_ignore dget_insert_or_ignore)

interpretation schedule_lock: precise_ttl_lock sq_acquire_schedule_lock lock_expiry sqlite_wf
proof
  fix t k j and ttl now :: int
  assume g: "sqlite_wf t"
  note l = dget_live_locks [OF sqlite_wf_dwf(4) [OF g]]
  show "fst (sq_acquire_schedule_lock k ttl now t)
          = (case lock_expiry t k of None \<Rightarrow> True | Some e \<Rightarrow> e \<le> now)"
    unfolding acquire_simps l by (simp add: lock_expiry_def split: option.splits)
  show "lock_expiry (snd (sq_acquire_schedule_lock k ttl now t)) j
          = (if j = k \<and> fst (sq_acquire_schedule_lock k ttl now t)
             then Some (now + ttl * 1000000) else lock_expiry t j)"
    unfolding acquire_simps l by (simp add: lock_expiry_def split: option.splits if_splits)
  show "sqlite_wf (snd (sq_acquire_schedule_lock k ttl now t))" using g by (rule sqlite_wf_rest)
qed

end
