(* ===== verification/Instances.thy ===== *)
theory Instances
  imports Sqlite_Backend
begin

text \<open>
  \<^verbatim>\<open>src/fastapi_taskflow/instance_registry.py\<close> and \<^verbatim>\<open>src/fastapi_taskflow/fan_out.py\<close>: the
  instances of one application find each other through a metadata row of the shared backend and
  ask each other for their tasks. The row holds one entry per instance: its url, its prefix and
  the time of its last heartbeat, in seconds since 1970. An HTTP GET is a parameter: the JSON
  body it returns for an url, \<open>None\<close> when it fails or the body is not JSON.
\<close>

record app_instance =
  in_id :: string
  in_url :: string
  in_prefix :: string
  in_ttl :: int
  in_heartbeat :: int
  in_running :: bool   \<comment> \<open>\<open>_task is not None\<close>: the heartbeat loop\<close>

record peer =
  px_id :: string
  px_url :: string
  px_prefix :: string

type_synonym http_get = "string \<Rightarrow> json option"

definition rstrip_slash :: "string \<Rightarrow> string" where
  "rstrip_slash s = rev (dropWhile (\<lambda>c. c = CHR ''/'') (rev s))"

definition registry_key :: string where
  "registry_key = ''_instance_registry''"

definition new_instance :: "string \<Rightarrow> string \<Rightarrow> string \<Rightarrow> int \<Rightarrow> int \<Rightarrow> app_instance" where
  "new_instance iid url prefix ttl hb =
     \<lparr>in_id = iid, in_url = rstrip_slash url, in_prefix = rstrip_slash prefix, in_ttl = ttl,
      in_heartbeat = hb, in_running = False\<rparr>"

section \<open>The shared entries\<close>

text \<open>\<open>json.loads(raw) if raw else {}\<close>, used as a dictionary.\<close>

definition as_dict :: "pyval \<Rightarrow> py_exc + (string, pyval) dict" where
  "as_dict v = (case v of VDict d \<Rightarrow> Inr d | _ \<Rightarrow> Inl (TypeError ''not a dict''))"

definition load_entries :: "sqlite \<Rightarrow> py_exc + (string, pyval) dict" where
  "load_entries db =
     (case sq_load_metadata db registry_key of
        None \<Rightarrow> Inr [] | Some j \<Rightarrow> as_dict (loads j))"

definition entry_of :: "app_instance \<Rightarrow> rat \<Rightarrow> pyval" where
  "entry_of i now =
     VDict [(''url'', VStr (in_url i)), (''tasks_prefix'', VStr (in_prefix i)),
            (''last_seen'', VFloat now)]"

definition save_entries :: "(string, pyval) dict \<Rightarrow> sqlite \<Rightarrow> sqlite" where
  "save_entries d db = sq_save_metadata registry_key (dumps (VDict d)) db"

definition write_entry :: "app_instance \<Rightarrow> rat \<Rightarrow> sqlite \<Rightarrow> py_exc + sqlite" where
  "write_entry i now db =
     bindr (load_entries db) (\<lambda>d. Inr (save_entries (dset (in_id i) (entry_of i now) d) db))"

definition remove_entry :: "app_instance \<Rightarrow> sqlite \<Rightarrow> py_exc + sqlite" where
  "remove_entry i db = bindr (load_entries db) (\<lambda>d. Inr (save_entries (dpop (in_id i) d) db))"

text \<open>\<open>start\<close>, one turn of \<open>_heartbeat_loop\<close>, and \<open>stop\<close>.\<close>

definition instance_start :: "app_instance \<Rightarrow> rat \<Rightarrow> sqlite \<Rightarrow> py_exc + app_instance \<times> sqlite" where
  "instance_start i now db =
     bindr (write_entry i now db) (\<lambda>db'. Inr (i\<lparr>in_running := True\<rparr>, db'))"

definition heartbeat :: "app_instance \<Rightarrow> rat \<Rightarrow> sqlite \<Rightarrow> py_exc + sqlite" where
  "heartbeat i now db = (if in_running i then write_entry i now db else Inr db)"

definition instance_stop :: "app_instance \<Rightarrow> sqlite \<Rightarrow> py_exc + app_instance \<times> sqlite" where
  "instance_stop i db =
     bindr (remove_entry i db) (\<lambda>db'. Inr (i\<lparr>in_running := False\<rparr>, db'))"

section \<open>Peers\<close>

fun as_num :: "pyval \<Rightarrow> py_exc + rat" where
  "as_num (VInt i) = Inr (of_int i)"
| "as_num (VFloat q) = Inr q"
| "as_num _ = Inl (TypeError ''number'')"

definition peer_of :: "app_instance \<Rightarrow> rat \<Rightarrow> string \<times> pyval \<Rightarrow> py_exc + peer option" where
  "peer_of i now = (\<lambda>(iid, info).
     if iid = in_id i then Inr None
     else bindr (as_dict info) (\<lambda>d.
          bindr (get_or as_num 0 d ''last_seen'') (\<lambda>seen.
          if now - seen > of_int (in_ttl i) then Inr None
          else bindr (get_or as_str [] d ''url'') (\<lambda>url.
               bindr (get_or as_str [] d ''tasks_prefix'') (\<lambda>prefix.
               Inr (Some \<lparr>px_id = iid, px_url = url, px_prefix = prefix\<rparr>))))))"

definition peers :: "app_instance \<Rightarrow> rat \<Rightarrow> sqlite \<Rightarrow> py_exc + peer list" where
  "peers i now db =
     bindr (load_entries db) (\<lambda>d.
     bindr (seqm (map (peer_of i now) d)) (\<lambda>ps. Inr (List.map_filter id ps)))"

section \<open>Fan-out\<close>

definition peer_endpoint :: string where
  "peer_endpoint = ''/__peer/tasks''"

definition peer_url :: "peer \<Rightarrow> string" where
  "peer_url p = rstrip_slash (px_url p) @ rstrip_slash (px_prefix p) @ peer_endpoint"

text \<open>Items that do not parse as a record are skipped.\<close>

definition parse_record :: "pyval \<Rightarrow> task_record list" where
  "parse_record v =
     (case bindr (as_dict v) from_dict of Inl _ \<Rightarrow> [] | Inr r \<Rightarrow> [r])"

definition fetch_peer_tasks :: "http_get \<Rightarrow> peer \<Rightarrow> task_record list" where
  "fetch_peer_tasks http p =
     (case http (peer_url p) of
        None \<Rightarrow> []
      | Some j \<Rightarrow> (case loads j of VList vs \<Rightarrow> concat (map parse_record vs) | _ \<Rightarrow> []))"

definition gather_peer_records ::
  "http_get \<Rightarrow> app_instance \<Rightarrow> rat \<Rightarrow> sqlite \<Rightarrow> py_exc + task_record list" where
  "gather_peer_records http i now db =
     bindr (peers i now db) (\<lambda>ps. Inr (concat (map (fetch_peer_tasks http) ps)))"

end
