(* ===== verification/Instances_Props.thy ===== *)
theory Instances_Props
  imports Instances
begin

text \<open>
  The metadata row of the instances against its specification: a dictionary from instance ids to
  url, prefix and the time of the last heartbeat.
\<close>

section \<open>The specification\<close>

type_synonym registry_view = "(string, string \<times> string \<times> rat) dict"

definition entry_json :: "string \<times> string \<times> rat \<Rightarrow> pyval" where
  "entry_json = (\<lambda>(url, prefix, seen).
     VDict [(''url'', VStr url), (''tasks_prefix'', VStr prefix), (''last_seen'', VFloat seen)])"

definition holds_view :: "sqlite \<Rightarrow> registry_view \<Rightarrow> bool" where
  "holds_view db es \<longleftrightarrow> load_entries db = Inr (map (\<lambda>(k, e). (k, entry_json e)) es)"

text \<open>The instances \<open>i\<close> takes for alive: the others whose last heartbeat is at most \<open>ttl\<close> ago.\<close>

definition alive_peers :: "app_instance \<Rightarrow> rat \<Rightarrow> registry_view \<Rightarrow> peer list" where
  "alive_peers i now es =
     map (\<lambda>(k, url, prefix, seen). \<lparr>px_id = k, px_url = url, px_prefix = prefix\<rparr>)
       (filter (\<lambda>(k, url, prefix, seen). k \<noteq> in_id i \<and> now - seen \<le> of_int (in_ttl i)) es)"

section \<open>Library\<close>

lemma dset_map: "dset k (f v) (map (\<lambda>(k, e). (k, f e)) d) = map (\<lambda>(k, e). (k, f e)) (dset k v d)"
  by (induction d) auto

lemma dpop_map: "dpop k (map (\<lambda>(k, e). (k, f e)) d) = map (\<lambda>(k, e). (k, f e)) (dpop k d)"
  by (induction d) auto

lemma entry_of_json: "entry_of i now = entry_json (in_url i, in_prefix i, now)"
  by (simp add: entry_of_def entry_json_def)

lemma saved_view: "holds_view (save_entries (map (\<lambda>(k, e). (k, entry_json e)) es) db) es"
proof -
  have "json_native (VDict (map (\<lambda>(k, e). (k, entry_json e)) es))"
    by (auto simp: list_all_iff entry_json_def)
  from loads_dumps [OF this] show ?thesis
    by (simp add: holds_view_def load_entries_def save_entries_def sq_load_metadata_def
        sq_save_metadata_def as_dict_def)
qed

lemma peer_of_entry:
  "peer_of i now (k, entry_json (url, prefix, seen)) =
     Inr (if k \<noteq> in_id i \<and> now - seen \<le> of_int (in_ttl i)
          then Some \<lparr>px_id = k, px_url = url, px_prefix = prefix\<rparr> else None)"
  by (auto simp: peer_of_def entry_json_def as_dict_def get_or_def bindr_def)

lemma seqm_map_Inr: "seqm (map (\<lambda>x. Inr (f x)) xs) = Inr (map f xs)"
  by (induction xs) (auto simp: bindr_def)

section \<open>Properties\<close>


definition ex_inst :: "string \<Rightarrow> app_instance" where
  "ex_inst k = new_instance k ''http://a/'' ''/tasks'' 90 30"

definition ex_view :: registry_view where
  "ex_view = [(''i1'', ''http://a'', ''/tasks'', 5), (''i2'', ''http://b'', ''/tasks'', 60)]"

definition ex_registry :: sqlite where
  "ex_registry = save_entries (map (\<lambda>(k, e). (k, entry_json e)) ex_view) sqlite_init"


end
