(* ===== verification/Heap_Order.thy ===== *)
theory Heap_Order
  imports Prelude "HOL-Library.Product_Lexorder"
begin

text \<open>
  The heap both schedulers use. \<open>heapq\<close> promises that \<open>heappop\<close> returns a least element and that
  no element is lost; which of several equal elements it returns is unspecified. The model keeps
  the elements in push order and pops the first least one, and the components rest only on the
  \<open>min_heap\<close> interface, which any implementation of \<open>heapq\<close> satisfies.
\<close>

fun take_min :: "('a \<Rightarrow> 'p::linorder) \<Rightarrow> 'a list \<Rightarrow> ('a \<times> 'a list) option" where
  "take_min k [] = None"
| "take_min k (x # xs) =
     (case take_min k xs of
        None \<Rightarrow> Some (x, [])
      | Some (m, rest) \<Rightarrow> if k x \<le> k m then Some (x, xs) else Some (m, x # rest))"

definition heappush :: "'a \<Rightarrow> 'a list \<Rightarrow> 'a list" where
  "heappush x h = h @ [x]"

definition heappop :: "('a \<Rightarrow> 'p::linorder) \<Rightarrow> 'a list \<Rightarrow> ('a \<times> 'a list) option" where
  "heappop k h = take_min k h"

text \<open>\<open>heap[0]\<close>.\<close>

definition heap_top :: "('a \<Rightarrow> 'p::linorder) \<Rightarrow> 'a list \<Rightarrow> 'a option" where
  "heap_top k h = map_option fst (take_min k h)"

lemma take_min_None [simp]: "take_min k xs = None \<longleftrightarrow> xs = []"
  by (cases xs) (auto split: option.splits)

lemma take_min_mset: "take_min k xs = Some (m, r) \<Longrightarrow> mset xs = add_mset m (mset r)"
  by (induction xs arbitrary: m r) (auto split: option.splits if_splits)

lemma take_min_least: "take_min k xs = Some (m, r) \<Longrightarrow> y \<in> set xs \<Longrightarrow> k m \<le> k y"
proof (induction xs arbitrary: m r)
  case (Cons x xs)
  show ?case
  proof (cases "take_min k xs")
    case None
    then show ?thesis using Cons.prems by auto
  next
    case (Some p)
    then obtain m' r' where p: "take_min k xs = Some (m', r')" by (cases p) auto
    show ?thesis using Cons.prems Cons.IH [OF p] p by (force split: if_splits)
  qed
qed simp

lemma take_min_set: "take_min k xs = Some (m, r) \<Longrightarrow> set xs = insert m (set r)"
  using take_min_mset by (metis set_mset_add_mset_insert set_mset_mset)

lemma take_min_length: "take_min k xs = Some (m, r) \<Longrightarrow> length xs = Suc (length r)"
  using take_min_mset by (metis size_add_mset size_mset)

interpretation heapq: min_heap heappush "heappop k" mset k for k :: "'a \<Rightarrow> 'p::linorder"
proof unfold_locales
  fix h :: "'a list" and x y h'
  show "mset (heappush x h) = add_mset x (mset h)" by (simp add: heappush_def)
  show "(heappop k h = None) = (mset h = {#})" by (simp add: heappop_def)
  assume p: "heappop k h = Some (x, h')"
  then show "mset h = add_mset x (mset h')" by (simp add: heappop_def take_min_mset)
  assume "y \<in># mset h'"
  then have "y \<in> set h" using p by (simp add: heappop_def take_min_set)
  then show "k x \<le> k y" using p by (simp add: heappop_def take_min_least)
qed

end
