(* ===== verification/Queues.thy ===== *)
theory Queues
  imports Models Heap_Order
begin

text \<open>
  The named task queue, \<open>_TaskQueue\<close> of \<^verbatim>\<open>src/fastapi_taskflow/manager.py\<close>: a heap of
  \<open>(-priority, seq, task_id, wrapped)\<close> entries, a \<open>max_size\<close> check at enqueue time, a drainer
  coroutine that pops entries and starts them, and a semaphore that caps how many run. The
  drainer is a state machine whose states are the points where it awaits. Semaphores are objects
  with an identity: \<open>update_queue_config\<close> replaces the queue's semaphore while the drainer may
  wait on the one it replaced, and \<open>_run_slot\<close> releases the one the queue has when the task ends.
\<close>

datatype 'w qentry =
  QEntry (qe_neg: int) (qe_seq: nat) (qe_task: string) (qe_wrapped: 'w)

definition qkey :: "'w qentry \<Rightarrow> int \<times> nat" where
  "qkey e = (qe_neg e, qe_seq e)"

datatype 'w drainer =
    DWait                    \<comment> \<open>at \<open>await self._has_work.wait()\<close>\<close>
  | DLoop                    \<comment> \<open>in the inner loop, about to look at the heap\<close>
  | DBlocked "'w qentry" nat \<comment> \<open>popped an entry, at \<open>await sem.acquire()\<close>\<close>
  | DStopped

record 'w task_queue =
  tq_name :: string
  tq_config :: queue_config
  tq_heap :: "'w qentry list"
  tq_seq :: nat
  tq_has_work :: "bool option"
  tq_sem :: "nat option"
  tq_sems :: "nat list"
  tq_drainer :: "'w drainer"
  tq_running :: "'w qentry list"
  tq_rejected :: nat

definition tq_init :: "string \<Rightarrow> queue_config \<Rightarrow> 'w task_queue" where
  "tq_init name cfg =
     \<lparr>tq_name = name, tq_config = cfg, tq_heap = [], tq_seq = 0, tq_has_work = None,
      tq_sem = None, tq_sems = [], tq_drainer = DStopped, tq_running = [], tq_rejected = 0\<rparr>"

text \<open>
  \<open>asyncio.Semaphore(n)\<close>: a new counter with its own identity (its index in \<open>tq_sems\<close>);
  \<open>ValueError\<close> for a negative value.
\<close>

definition new_sem :: "int \<Rightarrow> 'w task_queue \<Rightarrow> (py_exc + unit) \<times> 'w task_queue" where
  "new_sem n q =
     (if n < 0 then (Inl (ValueError ''Semaphore initial value must be >= 0''), q)
      else (Inr (), q\<lparr>tq_sems := tq_sems q @ [nat n], tq_sem := Some (length (tq_sems q))\<rparr>))"

definition sem_value :: "'w task_queue \<Rightarrow> nat \<Rightarrow> nat" where
  "sem_value q i = tq_sems q ! i"

definition sem_release :: "nat \<Rightarrow> 'w task_queue \<Rightarrow> 'w task_queue" where
  "sem_release i q = q\<lparr>tq_sems := (tq_sems q)[i := Suc (tq_sems q ! i)]\<rparr>"

text \<open>\<open>_setup\<close>, and the drainer task created right after it by \<open>startup\<close>.\<close>

definition tq_setup :: "'w task_queue \<Rightarrow> (py_exc + unit) \<times> 'w task_queue" where
  "tq_setup q =
     (let q = q\<lparr>tq_has_work := Some False, tq_drainer := DWait\<rparr>
      in case qc_concurrency (tq_config q) of
           None \<Rightarrow> (Inr (), q\<lparr>tq_sem := None\<rparr>)
         | Some c \<Rightarrow> new_sem c q)"

section \<open>Operations\<close>

definition opt_or :: "int option \<Rightarrow> int \<Rightarrow> int" where
  "opt_or p d = (case p of None \<Rightarrow> d | Some v \<Rightarrow> if v = 0 then d else v)"

definition queue_full :: "'w task_queue \<Rightarrow> bool" where
  "queue_full q =
     (case qc_max_size (tq_config q) of
        None \<Rightarrow> False | Some m \<Rightarrow> int (length (tq_heap q)) \<ge> m)"

definition enqueue ::
  "string \<Rightarrow> int option \<Rightarrow> 'w \<Rightarrow> 'w task_queue \<Rightarrow> (py_exc + unit) \<times> 'w task_queue" where
  "enqueue tid prio wrapped q =
     (if queue_full q
      then (Inl (QueueFullError (tq_name q)), q\<lparr>tq_rejected := Suc (tq_rejected q)\<rparr>)
      else (Inr (),
            q\<lparr>tq_seq := Suc (tq_seq q),
              tq_heap := heappush (QEntry (- opt_or prio 0) (Suc (tq_seq q)) tid wrapped) (tq_heap q),
              tq_has_work := map_option (\<lambda>_. True) (tq_has_work q)\<rparr>))"

definition pending_count :: "'w task_queue \<Rightarrow> nat" where
  "pending_count q = length (tq_heap q)"

text \<open>\<open>asyncio.create_task(self._run_slot(wrapped))\<close>.\<close>

definition start_slot :: "'w qentry \<Rightarrow> 'w task_queue \<Rightarrow> 'w task_queue" where
  "start_slot e q = q\<lparr>tq_running := tq_running q @ [e]\<rparr>"

text \<open>
  One resumption of \<open>_drainer\<close>, up to its next await. \<open>None\<close>: it cannot move (the event is not
  set, or no permit is available).
\<close>

definition drainer_step :: "'w task_queue \<Rightarrow> 'w task_queue option" where
  "drainer_step q =
     (case tq_drainer q of
        DStopped \<Rightarrow> None
      | DWait \<Rightarrow> if tq_has_work q = Some True then Some (q\<lparr>tq_drainer := DLoop\<rparr>) else None
      | DLoop \<Rightarrow>
          (case heappop qkey (tq_heap q) of
             None \<Rightarrow> Some (q\<lparr>tq_has_work := Some False, tq_drainer := DWait\<rparr>)
           | Some (e, h) \<Rightarrow>
               (case tq_sem q of
                  None \<Rightarrow> Some (start_slot e (q\<lparr>tq_heap := h\<rparr>))
                | Some i \<Rightarrow> Some (q\<lparr>tq_heap := h, tq_drainer := DBlocked e i\<rparr>)))
      | DBlocked e i \<Rightarrow>
          if 0 < sem_value q i
          then Some (start_slot e (q\<lparr>tq_sems := (tq_sems q)[i := sem_value q i - 1],
                                     tq_drainer := DLoop\<rparr>))
          else None)"

text \<open>\<open>_run_slot\<close>: the task is over (normally or by an exception) and \<open>finally\<close> runs.\<close>

definition finish_slot :: "'w qentry \<Rightarrow> 'w task_queue \<Rightarrow> 'w task_queue" where
  "finish_slot e q =
     (let q = q\<lparr>tq_running := remove1 e (tq_running q)\<rparr>
      in case tq_sem q of None \<Rightarrow> q | Some i \<Rightarrow> sem_release i q)"

text \<open>The part of \<open>update_queue_config\<close> that changes the queue object.\<close>

definition reconfigure ::
  "int option \<Rightarrow> int option \<Rightarrow> 'w task_queue \<Rightarrow> (py_exc + unit) \<times> 'w task_queue" where
  "reconfigure conc msize q0 =
     (let old = qc_concurrency (tq_config q0);
          q = q0\<lparr>tq_config := \<lparr>qc_concurrency = conc, qc_max_size = msize\<rparr>\<rparr>
      in case conc of
           None \<Rightarrow> (Inr (), q\<lparr>tq_sem := None\<rparr>)
         | Some c \<Rightarrow>
             (case (old, tq_sem q) of
                (Some o', Some i) \<Rightarrow>
                  (let diff = c - o';
                       q = (if diff > 0 then (sem_release i ^^ nat diff) q else q)
                   in new_sem c q)
              | _ \<Rightarrow> new_sem c q))"

definition tq_stats :: "'w task_queue \<Rightarrow> (string, pyval) dict" where
  "tq_stats q =
     [(''name'', VStr (tq_name q)),
      (''concurrency'', opt_val VInt (qc_concurrency (tq_config q))),
      (''max_size'', opt_val VInt (qc_max_size (tq_config q))),
      (''pending'', VInt (int (pending_count q)))]"

section \<open>Runs\<close>

text \<open>
  What can happen to a live queue between two configuration changes: a task is offered, the
  drainer is resumed, a started task ends. \<open>queue_cfg_step\<close> adds configuration changes.
\<close>

inductive queue_step :: "'w task_queue \<Rightarrow> 'w task_queue \<Rightarrow> bool" where
  offer: "queue_step q (snd (enqueue tid p w q))"
| drain: "drainer_step q = Some q' \<Longrightarrow> queue_step q q'"
| finish: "e \<in> set (tq_running q) \<Longrightarrow> queue_step q (finish_slot e q)"

inductive queue_cfg_step :: "'w task_queue \<Rightarrow> 'w task_queue \<Rightarrow> bool" where
  plain: "queue_step q q' \<Longrightarrow> queue_cfg_step q q'"
| config: "queue_cfg_step q (snd (reconfigure c m q))"

inductive_cases queue_stepE: "queue_step q q'"
inductive_cases queue_cfg_stepE: "queue_cfg_step q q'"

text \<open>States reachable from a queue set up with \<open>cfg\<close>.\<close>

inductive queue_reach :: "queue_config \<Rightarrow> 'w task_queue \<Rightarrow> bool" for cfg where
  start: "tq_setup (tq_init name cfg) = (Inr (), q) \<Longrightarrow> queue_reach cfg q"
| step: "queue_reach cfg q \<Longrightarrow> queue_step q q' \<Longrightarrow> queue_reach cfg q'"

section \<open>Invariants without configuration changes\<close>

definition blocked_entries :: "'w task_queue \<Rightarrow> 'w qentry list" where
  "blocked_entries q = (case tq_drainer q of DBlocked e i \<Rightarrow> [e] | _ \<Rightarrow> [])"

text \<open>
  The queue's single semaphore and the running tasks account for every permit; the heap respects
  \<open>max_size\<close>; sequence numbers of waiting entries are distinct and below the counter; work is
  signalled whenever the drainer sleeps on a non-empty heap.
\<close>

definition permits_ok :: "queue_config \<Rightarrow> 'w task_queue \<Rightarrow> bool" where
  "permits_ok cfg q \<longleftrightarrow>
     (case qc_concurrency cfg of
        None \<Rightarrow> tq_sem q = None
      | Some c \<Rightarrow> tq_sem q = Some 0
          \<and> (\<exists>n. tq_sems q = [n] \<and> int (n + length (tq_running q)) = c))
     \<and> (\<forall>e i. tq_drainer q = DBlocked e i \<longrightarrow> i = 0 \<and> tq_sem q = Some 0)"

definition size_ok :: "queue_config \<Rightarrow> 'w task_queue \<Rightarrow> bool" where
  "size_ok cfg q \<longleftrightarrow>
     (case qc_max_size cfg of None \<Rightarrow> True | Some m \<Rightarrow> int (length (tq_heap q)) \<le> max 0 m)"

definition seqs_ok :: "'w task_queue \<Rightarrow> bool" where
  "seqs_ok q \<longleftrightarrow>
     distinct (map qe_seq (tq_heap q))
     \<and> (\<forall>e \<in> set (tq_heap q). qe_seq e \<le> tq_seq q)"

definition wake_ok :: "'w task_queue \<Rightarrow> bool" where
  "wake_ok q \<longleftrightarrow>
     tq_has_work q \<noteq> None \<and> tq_drainer q \<noteq> DStopped
     \<and> (tq_drainer q = DWait \<and> tq_heap q \<noteq> [] \<longrightarrow> tq_has_work q = Some True)"

definition queue_inv :: "queue_config \<Rightarrow> 'w task_queue \<Rightarrow> bool" where
  "queue_inv cfg q \<longleftrightarrow>
     tq_config q = cfg \<and> permits_ok cfg q \<and> size_ok cfg q \<and> seqs_ok q \<and> wake_ok q"

lemmas queue_inv_defs = queue_inv_def permits_ok_def size_ok_def seqs_ok_def wake_ok_def

lemma queue_inv_start: "tq_setup (tq_init name cfg) = (Inr (), q) \<Longrightarrow> queue_inv cfg q"
  by (auto simp: queue_inv_defs tq_setup_def tq_init_def new_sem_def Let_def
           split: option.splits if_splits)

lemma queue_inv_enqueue: "queue_inv cfg q \<Longrightarrow> queue_inv cfg (snd (enqueue tid p w q))"
  by (auto simp: queue_inv_defs enqueue_def queue_full_def heappush_def
           split: option.splits if_splits)

lemma heappop_seqs:
  assumes "heappop qkey h = Some (e, h')"
    and "distinct (map qe_seq h)"
  shows "distinct (map qe_seq h')" and "set h' \<subseteq> set h" and "length h' \<le> length h"
proof -
  have m: "mset h = add_mset e (mset h')" using assms(1) by (simp add: heappop_def take_min_mset)
  then have "mset (map qe_seq h) = mset (map qe_seq (e # h'))" by simp
  then have "distinct (map qe_seq (e # h'))"
    using assms(2) mset_eq_imp_distinct_iff by blast
  then show "distinct (map qe_seq h')" by simp
  show "set h' \<subseteq> set h" using m by (metis set_mset_add_mset_insert set_mset_mset subset_insertI)
  show "length h' \<le> length h" using m by (metis le_SucI order_refl size_add_mset size_mset)
qed

lemma queue_inv_drain: "queue_inv cfg q \<Longrightarrow> drainer_step q = Some q' \<Longrightarrow> queue_inv cfg q'"
proof -
  assume inv: "queue_inv cfg q" and d: "drainer_step q = Some q'"
  show ?thesis
  proof (cases "tq_drainer q")
    case DWait
    then show ?thesis using inv d
      by (auto simp: queue_inv_defs drainer_step_def split: if_splits option.splits)
  next
    case DLoop
    show ?thesis
    proof (cases "heappop qkey (tq_heap q)")
      case None
      then show ?thesis using DLoop inv d
        by (auto simp: queue_inv_defs drainer_step_def heappop_def split: option.splits)
    next
      case (Some p)
      then obtain e h where p: "heappop qkey (tq_heap q) = Some (e, h)" by (cases p) auto
      note hp = heappop_seqs [OF p]
      have "seqs_ok q" using inv by (simp add: queue_inv_def)
      then have s: "distinct (map qe_seq h)" "\<forall>e \<in> set h. qe_seq e \<le> tq_seq q"
        "length h \<le> length (tq_heap q)"
        using hp by (auto simp: seqs_ok_def)
      show ?thesis
        using DLoop inv d p s
        by (auto simp: queue_inv_defs drainer_step_def start_slot_def split: option.splits)
    qed
  next
    case (DBlocked e i)
    then show ?thesis using inv d
      by (auto simp: queue_inv_defs drainer_step_def start_slot_def sem_value_def
               split: if_splits option.splits)
  next
    case DStopped
    then show ?thesis using d by (simp add: drainer_step_def)
  qed
qed

lemma length_remove1_Suc: "e \<in> set xs \<Longrightarrow> length xs = Suc (length (remove1 e xs))"
  using length_pos_if_in_set [of e xs] by (simp add: length_remove1)

lemma queue_inv_finish:
  assumes "queue_inv cfg q" and "e \<in> set (tq_running q)"
  shows "queue_inv cfg (finish_slot e q)"
proof -
  have n: "length (tq_running q) = Suc (length (remove1 e (tq_running q)))"
    using assms(2) by (rule length_remove1_Suc)
  have rest: "size_ok cfg (finish_slot e q)" "seqs_ok (finish_slot e q)"
    "wake_ok (finish_slot e q)" "tq_config (finish_slot e q) = cfg"
    using assms(1)
    by (auto simp: queue_inv_defs finish_slot_def sem_release_def Let_def split: option.splits)
  have "permits_ok cfg (finish_slot e q)"
    using assms(1) n
    by (auto simp: queue_inv_def permits_ok_def finish_slot_def sem_release_def Let_def
             simp del: length_remove1
             split: option.splits)
  then show ?thesis using rest by (simp add: queue_inv_def)
qed

lemma queue_inv_step: "queue_step q q' \<Longrightarrow> queue_inv cfg q \<Longrightarrow> queue_inv cfg q'"
  by (erule queue_stepE)
     (auto intro: queue_inv_enqueue queue_inv_drain queue_inv_finish)

lemma queue_reach_inv: "queue_reach cfg q \<Longrightarrow> queue_inv cfg q"
  by (induction rule: queue_reach.induct) (auto intro: queue_inv_start queue_inv_step)

section \<open>Order of dispatch\<close>

lemma qkey_inj_on:
  "seqs_ok q \<Longrightarrow> a \<in> set (tq_heap q) \<Longrightarrow> b \<in> set (tq_heap q) \<Longrightarrow> qkey a = qkey b \<Longrightarrow> a = b"
  unfolding seqs_ok_def qkey_def by (auto simp: distinct_map inj_on_def)

text \<open>The entry popped next has the highest priority; among equals it arrived first.\<close>

lemma heappop_first:
  assumes "seqs_ok q" and "heappop qkey (tq_heap q) = Some (e, h)"
    and "e' \<in> set (tq_heap q)" and "e' \<noteq> e"
  shows "qe_neg e < qe_neg e' \<or> qe_neg e = qe_neg e' \<and> qe_seq e < qe_seq e'"
proof -
  have "qkey e \<le> qkey e'"
    using assms(2,3) heapq.pop_is_least by fastforce
  moreover have "e \<in> set (tq_heap q)"
    using assms(2) by (simp add: heappop_def take_min_set)
  then have "qkey e \<noteq> qkey e'" using qkey_inj_on assms by metis
  ultimately show ?thesis by (auto simp: qkey_def less_eq_prod_def)
qed

section \<open>No accepted task is lost\<close>

definition known_entries :: "'w task_queue \<Rightarrow> 'w qentry multiset" where
  "known_entries q = mset (tq_heap q) + mset (blocked_entries q) + mset (tq_running q)"

lemma known_drain: "drainer_step q = Some q' \<Longrightarrow> known_entries q' = known_entries q"
  by (auto simp: drainer_step_def known_entries_def blocked_entries_def start_slot_def
                 heappop_def take_min_mset
           split: drainer.splits option.splits if_splits)

lemma known_enqueue:
  "known_entries (snd (enqueue tid p w q)) =
     (if queue_full q then known_entries q
      else add_mset (QEntry (- opt_or p 0) (Suc (tq_seq q)) tid w) (known_entries q))"
  by (simp add: enqueue_def known_entries_def blocked_entries_def heappush_def)

lemma known_finish:
  "e \<in> set (tq_running q) \<Longrightarrow> known_entries q = add_mset e (known_entries (finish_slot e q))"
  by (auto simp: finish_slot_def known_entries_def blocked_entries_def sem_release_def Let_def
           split: option.splits)

section \<open>Replaced semaphores\<close>

text \<open>
  A drainer that waits on a semaphore the queue no longer has, with no permit left in it, never
  moves again: \<open>_run_slot\<close> releases the current semaphore only, and a later configuration change
  releases the current one only.
\<close>

definition stranded :: "'w task_queue \<Rightarrow> bool" where
  "stranded q \<longleftrightarrow>
     (case tq_drainer q of
        DBlocked e i \<Rightarrow> i < length (tq_sems q) \<and> sem_value q i = 0 \<and> tq_sem q \<noteq> Some i
      | _ \<Rightarrow> False)
     \<and> (case tq_sem q of None \<Rightarrow> True | Some j \<Rightarrow> j < length (tq_sems q))"

lemma stranded_iff:
  "stranded q \<longleftrightarrow>
     (case tq_drainer q of
        DBlocked e i \<Rightarrow> i < length (tq_sems q) \<and> sem_value q i = 0 \<and> tq_sem q \<noteq> Some i
      | _ \<Rightarrow> False)
     \<and> (\<forall>j. tq_sem q = Some j \<longrightarrow> j < length (tq_sems q))"
  by (auto simp: stranded_def split: option.splits)

lemma release_length [simp]: "length (tq_sems ((sem_release i ^^ n) q)) = length (tq_sems q)"
  by (induction n) (auto simp: sem_release_def)

lemma release_frame [simp]:
  "tq_drainer ((sem_release i ^^ n) q) = tq_drainer q"
  "tq_sem ((sem_release i ^^ n) q) = tq_sem q"
  "tq_heap ((sem_release i ^^ n) q) = tq_heap q"
  "tq_running ((sem_release i ^^ n) q) = tq_running q"
  by (induction n) (auto simp: sem_release_def)

lemma release_other: "j \<noteq> i \<Longrightarrow> tq_sems ((sem_release i ^^ n) q) ! j = tq_sems q ! j"
  by (induction n) (auto simp: sem_release_def)

lemma stranded_no_drain: "stranded q \<Longrightarrow> drainer_step q = None"
  by (auto simp: stranded_iff drainer_step_def split: drainer.splits)

lemma stranded_enqueue: "stranded q \<Longrightarrow> stranded (snd (enqueue tid p w q))"
  by (auto simp: stranded_iff enqueue_def sem_value_def split: drainer.splits)

lemma stranded_finish: "stranded q \<Longrightarrow> stranded (finish_slot e q)"
  by (auto simp: stranded_iff finish_slot_def sem_value_def sem_release_def Let_def nth_list_update
           split: option.splits drainer.splits)

lemma stranded_new_sem: "stranded q \<Longrightarrow> stranded (snd (new_sem c q))"
  by (auto simp: stranded_iff new_sem_def sem_value_def nth_append split: drainer.splits)

lemma stranded_release:
  "stranded q \<Longrightarrow> tq_sem q = Some i \<Longrightarrow> stranded ((sem_release i ^^ n) q)"
  by (auto simp: stranded_iff sem_value_def release_other split: drainer.splits)

lemma stranded_config: "stranded q \<Longrightarrow> stranded (q\<lparr>tq_config := c\<rparr>)"
  by (simp add: stranded_iff sem_value_def split: drainer.splits)

lemma stranded_reconfigure:
  assumes "stranded q"
  shows "stranded (snd (reconfigure c m q))"
proof -
  let ?q1 = "q\<lparr>tq_config := \<lparr>qc_concurrency = c, qc_max_size = m\<rparr>\<rparr>"
  have s1: "stranded ?q1" using assms by (rule stranded_config)
  have rel: "stranded ((sem_release i ^^ n) ?q1)" if "tq_sem q = Some i" for n i
    using stranded_release [OF s1] that by simp
  show ?thesis
  proof (cases c)
    case None
    then show ?thesis using assms
      by (auto simp: reconfigure_def Let_def stranded_iff sem_value_def split: drainer.splits)
  next
    case (Some c')
    show ?thesis
      using Some stranded_new_sem [OF s1] stranded_new_sem [OF rel]
      by (auto simp: reconfigure_def Let_def split: option.splits)
  qed
qed

lemma stranded_step: "queue_cfg_step q q' \<Longrightarrow> stranded q \<Longrightarrow> stranded q'"
proof (induction rule: queue_cfg_step.induct)
  case (plain q q')
  then show ?case
    by (auto elim!: queue_stepE simp: stranded_enqueue stranded_finish stranded_no_drain)
qed (rule stranded_reconfigure)

lemma stranded_forever: "queue_cfg_step\<^sup>*\<^sup>* q q' \<Longrightarrow> stranded q \<Longrightarrow> stranded q'"
  by (induction rule: rtranclp_induct) (auto intro: stranded_step)

end
