(* ===== verification/Queue_Props.thy ===== *)
theory Queue_Props
  imports Queues
begin

text \<open>
  Properties of a named queue: its limits, the order it dispatches in, that it loses no accepted
  task and no wake-up, and what a configuration change does to its concurrency limit.
\<close>

definition ex_cfg :: queue_config where
  "ex_cfg = \<lparr>qc_concurrency = Some 1, qc_max_size = Some 2\<rparr>"

definition ex_q0 :: "string task_queue" where
  "ex_q0 = snd (tq_setup (tq_init ''q'' ex_cfg))"

definition offer2 :: "string task_queue \<Rightarrow> string task_queue" where
  "offer2 q = snd (enqueue ''b'' (Some 5) ''B'' (snd (enqueue ''a'' (Some 1) ''A'' q)))"

definition drained :: "string task_queue \<Rightarrow> string task_queue" where
  "drained q = (case drainer_step q of None \<Rightarrow> q | Some q' \<Rightarrow> q')"

lemma reach_drained: "queue_reach cfg q \<Longrightarrow> queue_reach cfg (drained q)"
  by (cases "drainer_step q") (auto simp: drained_def intro: queue_reach.step queue_step.drain)

lemma reach_ex: "queue_reach ex_cfg (offer2 ex_q0)"
  unfolding offer2_def
  by (intro queue_reach.step [OF _ queue_step.offer] queue_reach.start [where name = "''q''"])
     (simp add: ex_q0_def tq_setup_def tq_init_def new_sem_def ex_cfg_def)









text \<open>Saving a queue's configuration again, even unchanged, lets one more task run than the limit: the
  fresh semaphore ignores the tasks that already run.\<close>

lemma reconfigure_over_admits:
  assumes "queue_reach cfg q" and "qc_concurrency cfg = Some c" and "0 < c"
    and "tq_drainer q = DLoop" and "tq_heap q \<noteq> []" and "int (length (tq_running q)) = c"
  shows "case drainer_step (snd (reconfigure (Some c) (qc_max_size cfg) q)) of
           None \<Rightarrow> False
         | Some q2 \<Rightarrow>
             (case drainer_step q2 of
                None \<Rightarrow> False
              | Some q3 \<Rightarrow> tq_config q3 = cfg \<and> int (length (tq_running q3)) = c + 1)"
proof -
  have inv: "queue_inv cfg q" using queue_reach_inv [OF assms(1)] .
  obtain n where s: "tq_sem q = Some 0" "tq_sems q = [n]"
    using inv assms(2) by (auto simp: queue_inv_def permits_ok_def)
  obtain e h where p: "heappop qkey (tq_heap q) = Some (e, h)"
    using assms(5) by (cases "heappop qkey (tq_heap q)") (auto simp: heappop_def)
  have "tq_config q = cfg" using inv by (simp add: queue_inv_def)
  then show ?thesis
    using assms(2-4,6) s p
    by (cases cfg) (simp add: reconfigure_def new_sem_def drainer_step_def start_slot_def sem_value_def)
qed

definition ex_busy :: "string task_queue" where
  "ex_busy = drained (drained (drained (offer2 ex_q0)))"

lemma reconfigure_over_admits_witness:
  "case drainer_step (snd (reconfigure (Some 1) (Some 2) ex_busy)) of
     None \<Rightarrow> False
   | Some q2 \<Rightarrow>
       (case drainer_step q2 of
          None \<Rightarrow> False
        | Some q3 \<Rightarrow> tq_config q3 = ex_cfg \<and> int (length (tq_running q3)) = 1 + 1)"
proof -
  have "queue_reach ex_cfg ex_busy"
    unfolding ex_busy_def by (intro reach_drained reach_ex)
  moreover have "tq_drainer ex_busy = DLoop" "length (tq_heap ex_busy) = 1"
    "length (tq_running ex_busy) = 1" "qc_concurrency ex_cfg = Some 1" "qc_max_size ex_cfg = Some 2"
    by code_simp+
  moreover from this(2) have "tq_heap ex_busy \<noteq> []" by auto
  ultimately show ?thesis using reconfigure_over_admits [of ex_cfg ex_busy 1] by simp
qed

text \<open>A drainer that waits on the semaphore a configuration change replaced, with no permit left in it,
  never moves again, whatever is offered, finished or configured later: the queue is dead.\<close>

lemma stranded_drainer_dead:
  assumes "stranded q" and "queue_cfg_step\<^sup>*\<^sup>* q q'"
  shows "drainer_step q' = None"
  using stranded_forever [OF assms(2,1)] by (rule stranded_no_drain)

definition ex_stranded :: "string task_queue" where
  "ex_stranded = snd (reconfigure (Some 1) (Some 2) (drained ex_busy))"

lemma stranded_drainer_dead_witness:
  "length (tq_running ex_stranded) = 1
   \<and> drainer_step (finish_slot (hd (tq_running ex_stranded)) ex_stranded) = None"
proof -
  have "stranded ex_stranded" by code_simp
  moreover have r: "length (tq_running ex_stranded) = 1" by code_simp
  then have "hd (tq_running ex_stranded) \<in> set (tq_running ex_stranded)"
    by (cases "tq_running ex_stranded") auto
  then have "queue_cfg_step\<^sup>*\<^sup>* ex_stranded (finish_slot (hd (tq_running ex_stranded)) ex_stranded)"
    by (intro r_into_rtranclp queue_cfg_step.plain queue_step.finish)
  ultimately show ?thesis using stranded_drainer_dead r by blast
qed

end
