(* ===== verification/Loggers.thy ===== *)
theory Loggers
  imports Models
begin

text \<open>
  The observer layer of \<^verbatim>\<open>src/fastapi_taskflow/loggers/\<close>: events, level filters, the built-in
  observers and the chain that isolates their errors. An observer's effect is the list of lines
  (or recorded events) it has produced; a user-written observer is a function that may raise.
\<close>

record log_event =
  le_task_id :: string
  le_func_name :: string
  le_message :: string
  le_level :: string
  le_timestamp :: datetime
  le_attempt :: int
  le_tags :: "(string, string) dict"
  le_extra :: "(string, pyval) dict"

record lifecycle_event =
  ev_task_id :: string
  ev_func_name :: string
  ev_status :: task_status
  ev_timestamp :: datetime
  ev_attempt :: int
  ev_retries_used :: int
  ev_duration :: "rat option"
  ev_error :: "string option"
  ev_stacktrace :: "string option"
  ev_tags :: "(string, string) dict"

section \<open>Level filters\<close>

definition level_weights :: "(string, nat) dict" where
  "level_weights = [(''debug'', 0), (''info'', 1), (''warning'', 2), (''error'', 3)]"

definition level_weight :: "string \<Rightarrow> nat" where
  "level_weight l = (case dget level_weights l of None \<Rightarrow> 1 | Some w \<Rightarrow> w)"

fun status_level :: "task_status \<Rightarrow> string" where
  "status_level FAILED = ''error''"
| "status_level INTERRUPTED = ''warning''"
| "status_level _ = ''info''"

text \<open>What an observer has written: a log line, a lifecycle line, or a recorded event.\<close>

datatype out =
    LogLine string
  | LifeLine string datetime string
  | RecLog log_event
  | RecLife lifecycle_event

datatype obs_kind =
    FileObs bool     \<comment> \<open>\<open>FileLogger(log_lifecycle=...)\<close>\<close>
  | StdoutObs bool   \<comment> \<open>\<open>StdoutLogger(log_lifecycle=...)\<close>\<close>
  | MemoryObs        \<comment> \<open>\<open>InMemoryLogger\<close>\<close>
  | CustomObs "log_event \<Rightarrow> py_exc + out list" "lifecycle_event \<Rightarrow> py_exc + out list"

record observer =
  ob_kind :: obs_kind
  ob_min_level :: nat
  ob_out :: "out list"

definition new_observer :: "obs_kind \<Rightarrow> string \<Rightarrow> observer" where
  "new_observer k l = \<lparr>ob_kind = k, ob_min_level = level_weight l, ob_out = []\<rparr>"

definition should_log :: "observer \<Rightarrow> string \<Rightarrow> bool" where
  "should_log ob l \<longleftrightarrow> level_weight l \<ge> ob_min_level ob"

definition should_log_lifecycle :: "observer \<Rightarrow> lifecycle_event \<Rightarrow> bool" where
  "should_log_lifecycle ob ev \<longleftrightarrow> should_log ob (status_level (ev_status ev))"

definition bracket :: "string \<Rightarrow> string" where
  "bracket s = ''['' @ s @ '']''"

definition emit :: "out \<Rightarrow> observer \<Rightarrow> observer" where
  "emit x ob = ob\<lparr>ob_out := ob_out ob @ [x]\<rparr>"

text \<open>\<open>str.upper\<close> of an ASCII text.\<close>

definition upper :: "string \<Rightarrow> string" where
  "upper s = map (\<lambda>c. if CHR ''a'' \<le> c \<and> c \<le> CHR ''z'' then char_of ((of_char c :: nat) - 32) else c) s"

definition line_prefix :: "string \<Rightarrow> string \<Rightarrow> string" where
  "line_prefix tid fn = bracket (take 8 tid) @ '' '' @ bracket fn @ '' ''"

definition on_log :: "log_event \<Rightarrow> observer \<Rightarrow> py_exc + observer" where
  "on_log e ob =
     (case ob_kind ob of
        FileObs _ \<Rightarrow>
          if should_log ob (le_level e)
          then Inr (emit (LogLine (line_prefix (le_task_id e) (le_func_name e) @ le_message e)) ob)
          else Inr ob
      | StdoutObs _ \<Rightarrow>
          if should_log ob (le_level e)
          then Inr (emit (LifeLine (line_prefix (le_task_id e) (le_func_name e))
                                   (le_timestamp e) (le_message e)) ob)
          else Inr ob
      | MemoryObs \<Rightarrow>
          if should_log ob (le_level e) then Inr (emit (RecLog e) ob) else Inr ob
      | CustomObs f _ \<Rightarrow>
          (case f e of Inl x \<Rightarrow> Inl x | Inr out \<Rightarrow> Inr (ob\<lparr>ob_out := ob_out ob @ out\<rparr>)))"

definition on_lifecycle :: "lifecycle_event \<Rightarrow> observer \<Rightarrow> py_exc + observer" where
  "on_lifecycle e ob =
     (case ob_kind ob of
        FileObs life \<Rightarrow>
          if life \<and> should_log_lifecycle ob e
          then Inr (emit (LifeLine (line_prefix (ev_task_id e) (ev_func_name e))
                                   (ev_timestamp e) (upper (status_value (ev_status e)))) ob)
          else Inr ob
      | StdoutObs life \<Rightarrow>
          if life \<and> should_log_lifecycle ob e
          then Inr (emit (LifeLine (line_prefix (ev_task_id e) (ev_func_name e))
                                   (ev_timestamp e) (upper (status_value (ev_status e)))) ob)
          else Inr ob
      | MemoryObs \<Rightarrow> Inr (emit (RecLife e) ob)
      | CustomObs _ f \<Rightarrow>
          (case f e of Inl x \<Rightarrow> Inl x | Inr out \<Rightarrow> Inr (ob\<lparr>ob_out := ob_out ob @ out\<rparr>)))"

section \<open>The chain\<close>

text \<open>Each observer in order; an error of one is logged and the rest still get the event.\<close>

definition guarded :: "(observer \<Rightarrow> py_exc + observer) \<Rightarrow> observer \<Rightarrow> observer" where
  "guarded f ob = (case f ob of Inl _ \<Rightarrow> ob | Inr ob' \<Rightarrow> ob')"

definition chain_on_log :: "log_event \<Rightarrow> observer list \<Rightarrow> observer list" where
  "chain_on_log e obs = map (guarded (on_log e)) obs"

definition chain_on_lifecycle :: "lifecycle_event \<Rightarrow> observer list \<Rightarrow> observer list" where
  "chain_on_lifecycle e obs = map (guarded (on_lifecycle e)) obs"

lemma chain_isolated:
  "i < length obs \<Longrightarrow> on_lifecycle e (obs ! i) = Inr ob' \<Longrightarrow>
   chain_on_lifecycle e obs ! i = ob'"
  by (simp add: chain_on_lifecycle_def guarded_def)

lemma chain_log_isolated:
  "i < length obs \<Longrightarrow> on_log e (obs ! i) = Inr ob' \<Longrightarrow> chain_on_log e obs ! i = ob'"
  by (simp add: chain_on_log_def guarded_def)

lemma chain_length [simp]:
  "length (chain_on_log e obs) = length obs"
  "length (chain_on_lifecycle l obs) = length obs"
  by (simp_all add: chain_on_log_def chain_on_lifecycle_def)

end
