(* ===== verification/Core_Props.thy ===== *)
theory Core_Props
  imports Store Loggers
begin

text \<open>
  Properties of the data model, the registry, the in-memory store and the observer chain.
\<close>

definition ex_rec :: "string \<Rightarrow> task_status \<Rightarrow> task_record" where
  "ex_rec tid st =
     (new_record tid ''send'' [VInt 1] [] (Some ''k'') (Some [(''env'', ''prod'')]) None ''manual''
        (Some 3) (Some EAsync) ''default'' (utc_dt 7))\<lparr>status := st, end_time := Some (utc_dt 9)\<rparr>"

definition ex_st :: store where
  "ex_st = snd (store_create (ex_rec ''b'' RUNNING) (snd (store_create (ex_rec ''a'' FAILED) store_init)))"

lemma ex_st_wf: "store_wf ex_st"
  by (simp add: ex_st_def store_wf_create store_wf_init)

lemma ex_st_list: "store_list ex_st = [ex_rec ''a'' FAILED, ex_rec ''b'' RUNNING]"
  by (simp add: ex_st_def store_list_def store_create_def notify_change_def store_init_def
        ex_rec_def new_record_def)

text \<open>C34: A record sent to a peer as JSON and parsed there is the same record with its times in UTC,
  without the fields the JSON form leaves out.\<close>

theorem record_json_roundtrip:
  assumes "times_ok r"
  shows "from_dict (to_dict r) = Inr (display_record r)"
  using assms by (rule from_dict_to_dict)

lemma record_json_roundtrip_witness:
  "from_dict (to_dict (ex_rec ''a'' FAILED)) = Inr (display_record (ex_rec ''a'' FAILED))"
  by (rule record_json_roundtrip)
     (simp add: ex_rec_def new_record_def times_ok_def dt_ok_def utc_dt_def)

text \<open>The in-memory duplicate check finds a task exactly when some stored task has the key and has
  neither failed nor been interrupted.\<close>

lemma duplicate_check_exact:
  shows "find_by_idempotency_key k s \<noteq> None \<longleftrightarrow>
     (\<exists>r \<in> set (store_list s). idempotency_key r = Some k \<and> status r \<noteq> FAILED \<and> status r \<noteq> INTERRUPTED)"
  using find_by_key_None [of k s] by (auto simp: retryable_key_def)

text \<open>Once the shutdown sentinel is out, every event stream ends: whatever change notifications are
  still delivered, each subscriber queue holds exactly the sentinel.\<close>

lemma shutdown_reaches_subscribers:
  assumes "queues_ok s" and "q \<in> set (dvals (st_queues ((fan_out ^^ n) (notify_shutdown s))))"
  shows "q = [None]"
proof -
  have "\<forall>q \<in> set (dvals (st_queues (notify_shutdown s))). q = [None]"
    using shutdown_sentinel [OF assms(1)] by blast
  from fan_out_keeps_sentinel [OF this] show ?thesis using assms(2) by blast
qed

lemma shutdown_reaches_subscribers_witness:
  "dvals (st_queues ((fan_out ^^ 2) (notify_shutdown (fan_out (snd (add_subscriber ex_st)))))) = [[None]]"
proof -
  let ?s = "fan_out (snd (add_subscriber ex_st))"
  have "queues_ok ?s"
    by (intro queues_ok_fan_out queues_ok_add) (simp add: queues_ok_def ex_st_def store_create_def
        notify_change_def store_init_def)
  moreover have "length (dvals (st_queues ((fan_out ^^ 2) (notify_shutdown ?s)))) = 1" by code_simp
  ultimately show ?thesis
    using shutdown_reaches_subscribers [of ?s _ 2]
    by (cases "dvals (st_queues ((fan_out ^^ 2) (notify_shutdown ?s)))") auto
qed

text \<open>An observer that raises does not keep any other observer from its event.\<close>

lemma observers_isolated:
  assumes "i < length obs" and "on_lifecycle e (obs ! i) = Inr ob'"
  shows "chain_on_lifecycle e obs ! i = ob' \<and> length (chain_on_lifecycle e obs) = length obs"
  using assms by (simp add: chain_isolated)

definition ex_event :: lifecycle_event where
  "ex_event = \<lparr>ev_task_id = ''t'', ev_func_name = ''send'', ev_status = FAILED, ev_timestamp = utc_dt 1,
     ev_attempt = 0, ev_retries_used = 0, ev_duration = None, ev_error = None, ev_stacktrace = None,
     ev_tags = []\<rparr>"

definition raising_observer :: observer where
  "raising_observer = new_observer (CustomObs (\<lambda>e. Inl (ValueError ''x'')) (\<lambda>e. Inl (ValueError ''x''))) ''info''"

lemma observers_isolated_witness:
  "let obs = [raising_observer, new_observer MemoryObs ''info'']
   in chain_on_lifecycle ex_event obs ! 1 = emit (RecLife ex_event) (new_observer MemoryObs ''info'')
      \<and> length (chain_on_lifecycle ex_event obs) = length obs"
proof -
  have "on_lifecycle ex_event ([raising_observer, new_observer MemoryObs ''info''] ! 1)
          = Inr (emit (RecLife ex_event) (new_observer MemoryObs ''info''))"
    by (simp add: on_lifecycle_def new_observer_def)
  then show ?thesis
    using observers_isolated [of 1 "[raising_observer, new_observer MemoryObs ''info'']"] by (simp add: Let_def)
qed

end
