(* ===== verification/Executors.thy ===== *)
theory Executors
  imports Registry
begin

text \<open>
  \<^verbatim>\<open>src/fastapi_taskflow/executors/\<close> and \<open>_resolve_executor\<close> of the manager. The user's
  function is a parameter: what one call of it logs and how it ends is a \<open>call\<close>. An executor
  turns a call into the log lines the sink receives and the result the retry loop sees.
  The serialiser (cloudpickle or pickle) is a parameter too: it is available or not, and it
  accepts some arguments and refuses others.
\<close>

record log_call =
  lc_message :: string
  lc_level :: string
  lc_extra :: "(string, pyval) dict"

datatype call_end =
    CReturn
  | CRaise string string string  \<comment> \<open>type name, \<open>str(exc)\<close>, formatted traceback\<close>
  | CKeyboard string             \<comment> \<open>\<open>KeyboardInterrupt\<close> with its traceback\<close>
  | CDied string                 \<comment> \<open>the worker process died; the name of the pool's exception\<close>
  | CCancelled                   \<comment> \<open>\<open>asyncio.CancelledError\<close>\<close>

record call =
  cl_logs :: "log_call list"
  cl_end :: call_end

text \<open>
  What an awaited step of the pipeline ends with. \<open>Raised msg interrupted worker_tb\<close> is an
  \<open>Exception\<close> with its two optional attributes; \<open>Escaped\<close> is a \<open>BaseException\<close> nothing catches.
\<close>

datatype outcome =
    Done
  | Raised string bool "string option"
  | Cancelled
  | Escaped string

section \<open>Serialiser and validation\<close>

record pickler =
  pk_cloudpickle :: bool
  pk_accepts :: "pyargs \<Rightarrow> pykwargs \<Rightarrow> bool"

definition is_module_level :: "pyfunc \<Rightarrow> bool" where
  "is_module_level f \<longleftrightarrow> CHR ''.'' \<notin> set (fn_qualname f) \<and> CHR ''<'' \<notin> set (fn_qualname f)"

fun validate :: "pickler \<Rightarrow> exec_kind \<Rightarrow> pyfunc \<Rightarrow> py_exc + unit" where
  "validate pk EAsync f = (if fn_coro f then Inr () else Inl (ValueError (fn_name f)))"
| "validate pk EThread f = (if fn_coro f then Inl (ValueError (fn_name f)) else Inr ())"
| "validate pk EProcess f =
     (if pk_cloudpickle pk then Inr ()
      else if \<not> is_module_level f then Inl (ValueError (fn_name f)) else Inr ())"

fun validate_args :: "pickler \<Rightarrow> exec_kind \<Rightarrow> pyargs \<Rightarrow> pykwargs \<Rightarrow> py_exc + unit" where
  "validate_args pk EProcess as kw =
     (if pk_accepts pk as kw then Inr () else Inl (TaskArgumentError ''not serializable''))"
| "validate_args pk _ as kw = Inr ()"

definition resolve_executor :: "pyfunc \<Rightarrow> task_config \<Rightarrow> exec_kind" where
  "resolve_executor f c =
     (case tc_executor c of Some k \<Rightarrow> k | None \<Rightarrow> if fn_coro f then EAsync else EThread)"

section \<open>The process executor\<close>

text \<open>Pools are numbered in the order they are created.\<close>

record process_executor =
  pe_pool :: "nat option"
  pe_created :: nat
  pe_shutdown_called :: bool

definition process_executor_init :: process_executor where
  "process_executor_init = \<lparr>pe_pool = None, pe_created = 0, pe_shutdown_called = False\<rparr>"

definition ensure_pool :: "process_executor \<Rightarrow> py_exc + nat \<times> process_executor" where
  "ensure_pool p =
     (if pe_shutdown_called p
      then Inl (RuntimeError ''Cannot dispatch a process executor task after shutdown.'')
      else case pe_pool p of
             Some n \<Rightarrow> Inr (n, p)
           | None \<Rightarrow> Inr (pe_created p,
                        p\<lparr>pe_pool := Some (pe_created p), pe_created := Suc (pe_created p)\<rparr>))"

text \<open>What comes back over the pipe.\<close>

datatype worker_result =
    WorkerOutcome "log_call list"
  | WorkerException string string "log_call list" bool \<comment> \<open>the flag: \<open>_WorkerInterrupted\<close>\<close>
  | BrokenExecutor string
  | FutureCancelled

definition worker_entrypoint :: "call \<Rightarrow> worker_result" where
  "worker_entrypoint c =
     (case cl_end c of
        CReturn \<Rightarrow> WorkerOutcome (cl_logs c)
      | CKeyboard tb \<Rightarrow> WorkerException ''KeyboardInterrupt'' tb (cl_logs c) True
      | CRaise ty msg tb \<Rightarrow> WorkerException (ty @ '': '' @ msg) tb (cl_logs c) False
      | CDied name \<Rightarrow> BrokenExecutor name
      | CCancelled \<Rightarrow> FutureCancelled)"

definition process_dispatch ::
  "pickler \<Rightarrow> pyargs \<Rightarrow> pykwargs \<Rightarrow> string \<Rightarrow> call \<Rightarrow> process_executor
   \<Rightarrow> log_call list \<times> outcome \<times> process_executor" where
  "process_dispatch pk as kw tid c p =
     (case ensure_pool p of
        Inl _ \<Rightarrow> ([], Raised ''Cannot dispatch a process executor task after shutdown.'' False None, p)
      | Inr (n, p') \<Rightarrow>
          if \<not> pk_accepts pk as kw then ([], Raised ''not serializable'' False None, p')
          else case worker_entrypoint c of
                 WorkerOutcome ls \<Rightarrow> (ls, Done, p')
               | WorkerException e tb ls intr \<Rightarrow> (ls, Raised e intr (Some tb), p')
               | BrokenExecutor name \<Rightarrow>
                   ([], Raised (''Worker process for task '' @ tid @ '' died unexpectedly ('' @ name @ '')'')
                          False None, p'\<lparr>pe_pool := None\<rparr>)
               | FutureCancelled \<Rightarrow> ([], Cancelled, p'))"

definition process_shutdown :: "process_executor \<Rightarrow> process_executor" where
  "process_shutdown p = p\<lparr>pe_shutdown_called := True, pe_pool := None\<rparr>"

definition pool_is_alive :: "process_executor \<Rightarrow> bool" where
  "pool_is_alive p \<longleftrightarrow> pe_pool p \<noteq> None"

section \<open>The async and thread executors\<close>

text \<open>The sink is called while the function runs; errors propagate unchanged.\<close>

definition local_dispatch :: "call \<Rightarrow> log_call list \<times> outcome" where
  "local_dispatch c =
     (cl_logs c,
      case cl_end c of
        CReturn \<Rightarrow> Done
      | CRaise ty msg tb \<Rightarrow> Raised msg False None
      | CKeyboard tb \<Rightarrow> Escaped ''KeyboardInterrupt''
      | CDied name \<Rightarrow> Escaped name
      | CCancelled \<Rightarrow> Cancelled)"

definition dispatch ::
  "pickler \<Rightarrow> exec_kind \<Rightarrow> pyargs \<Rightarrow> pykwargs \<Rightarrow> string \<Rightarrow> call \<Rightarrow> process_executor
   \<Rightarrow> log_call list \<times> outcome \<times> process_executor" where
  "dispatch pk k as kw tid c p =
     (case k of
        EProcess \<Rightarrow> process_dispatch pk as kw tid c p
      | _ \<Rightarrow> (let (ls, out) = local_dispatch c in (ls, out, p)))"

section \<open>What the executors promise\<close>

lemma ensure_pool_ok:
  "ensure_pool p = Inr (n, p') \<Longrightarrow> pe_pool p' = Some n \<and> \<not> pe_shutdown_called p'"
  by (auto simp: ensure_pool_def split: if_splits option.splits)

lemma ensure_pool_reuses: "ensure_pool p = Inr (n, p') \<Longrightarrow> ensure_pool p' = Inr (n, p')"
  by (auto simp: ensure_pool_def split: if_splits option.splits)

lemma dispatch_after_shutdown:
  "dispatch pk EProcess as kw tid c (process_shutdown p)
     = ([], Raised ''Cannot dispatch a process executor task after shutdown.'' False None,
        process_shutdown p)"
  by (simp add: dispatch_def process_dispatch_def ensure_pool_def process_shutdown_def)

lemma process_shutdown_idem: "process_shutdown (process_shutdown p) = process_shutdown p"
  by (simp add: process_shutdown_def)

text \<open>After a worker died the next dispatch runs in a pool that did not exist before.\<close>

definition pools_wf :: "process_executor \<Rightarrow> bool" where
  "pools_wf p \<longleftrightarrow> (case pe_pool p of None \<Rightarrow> True | Some n \<Rightarrow> n < pe_created p)"

lemma pools_wf_ensure: "pools_wf p \<Longrightarrow> ensure_pool p = Inr (n, p') \<Longrightarrow> pools_wf p' \<and> n < pe_created p'"
  by (auto simp: pools_wf_def ensure_pool_def split: if_splits option.splits)

lemma pools_wf_dispatch:
  assumes "pools_wf p"
  shows "pools_wf (snd (snd (dispatch pk k as kw tid c p)))"
proof (cases "k = EProcess")
  case True
  show ?thesis
  proof (cases "ensure_pool p")
    case (Inr r)
    obtain n p' where r: "r = (n, p')" by (cases r)
    have w: "pools_wf p'" using pools_wf_ensure [OF assms] Inr r by simp
    then show ?thesis
      using True Inr r
      by (simp add: dispatch_def process_dispatch_def split: worker_result.splits)
         (simp add: pools_wf_def)
  qed (simp add: True dispatch_def process_dispatch_def assms)
next
  case False
  then show ?thesis using assms
    by (cases k) (simp_all add: dispatch_def local_dispatch_def)
qed

lemma died_resets_pool:
  assumes "pools_wf p" and "\<not> pe_shutdown_called p" and "pk_accepts pk as kw"
    and "cl_end c = CDied name"
  shows "case dispatch pk EProcess as kw tid c p of (ls, out, p1) \<Rightarrow>
           pe_pool p1 = None
           \<and> (case ensure_pool p1 of Inl _ \<Rightarrow> False
              | Inr (n, p2) \<Rightarrow> pe_pool p \<noteq> Some n)"
  using assms
  by (auto simp: dispatch_def process_dispatch_def ensure_pool_def worker_entrypoint_def
        pools_wf_def split: option.splits)

lemma resolve_executor_validates:
  "tc_executor c = None \<Longrightarrow> validate pk (resolve_executor f c) f = Inr ()"
  by (simp add: resolve_executor_def)

end
