(* ===== verification/Execution.thy ===== *)
theory Execution
  imports Store Loggers Executors Sqlite_Backend
begin

text \<open>
  \<^verbatim>\<open>src/fastapi_taskflow/middleware.py\<close> and \<^verbatim>\<open>src/fastapi_taskflow/executor.py\<close>: one run of a
  task through idempotency, logging and retry around the dispatch of the user's function.
  The execution context holds the handles the code keeps in \<open>ExecContext\<close> (store, backend,
  observers, running tasks, process pool) and, as parameters of a run, the clock
  (\<open>ec_clock n\<close> is the n-th reading of \<open>datetime.now\<close>) and the \<open>body\<close>: what the user's function
  does on each attempt, what other tasks do to the store meanwhile, whether a sleep is
  cancelled and whether the backend's idempotency calls fail.
\<close>

section \<open>Clock text\<close>

text \<open>\<open>strftime('%Y-%m-%dT%H:%M:%SZ')\<close> of a UTC time: the proleptic Gregorian date of a day number.\<close>

definition civil :: "int \<Rightarrow> int \<times> int \<times> int" where
  "civil days =
     (let z = days + 306; era = z div 146097; doe = z mod 146097;
          yoe = (doe - doe div 1460 + doe div 36524 - doe div 146096) div 365;
          doy = doe - (365 * yoe + yoe div 4 - yoe div 100);
          mp = (5 * doy + 2) div 153;
          m = (if mp < 10 then mp + 3 else mp - 9)
      in (yoe + era * 400 + (if m \<le> 2 then 1 else 0), m, doy - (153 * mp + 2) div 5 + 1))"

definition strftime_utc :: "datetime \<Rightarrow> string" where
  "strftime_utc d =
     (let s = dt_wall d div 1000000; (y, m, dd) = civil (s div 86400); r = s mod 86400;
          g = (\<lambda>w n. digits w (nat n))
      in g 4 y @ ''-'' @ g 2 m @ ''-'' @ g 2 dd @ ''T'' @ g 2 (r div 3600) @ '':''
         @ g 2 (r div 60 mod 60) @ '':'' @ g 2 (r mod 60) @ ''Z'')"

lemma civil_epochs: "civil 0 = (1, 1, 1)" "civil 719162 = (1970, 1, 1)" "civil 738944 = (2024, 2, 29)"
  by code_simp+

fun dec :: "nat \<Rightarrow> string" where
  "dec n = (if n < 10 then digits 1 n else dec (n div 10) @ digits 1 (n mod 10))"

declare dec.simps [simp del]

definition str_of_int :: "int \<Rightarrow> string" where
  "str_of_int i = (if i < 0 then ''-'' else []) @ dec (nat \<bar>i\<bar>)"

section \<open>The execution context\<close>

record body =
  bd_call :: "pyargs \<Rightarrow> pykwargs \<Rightarrow> int \<Rightarrow> call"
  bd_env :: "int \<Rightarrow> store \<Rightarrow> store"
  bd_sleep_cancelled :: "int \<Rightarrow> rat \<Rightarrow> bool"
  bd_sleep_env :: "int \<Rightarrow> store \<Rightarrow> store"
  bd_format_exc :: "string \<Rightarrow> string"
  bd_check_fails :: bool
  bd_record_fails :: bool
  bd_pickler :: pickler

text \<open>\<open>on_success\<close>: the scheduler's \<open>flush_one\<close>, given the time the backend stamps.\<close>

type_synonym on_success = "string \<Rightarrow> int \<Rightarrow> store \<Rightarrow> sqlite \<Rightarrow> sqlite"

record exec_ctx =
  ec_func :: pyfunc
  ec_task_id :: string
  ec_config :: task_config
  ec_store :: store
  ec_args :: pyargs
  ec_kwargs :: pykwargs
  ec_record :: "task_record option"
  ec_tags :: "(string, string) dict"
  ec_executor :: "exec_kind option"
  ec_backend :: "sqlite option"
  ec_on_success :: "on_success option"
  ec_logger :: "observer list option"
  ec_running :: "(string, exec_kind) dict option"
  ec_procs :: process_executor
  ec_attempt :: int
  ec_task_start :: datetime
  ec_attempt_start :: datetime
  ec_last_error :: "string option"
  ec_last_tb :: "string option"
  ec_succeeded :: bool
  ec_pending_log :: "log_event list"
  ec_sink :: bool
  ec_clock :: "nat \<Rightarrow> int"
  ec_ticks :: nat
  ec_body :: body

type_synonym step = "exec_ctx \<Rightarrow> outcome \<times> exec_ctx"
type_synonym middleware = "step \<Rightarrow> step"

definition ec_now :: "exec_ctx \<Rightarrow> datetime" where
  "ec_now c = utc_dt (ec_clock c (ec_ticks c))"

definition tick :: "exec_ctx \<Rightarrow> exec_ctx" where
  "tick c = c\<lparr>ec_ticks := Suc (ec_ticks c)\<rparr>"

definition ec_upd :: "(task_record \<Rightarrow> task_record) \<Rightarrow> exec_ctx \<Rightarrow> exec_ctx" where
  "ec_upd f c = c\<lparr>ec_store := upd (ec_task_id c) f (ec_store c)\<rparr>"

definition ec_fetch :: "exec_ctx \<Rightarrow> task_record option" where
  "ec_fetch c = store_get (ec_store c) (ec_task_id c)"

definition build_pipeline :: "middleware list \<Rightarrow> step \<Rightarrow> step" where
  "build_pipeline mws endpoint = foldr (\<lambda>mw next. mw next) mws endpoint"

text \<open>Pending observer futures deliver in the order they were scheduled.\<close>

definition drain_pending :: "exec_ctx \<Rightarrow> exec_ctx" where
  "drain_pending c =
     c\<lparr>ec_logger := map_option (fold chain_on_log (ec_pending_log c)) (ec_logger c),
       ec_pending_log := []\<rparr>"

definition lifecycle_obs :: "lifecycle_event \<Rightarrow> exec_ctx \<Rightarrow> exec_ctx" where
  "lifecycle_obs e c = c\<lparr>ec_logger := map_option (chain_on_lifecycle e) (ec_logger c)\<rparr>"

section \<open>Dispatch\<close>

definition sink_call :: "log_call \<Rightarrow> exec_ctx \<Rightarrow> exec_ctx" where
  "sink_call l c =
     (if \<not> ec_sink c then c
      else let ts = ec_now c;
               c1 = (tick c)\<lparr>ec_store :=
                      append_log (ec_task_id c) (strftime_utc ts @ '' '' @ lc_message l)
                        (ec_store c)\<rparr>
           in if ec_logger c = None then c1
              else c1\<lparr>ec_pending_log := ec_pending_log c1 @
                        [\<lparr>le_task_id = ec_task_id c, le_func_name = fn_name (ec_func c),
                          le_message = lc_message l, le_level = lc_level l, le_timestamp = ts,
                          le_attempt = ec_attempt c, le_tags = ec_tags c,
                          le_extra = lc_extra l\<rparr>]\<rparr>)"

definition implicit_kind :: "exec_ctx \<Rightarrow> exec_kind" where
  "implicit_kind c =
     (case ec_executor c of Some k \<Rightarrow> k | None \<Rightarrow> if fn_coro (ec_func c) then EAsync else EThread)"

definition dispatch_endpoint :: step where
  "dispatch_endpoint c =
     (let k = implicit_kind c;
          b = ec_body c;
          cl = bd_call b (ec_args c) (ec_kwargs c) (ec_attempt c);
          c1 = c\<lparr>ec_running := map_option (dset (ec_task_id c) k) (ec_running c)\<rparr>;
          (ls, out, ps) = dispatch (bd_pickler b) k (ec_args c) (ec_kwargs c) (ec_task_id c) cl
                            (ec_procs c1);
          c2 = c1\<lparr>ec_store := bd_env b (ec_attempt c) (ec_store c1), ec_procs := ps\<rparr>
      in (out, fold sink_call ls c2))"

section \<open>Retry\<close>

text \<open>Before an attempt: the state the sleep leaves, then the record of the retry.\<close>

definition retry_sleep :: "int \<Rightarrow> exec_ctx \<Rightarrow> exec_ctx" where
  "retry_sleep a c =
     (if a > 0
      then c\<lparr>ec_attempt := a, ec_store := bd_sleep_env (ec_body c) a (ec_store c)\<rparr>
      else c\<lparr>ec_attempt := a\<rparr>)"

definition retry_enter :: "int \<Rightarrow> exec_ctx \<Rightarrow> exec_ctx" where
  "retry_enter a c =
     (let c1 = (if a > 0
                then let c1 = ec_upd (\<lambda>r. r\<lparr>retries_used := a\<rparr>) c
                     in c1\<lparr>ec_store := append_log (ec_task_id c1)
                            (''--- Retry '' @ str_of_int a @ '' ---'') (ec_store c1)\<rparr>
                else c)
      in tick (c1\<lparr>ec_attempt_start := ec_now c1\<rparr>))"

text \<open>\<open>getattr(exc, '_worker_traceback', None) or traceback.format_exc()\<close>.\<close>

definition retry_failed :: "string \<Rightarrow> string option \<Rightarrow> exec_ctx \<Rightarrow> exec_ctx" where
  "retry_failed msg wtb c =
     (drain_pending c)\<lparr>ec_last_error := Some msg,
        ec_last_tb := Some (case nonempty wtb of
                              Some t \<Rightarrow> t | None \<Rightarrow> bd_format_exc (ec_body c) msg)\<rparr>"

definition retry_succeeded :: "exec_ctx \<Rightarrow> exec_ctx" where
  "retry_succeeded c = (drain_pending c)\<lparr>ec_last_error := None, ec_last_tb := None\<rparr>"

text \<open>\<open>for attempt in range(retries + 1)\<close>; \<open>n\<close> attempts are left.\<close>

fun retry_loop :: "nat \<Rightarrow> int \<Rightarrow> rat \<Rightarrow> step \<Rightarrow> step" where
  "retry_loop 0 a delay next c = (Done, c)"
| "retry_loop (Suc n) a delay next c =
     (if a > 0 \<and> bd_sleep_cancelled (ec_body c) a delay then (Cancelled, retry_sleep a c)
      else
        let (out, c1) = next (retry_enter a (retry_sleep a c))
        in case out of
             Done \<Rightarrow> (Done, retry_succeeded c1)
           | Cancelled \<Rightarrow> (Cancelled, drain_pending c1)
           | Escaped e \<Rightarrow> (Escaped e, c1)
           | Raised msg interrupted wtb \<Rightarrow>
               if interrupted then (Done, c1)
               else retry_loop n (a + 1)
                      (if a > 0 then delay * tc_backoff (ec_config c) else delay) next
                      (retry_failed msg wtb c1))"

definition retry_middleware :: middleware where
  "retry_middleware next c =
     retry_loop (nat (tc_retries (ec_config c) + 1)) 0 (tc_delay (ec_config c)) next c"

section \<open>Logging and finalisation\<close>

definition lifecycle_of ::
  "exec_ctx \<Rightarrow> task_status \<Rightarrow> datetime \<Rightarrow> int \<Rightarrow> rat option \<Rightarrow> string option \<Rightarrow> string option
   \<Rightarrow> lifecycle_event" where
  "lifecycle_of c st ts att dur err tb =
     \<lparr>ev_task_id = ec_task_id c, ev_func_name = fn_name (ec_func c), ev_status = st,
      ev_timestamp = ts, ev_attempt = att, ev_retries_used = att, ev_duration = dur,
      ev_error = err, ev_stacktrace = tb, ev_tags = ec_tags c\<rparr>"

definition elapsed :: "exec_ctx \<Rightarrow> datetime \<Rightarrow> rat" where
  "elapsed c e = of_int (instant e - instant (ec_attempt_start c)) / 1000000"

definition run_on_success :: "exec_ctx \<Rightarrow> exec_ctx" where
  "run_on_success c =
     (case ec_on_success c of
        None \<Rightarrow> c
      | Some f \<Rightarrow> (tick c)\<lparr>ec_backend :=
                     map_option (f (ec_task_id c) (ec_clock c (ec_ticks c)) (ec_store c))
                       (ec_backend c)\<rparr>)"

definition log_enter :: "exec_ctx \<Rightarrow> exec_ctx" where
  "log_enter c =
     (let now = ec_now c;
          c1 = ec_upd (\<lambda>r. r\<lparr>status := RUNNING, start_time := Some now\<rparr>)
                 ((tick c)\<lparr>ec_task_start := now, ec_attempt_start := now\<rparr>)
      in lifecycle_obs (lifecycle_of c1 RUNNING now 0 None None None) (c1\<lparr>ec_sink := True\<rparr>))"

definition log_cancelled :: "exec_ctx \<Rightarrow> exec_ctx" where
  "log_cancelled c0 =
     (let c = drain_pending c0; e = ec_now c; c1 = tick c
      in case ec_fetch c1 of
           None \<Rightarrow> c1
         | Some r \<Rightarrow>
             if status r \<noteq> RUNNING then c1
             else if st_shutting_down (ec_store c1) \<and> tc_requeue_on_interrupt (ec_config c1)
               then ec_upd (\<lambda>r. r\<lparr>status := PENDING\<rparr>) c1
             else if st_shutting_down (ec_store c1) then c1
             else let c2 = ec_upd (\<lambda>r. r\<lparr>status := CANCELLED, end_time := Some e\<rparr>) c1
                  in run_on_success
                       (lifecycle_obs (lifecycle_of c2 CANCELLED e (ec_attempt c2)
                                         (Some (elapsed c2 e)) None None) c2))"

definition log_finish :: "exec_ctx \<Rightarrow> exec_ctx" where
  "log_finish c =
     (let e = ec_now c; c1 = tick c
      in case ec_last_error c1 of
           None \<Rightarrow>
             let c2 = ec_upd (\<lambda>r. r\<lparr>status := SUCCESS, end_time := Some e\<rparr>)
                        (c1\<lparr>ec_succeeded := True\<rparr>)
             in run_on_success
                  (lifecycle_obs (lifecycle_of c2 SUCCESS e (ec_attempt c2)
                                    (Some (elapsed c2 e)) None None) c2)
         | Some err \<Rightarrow>
             if (case ec_fetch c1 of None \<Rightarrow> False | Some r \<Rightarrow> status r \<noteq> RUNNING) then c1
             else let c2 = ec_upd (\<lambda>r. r\<lparr>status := FAILED, end_time := Some e,
                                        error := Some err, stacktrace := ec_last_tb c1\<rparr>) c1
                  in lifecycle_obs (lifecycle_of c2 FAILED e (tc_retries (ec_config c2))
                                      (Some (elapsed c2 e)) (Some err) (ec_last_tb c2)) c2)"

definition logging_middleware :: middleware where
  "logging_middleware next c =
     (let (out, c1) = next (log_enter c)
      in case out of
           Done \<Rightarrow> (Done, log_finish c1)
         | Cancelled \<Rightarrow> (Cancelled, log_cancelled c1)
         | _ \<Rightarrow> (out, c1))"

section \<open>Idempotency\<close>

text \<open>The key when the record has a non-empty one and a backend is configured.\<close>

definition idem_key :: "exec_ctx \<Rightarrow> string option" where
  "idem_key c =
     (case ec_record c of
        None \<Rightarrow> None
      | Some r \<Rightarrow> if ec_backend c = None then None else nonempty (idempotency_key r))"

definition existing_id :: "exec_ctx \<Rightarrow> string option" where
  "existing_id c =
     (case (idem_key c, ec_backend c) of
        (Some k, Some b) \<Rightarrow>
          if bd_check_fails (ec_body c) then None else sq_check_idempotency_key b k
      | _ \<Rightarrow> None)"

definition record_key :: "exec_ctx \<Rightarrow> exec_ctx" where
  "record_key c =
     (case idem_key c of
        Some k \<Rightarrow>
          if ec_succeeded c \<and> \<not> bd_record_fails (ec_body c)
          then c\<lparr>ec_backend :=
                   map_option (sq_record_idempotency_key k (ec_task_id c)) (ec_backend c)\<rparr>
          else c
      | None \<Rightarrow> c)"

definition mark_duplicate :: "exec_ctx \<Rightarrow> exec_ctx" where
  "mark_duplicate c =
     (let now = ec_now c
      in ec_upd (\<lambda>r. r\<lparr>status := SUCCESS, start_time := Some now, end_time := Some now\<rparr>) (tick c))"

definition idempotency_middleware :: middleware where
  "idempotency_middleware next c =
     (if existing_id c \<noteq> None \<and> existing_id c \<noteq> Some (ec_task_id c)
      then (Done, mark_duplicate c)
      else let (out, c1) = next c
           in case out of Done \<Rightarrow> (Done, record_key c1) | _ \<Rightarrow> (out, c1))"

definition default_middleware :: "middleware list" where
  "default_middleware = [idempotency_middleware, logging_middleware, retry_middleware]"

section \<open>Running a task\<close>

text \<open>
  Fernet is a third-party package: \<open>ci_seal n\<close> is the token of the pickled arguments under the
  n-th nonce, \<open>ci_open\<close> its inverse (\<open>None\<close>: \<open>InvalidToken\<close>).
\<close>

record cipher =
  ci_seal :: "nat \<Rightarrow> pyargs \<times> pykwargs \<Rightarrow> string"
  ci_open :: "string \<Rightarrow> (pyargs \<times> pykwargs) option"

definition actual_args ::
  "task_record option \<Rightarrow> cipher option \<Rightarrow> pyargs \<Rightarrow> pykwargs \<Rightarrow> (pyargs \<times> pykwargs) option" where
  "actual_args r ci as kw =
     (case (r, ci) of
        (Some t, Some ci) \<Rightarrow>
          (case encrypted_payload t of None \<Rightarrow> Some (as, kw) | Some p \<Rightarrow> ci_open ci p)
      | _ \<Rightarrow> Some (as, kw))"

text \<open>The zero-argument closure of \<open>make_background_func\<close>: the arguments \<open>execute_task\<close> gets.\<close>

record job =
  jb_func :: pyfunc
  jb_task_id :: string
  jb_config :: task_config
  jb_args :: pyargs
  jb_kwargs :: pykwargs
  jb_executor :: "exec_kind option"
  jb_backend :: bool  \<comment> \<open>\<open>backend\<close> and \<open>on_success\<close> were passed\<close>

record handles =
  hd_store :: store
  hd_backend :: "sqlite option"
  hd_on_success :: "on_success option"
  hd_logger :: "observer list option"
  hd_running :: "(string, exec_kind) dict option"
  hd_procs :: process_executor
  hd_cipher :: "cipher option"
  hd_clock :: "nat \<Rightarrow> int"
  hd_ticks :: nat

definition make_ctx ::
  "job \<Rightarrow> body \<Rightarrow> handles \<Rightarrow> pyargs \<times> pykwargs \<Rightarrow> exec_ctx" where
  "make_ctx j b h a =
     \<lparr>ec_func = jb_func j, ec_task_id = jb_task_id j, ec_config = jb_config j,
      ec_store = hd_store h, ec_args = fst a, ec_kwargs = snd a,
      ec_record = store_get (hd_store h) (jb_task_id j),
      ec_tags = (case store_get (hd_store h) (jb_task_id j) of None \<Rightarrow> [] | Some r \<Rightarrow> tags r),
      ec_executor = jb_executor j,
      ec_backend = (if jb_backend j then hd_backend h else None),
      ec_on_success = (if jb_backend j then hd_on_success h else None),
      ec_logger = hd_logger h, ec_running = hd_running h, ec_procs = hd_procs h,
      ec_attempt = 0, ec_task_start = utc_dt (hd_clock h (hd_ticks h)),
      ec_attempt_start = utc_dt (hd_clock h (Suc (hd_ticks h))),
      ec_last_error = None, ec_last_tb = None, ec_succeeded = False, ec_pending_log = [],
      ec_sink = False, ec_clock = hd_clock h, ec_ticks = Suc (Suc (hd_ticks h)), ec_body = b\<rparr>"

definition release_ctx :: "job \<Rightarrow> exec_ctx \<Rightarrow> handles \<Rightarrow> handles" where
  "release_ctx j c h =
     h\<lparr>hd_store := ec_store c,
       hd_backend := (if jb_backend j then ec_backend c else hd_backend h),
       hd_logger := ec_logger c,
       hd_running := map_option (dpop (jb_task_id j)) (ec_running c),
       hd_procs := ec_procs c, hd_ticks := ec_ticks c\<rparr>"

definition pipeline :: step where
  "pipeline = build_pipeline default_middleware dispatch_endpoint"

definition execute_task :: "job \<Rightarrow> body \<Rightarrow> handles \<Rightarrow> outcome \<times> handles" where
  "execute_task j b h =
     (case actual_args (store_get (hd_store h) (jb_task_id j)) (hd_cipher h) (jb_args j) (jb_kwargs j) of
        None \<Rightarrow> (Raised ''InvalidToken'' False None, h)
      | Some a \<Rightarrow>
          (let (out, c) = pipeline (make_ctx j b h a) in (out, release_ctx j c h)))"

lemma pipeline_unfold:
  "pipeline = idempotency_middleware (logging_middleware (retry_middleware dispatch_endpoint))"
  by (simp add: pipeline_def build_pipeline_def default_middleware_def)

end
