(* ===== verification/Auth.thy ===== *)
theory Auth
  imports Execution
begin

text \<open>
  \<^verbatim>\<open>src/fastapi_taskflow/auth.py\<close>: credential checks, the signed session token of the dashboard and
  the guard of the API routes. HMAC-SHA256 is a parameter \<open>mac secret message\<close>. The URL-safe base 64
  of the standard library is written out, with the decoder's tolerance of foreign characters. The
  payload is JSON text: \<open>payload_text\<close> is what \<open>json.dumps\<close> writes for it, \<open>parse_payload\<close> reads
  objects whose values are strings, integers and constants; other payloads (floats, nested values,
  raw non-ASCII text, an \<open>exp\<close> or \<open>sub\<close> of another type) are refused here, and only a holder of
  the secret can have them signed.
  A character is a code point below 256. Times are whole seconds since 1970.
\<close>

section \<open>Credentials\<close>

type_synonym auth_backend = "string \<Rightarrow> string \<Rightarrow> py_exc + bool"

definition ascii :: "string \<Rightarrow> bool" where
  "ascii s \<longleftrightarrow> list_all (\<lambda>c. (of_char c :: nat) < 128) s"

text \<open>\<open>hmac.compare_digest\<close> on two \<open>str\<close> values: \<open>TypeError\<close> unless both are ASCII.\<close>

definition compare_digest :: "string \<Rightarrow> string \<Rightarrow> py_exc + bool" where
  "compare_digest a b =
     (if ascii a \<and> ascii b then Inr (a = b)
      else Inl (TypeError ''comparing strings with non-ASCII characters is not supported''))"

definition simple_auth_store :: "(string \<times> string) list \<Rightarrow> (string, string) dict" where
  "simple_auth_store creds = fold (\<lambda>(u, p). dset u p) creds []"

definition simple_auth :: "(string \<times> string) list \<Rightarrow> auth_backend" where
  "simple_auth creds u p =
     (case dget (simple_auth_store creds) u of
        None \<Rightarrow> Inr False | Some expected \<Rightarrow> compare_digest expected p)"

datatype auth_arg =
    NoAuth
  | BackendArg auth_backend
  | PairArg string string
  | ListArg "(string \<times> string) list"
  | OtherArg

fun resolve_backend :: "auth_arg \<Rightarrow> py_exc + auth_backend option" where
  "resolve_backend NoAuth = Inr None"
| "resolve_backend (BackendArg b) = Inr (Some b)"
| "resolve_backend (PairArg u p) = Inr (Some (simple_auth [(u, p)]))"
| "resolve_backend (ListArg creds) = Inr (Some (simple_auth creds))"
| "resolve_backend OtherArg = Inl (TypeError ''auth must be a (username, password) tuple'')"

section \<open>Base 64\<close>

definition b64_alphabet :: string where
  "b64_alphabet = ''ABCDEFGHIJKLMNOPQRSTUVWXYZabcdefghijklmnopqrstuvwxyz0123456789-_''"

definition b64_char :: "nat \<Rightarrow> char" where
  "b64_char v = b64_alphabet ! v"

definition b64_value :: "char \<Rightarrow> nat option" where
  "b64_value c =
     (if c = CHR ''+'' then Some 62 else if c = CHR ''/'' then Some 63
      else map_of (zip b64_alphabet [0..<64]) c)"

fun encode64 :: "nat list \<Rightarrow> nat list" where
  "encode64 [] = []"
| "encode64 [a] = [a div 4, a mod 4 * 16]"
| "encode64 [a, b] = [a div 4, a mod 4 * 16 + b div 16, b mod 16 * 4]"
| "encode64 (a # b # c # r) =
     (a div 4) # (a mod 4 * 16 + b div 16) # (b mod 16 * 4 + c div 64) # (c mod 64) # encode64 r"

definition b64url_encode :: "string \<Rightarrow> string" where
  "b64url_encode s = map b64_char (encode64 (map of_char s))"

text \<open>
  \<open>binascii.a2b_base64\<close>, not strict: \<open>Qn l\<close> has read \<open>n\<close> characters of a group and keeps the bits
  \<open>l\<close> not written yet. Foreign characters are skipped; a complete padding ends the text.
\<close>

datatype quad = Q0 | Q1 nat | Q2 nat | Q3 nat

fun a2b :: "quad \<Rightarrow> nat \<Rightarrow> string \<Rightarrow> nat list option" where
  "a2b q pads [] = (case q of Q0 \<Rightarrow> Some [] | _ \<Rightarrow> None)"
| "a2b q pads (c # cs) =
     (if c = CHR ''=''
      then (case q of
              Q2 l \<Rightarrow> if pads + 1 \<ge> 2 then Some [] else a2b q (pads + 1) cs
            | Q3 l \<Rightarrow> Some []
            | _ \<Rightarrow> a2b q pads cs)
      else case b64_value c of
             None \<Rightarrow> a2b q pads cs
           | Some v \<Rightarrow>
               (case q of
                  Q0 \<Rightarrow> a2b (Q1 v) 0 cs
                | Q1 l \<Rightarrow> map_option (Cons (l * 4 + v div 16)) (a2b (Q2 (v mod 16)) 0 cs)
                | Q2 l \<Rightarrow> map_option (Cons (l * 16 + v div 4)) (a2b (Q3 (v mod 4)) 0 cs)
                | Q3 l \<Rightarrow> map_option (Cons (l * 64 + v)) (a2b Q0 0 cs)))"

definition b64url_decode :: "string \<Rightarrow> string option" where
  "b64url_decode s =
     map_option (map char_of)
       (a2b Q0 0 (s @ replicate ((4 - length s mod 4) mod 4) (CHR ''='')))"

section \<open>The payload\<close>

definition hex_alphabet :: string where "hex_alphabet = ''0123456789abcdef''"

definition hex_value :: "char \<Rightarrow> nat option" where
  "hex_value c =
     map_of (zip (hex_alphabet @ ''ABCDEF'') [0,1,2,3,4,5,6,7,8,9,10,11,12,13,14,15,10,11,12,13,14,15]) c"

definition escapes :: "(char, char) dict" where
  "escapes = [(CHR 0x22, CHR 0x22), (CHR 0x5C, CHR 0x5C), (CHR 0x08, CHR ''b''),
              (CHR 0x0C, CHR ''f''), (CHR 0x0A, CHR ''n''), (CHR 0x0D, CHR ''r''), (CHR 0x09, CHR ''t'')]"

definition unescapes :: "(char, char) dict" where
  "unescapes = (CHR ''/'', CHR ''/'') # map (\<lambda>(a, b). (b, a)) escapes"

definition printable :: "char \<Rightarrow> bool" where
  "printable c \<longleftrightarrow> 32 \<le> (of_char c :: nat) \<and> (of_char c :: nat) \<le> 126"

definition escape :: "char \<Rightarrow> string" where
  "escape c =
     (case dget escapes c of
        Some e \<Rightarrow> [CHR 0x5C, e]
      | None \<Rightarrow>
          if printable c then [c]
          else [CHR 0x5C, CHR ''u'', CHR ''0'', CHR ''0'', hex_alphabet ! (of_char c div 16),
                hex_alphabet ! (of_char c mod 16)])"

definition quote :: "string \<Rightarrow> string" where
  "quote s = CHR 0x22 # concat (map escape s) @ [CHR 0x22]"

definition payload_text :: "int \<Rightarrow> string \<Rightarrow> string" where
  "payload_text e user =
     ''{'' @ quote ''exp'' @ '': '' @ str_of_int e
     @ (if user = [] then [] else '', '' @ quote ''sub'' @ '': '' @ quote user) @ ''}''"

definition is_space :: "char \<Rightarrow> bool" where
  "is_space c \<longleftrightarrow> c \<in> {CHR '' '', CHR 0x09, CHR 0x0A, CHR 0x0D}"

definition ws :: "string \<Rightarrow> string" where
  "ws s = dropWhile is_space s"

text \<open>The rest of a string literal, after its opening quote.\<close>

fun p_str :: "string \<Rightarrow> (string \<times> string) option" where
  "p_str [] = None"
| "p_str (c # cs) =
     (if c = CHR 0x22 then Some ([], cs)
      else if c = CHR 0x5C then
        (case cs of
           [] \<Rightarrow> None
         | e # r \<Rightarrow>
             if e = CHR ''u'' then
               (case r of
                  h1 # h2 # h3 # h4 # r' \<Rightarrow>
                    (case (hex_value h1, hex_value h2, hex_value h3, hex_value h4) of
                       (Some 0, Some 0, Some a, Some b) \<Rightarrow>
                         map_option (\<lambda>(s, t). (char_of (16 * a + b) # s, t)) (p_str r')
                     | _ \<Rightarrow> None)
                | _ \<Rightarrow> None)
             else (case dget unescapes e of
                     None \<Rightarrow> None
                   | Some d \<Rightarrow> map_option (\<lambda>(s, t). (d # s, t)) (p_str r)))
      else if (of_char c :: nat) < 32 \<or> (of_char c :: nat) \<ge> 128 then None
      else map_option (\<lambda>(s, t). (c # s, t)) (p_str cs))"

definition is_digit :: "char \<Rightarrow> bool" where
  "is_digit c \<longleftrightarrow> 48 \<le> (of_char c :: nat) \<and> (of_char c :: nat) \<le> 57"

definition p_nat :: "string \<Rightarrow> (nat \<times> string) option" where
  "p_nat s =
     (let d = takeWhile is_digit s; r = dropWhile is_digit s
      in if d = [] \<or> hd d = CHR ''0'' \<and> length d > 1 then None
         else if r \<noteq> [] \<and> hd r \<in> {CHR ''.'', CHR ''e'', CHR ''E''} then None
         else Some (undigits d, r))"

definition p_int :: "string \<Rightarrow> (int \<times> string) option" where
  "p_int s =
     (case s of
        [] \<Rightarrow> None
      | c # cs \<Rightarrow> if c = CHR ''-'' then map_option (\<lambda>(n, t). (- int n, t)) (p_nat cs)
                  else map_option (\<lambda>(n, t). (int n, t)) (p_nat s))"

definition p_value :: "string \<Rightarrow> (pyval \<times> string) option" where
  "p_value s =
     (if s \<noteq> [] \<and> hd s = CHR 0x22 then map_option (\<lambda>(x, t). (VStr x, t)) (p_str (tl s))
      else if take 4 s = ''null'' then Some (VNone, drop 4 s)
      else if take 4 s = ''true'' then Some (VBool True, drop 4 s)
      else if take 5 s = ''false'' then Some (VBool False, drop 5 s)
      else map_option (\<lambda>(i, t). (VInt i, t)) (p_int s))"

text \<open>The members of an object after a key is expected; the fuel is the length of the text.\<close>

fun p_members :: "nat \<Rightarrow> string \<Rightarrow> ((string, pyval) dict \<times> string) option" where
  "p_members 0 s = None"
| "p_members (Suc n) s =
     (case s of
        [] \<Rightarrow> None
      | c # cs \<Rightarrow>
          if c \<noteq> CHR 0x22 then None
          else case p_str cs of
            None \<Rightarrow> None
          | Some (k, t) \<Rightarrow>
              (case ws t of
                 [] \<Rightarrow> None
               | c # t \<Rightarrow>
                   if c \<noteq> CHR '':'' then None
                   else case p_value (ws t) of
                     None \<Rightarrow> None
                   | Some (v, t) \<Rightarrow>
                       (case ws t of
                          [] \<Rightarrow> None
                        | c # t \<Rightarrow>
                            if c = CHR ''}'' then Some ([(k, v)], t)
                            else if c = CHR '','' then map_option (\<lambda>(d, t). ((k, v) # d, t)) (p_members n (ws t))
                            else None)))"

text \<open>A repeated key keeps the last value.\<close>

definition parse_payload :: "string \<Rightarrow> (string, pyval) dict option" where
  "parse_payload s0 =
     (let s = ws s0
      in if s = [] \<or> hd s \<noteq> CHR ''{'' then None
         else let t = ws (tl s)
              in case (if t \<noteq> [] \<and> hd t = CHR ''}'' then Some ([], tl t) else p_members (length t) t) of
                   None \<Rightarrow> None
                 | Some (d, r) \<Rightarrow> if ws r = [] then Some (fold (\<lambda>(k, v). dset k v) d []) else None)"

section \<open>Tokens\<close>

type_synonym mac_fun = "string \<Rightarrow> string \<Rightarrow> string"

text \<open>\<open>token.split('.')\<close>.\<close>

fun split_dots :: "string \<Rightarrow> string list" where
  "split_dots [] = [[]]"
| "split_dots (c # cs) =
     (if c = CHR ''.'' then [] # split_dots cs
      else case split_dots cs of [] \<Rightarrow> [[c]] | p # ps \<Rightarrow> (c # p) # ps)"

definition jwt_header :: string where
  "jwt_header = ''{'' @ quote ''alg'' @ '':'' @ quote ''HS256'' @ '','' @ quote ''typ'' @ '':''
     @ quote ''JWT'' @ ''}''"

definition create_token :: "mac_fun \<Rightarrow> string \<Rightarrow> int \<Rightarrow> string \<Rightarrow> int \<Rightarrow> string" where
  "create_token mac secret expiry user now =
     (let inp = b64url_encode jwt_header @ ''.'' @ b64url_encode (payload_text (now + expiry) user)
      in inp @ ''.'' @ b64url_encode (mac secret inp))"

text \<open>\<open>payload.get('exp', 0)\<close> converted by \<open>int\<close>; a value \<open>int\<close> refuses is an exception, so \<open>None\<close>.\<close>

fun py_int :: "pyval \<Rightarrow> int option" where
  "py_int (VInt i) = Some i"
| "py_int (VBool b) = Some (if b then 1 else 0)"
| "py_int _ = None"

definition expiry_of :: "string \<Rightarrow> int option" where
  "expiry_of part =
     (case b64url_decode part of
        None \<Rightarrow> None
      | Some s \<Rightarrow> (case parse_payload s of
                     None \<Rightarrow> None
                   | Some d \<Rightarrow> (case dget d ''exp'' of None \<Rightarrow> Some 0 | Some v \<Rightarrow> py_int v)))"

definition verify_token :: "mac_fun \<Rightarrow> string \<Rightarrow> string \<Rightarrow> int \<Rightarrow> bool" where
  "verify_token mac secret tok now =
     (case split_dots tok of
        [h, b, s] \<Rightarrow>
          if b64url_encode (mac secret (h @ ''.'' @ b)) \<noteq> s then False
          else (case expiry_of b of None \<Rightarrow> False | Some e \<Rightarrow> e > now)
      | _ \<Rightarrow> False)"

definition decode_token :: "string \<Rightarrow> string" where
  "decode_token tok =
     (case split_dots tok of
        [h, b, s] \<Rightarrow>
          (case b64url_decode b of
             None \<Rightarrow> ''anonymous''
           | Some t \<Rightarrow>
               (case parse_payload t of
                  None \<Rightarrow> ''anonymous''
                | Some d \<Rightarrow> (case dget d ''sub'' of
                               Some (VStr u) \<Rightarrow> if u = [] then ''anonymous'' else u
                             | _ \<Rightarrow> ''anonymous'')))
      | _ \<Rightarrow> ''anonymous'')"

section \<open>Guard and login\<close>

text \<open>The cookie of the request, \<open>''\<close> when absent.\<close>

definition api_guard :: "mac_fun \<Rightarrow> string \<Rightarrow> string \<Rightarrow> int \<Rightarrow> py_exc + unit" where
  "api_guard mac secret cookie now =
     (if verify_token mac secret cookie now then Inr () else Inl (HttpError 401 ''Unauthorized''))"

text \<open>\<open>_actor\<close> of \<^verbatim>\<open>src/fastapi_taskflow/router.py\<close>.\<close>

definition actor_of :: "string option \<Rightarrow> string \<Rightarrow> string" where
  "actor_of secret cookie = (case secret of None \<Rightarrow> ''anonymous'' | Some _ \<Rightarrow> decode_token cookie)"

datatype login_reply = LoggedIn string string | LoginPage nat string

definition login ::
  "mac_fun \<Rightarrow> auth_backend \<Rightarrow> string \<Rightarrow> int \<Rightarrow> string \<Rightarrow> string \<Rightarrow> string \<Rightarrow> int \<Rightarrow> py_exc + login_reply"
  where
  "login mac backend secret expiry prefix user pw now =
     (case backend user pw of
        Inl e \<Rightarrow> Inl e
      | Inr ok \<Rightarrow>
          if ok then Inr (LoggedIn (prefix @ ''/dashboard'') (create_token mac secret expiry user now))
          else Inr (LoginPage 401 ''Invalid username or password.''))"

section \<open>Base 64 round trip\<close>

lemma b64_alphabet_facts:
  "length b64_alphabet = 64" "distinct b64_alphabet"
  "set b64_alphabet \<inter> {CHR ''+'', CHR ''/'', CHR ''='', CHR ''.''} = {}"
  by (simp_all add: b64_alphabet_def)

lemma b64_value_char:
  assumes "v < 64"
  shows "b64_value (b64_char v) = Some v" "b64_char v \<noteq> CHR ''=''" "b64_char v \<noteq> CHR ''.''"
proof -
  have m: "b64_char v \<in> set b64_alphabet"
    using assms b64_alphabet_facts(1) by (simp add: b64_char_def)
  then show "b64_char v \<noteq> CHR ''=''" "b64_char v \<noteq> CHR ''.''"
    using b64_alphabet_facts(3) by auto
  have "b64_char v \<noteq> CHR ''+''" "b64_char v \<noteq> CHR ''/''"
    using m b64_alphabet_facts(3) by auto
  moreover have "map_of (zip b64_alphabet [0..<64]) (b64_alphabet ! v) = Some ([0..<64] ! v)"
    using assms b64_alphabet_facts by (intro map_of_zip_nth) auto
  ultimately show "b64_value (b64_char v) = Some v"
    using assms by (simp add: b64_value_def b64_char_def)
qed

lemma encode64_less: "\<forall>x \<in> set xs. x < 256 \<Longrightarrow> \<forall>v \<in> set (encode64 xs). v < 64"
  by (induction xs rule: encode64.induct) (auto simp: less_mult_imp_div_less div_less)

lemma a2b_char:
  "v < 64 \<Longrightarrow> a2b q p (b64_char v # cs) =
     (case q of
        Q0 \<Rightarrow> a2b (Q1 v) 0 cs
      | Q1 l \<Rightarrow> map_option (Cons (l * 4 + v div 16)) (a2b (Q2 (v mod 16)) 0 cs)
      | Q2 l \<Rightarrow> map_option (Cons (l * 16 + v div 4)) (a2b (Q3 (v mod 4)) 0 cs)
      | Q3 l \<Rightarrow> map_option (Cons (l * 64 + v)) (a2b Q0 0 cs))"
  by (simp add: b64_value_char)

lemma a2b_pad:
  "a2b (Q2 l) 0 [CHR ''='', CHR ''=''] = Some []" "a2b (Q3 l) p [CHR ''=''] = Some []"
  by simp_all

declare a2b.simps(2) [simp del]

lemma glue: "y < k \<Longrightarrow> (x * k + y) div k = x \<and> (x * k + y) mod k = (y::nat)"
  by (cases "k = 0") (auto simp: div_mult_self3)

lemma b64_bounds:
  "a < 256 \<Longrightarrow> a div 4 < (64::nat)" "b < 256 \<Longrightarrow> b div 16 < (16::nat)" "c < 256 \<Longrightarrow> c div 64 < (4::nat)"
  "b < 256 \<Longrightarrow> a mod 4 * 16 + b div 16 < (64::nat)" "c < 256 \<Longrightarrow> b mod 16 * 4 + c div 64 < (64::nat)"
  "c mod 64 < (64::nat)" "a mod 4 * 16 < (64::nat)" "b mod 16 * 4 < (64::nat)"
  by linarith+

lemma b64_glue:
  "b < 256 \<Longrightarrow> a div 4 * 4 + (a mod 4 * 16 + b div 16) div 16 = (a::nat)"
  "b < 256 \<Longrightarrow> c < 256 \<Longrightarrow>
     (a mod 4 * 16 + b div 16) mod 16 * 16 + (b mod 16 * 4 + c div 64) div 4 = (b::nat)"
  "c < 256 \<Longrightarrow> (b mod 16 * 4 + c div 64) mod 4 * 64 + c mod 64 = (c::nat)"
  "a div 4 * 4 + a mod 4 * 16 div 16 = a"
  "b < 256 \<Longrightarrow> (a mod 4 * 16 + b div 16) mod 16 * 16 + b mod 16 * 4 div 4 = b"
proof -
  have g: "b < 256 \<Longrightarrow> (a mod 4 * 16 + b div 16) div 16 = a mod 4"
    "b < 256 \<Longrightarrow> (a mod 4 * 16 + b div 16) mod 16 = b div 16"
    "c < 256 \<Longrightarrow> (b mod 16 * 4 + c div 64) div 4 = b mod 16"
    "c < 256 \<Longrightarrow> (b mod 16 * 4 + c div 64) mod 4 = c div 64"
    using glue [of "b div 16" 16 "a mod 4"] glue [of "c div 64" 4 "b mod 16"] b64_bounds(2,3) by blast+
  have h: "a mod 4 * 16 div 16 = a mod 4" "b mod 16 * 4 div 4 = b mod 16" by simp_all
  show "b < 256 \<Longrightarrow> a div 4 * 4 + (a mod 4 * 16 + b div 16) div 16 = a"
    "b < 256 \<Longrightarrow> c < 256 \<Longrightarrow>
       (a mod 4 * 16 + b div 16) mod 16 * 16 + (b mod 16 * 4 + c div 64) div 4 = b"
    "c < 256 \<Longrightarrow> (b mod 16 * 4 + c div 64) mod 4 * 64 + c mod 64 = c"
    "a div 4 * 4 + a mod 4 * 16 div 16 = a"
    "b < 256 \<Longrightarrow> (a mod 4 * 16 + b div 16) mod 16 * 16 + b mod 16 * 4 div 4 = b"
    by (simp_all only: g h div_mult_mod_eq)
qed

lemma a2b_encode:
  "\<forall>x \<in> set xs. x < 256 \<Longrightarrow>
   a2b Q0 p (map b64_char (encode64 xs)
             @ replicate ((4 - length (encode64 xs) mod 4) mod 4) (CHR ''='')) = Some xs"
proof (induction xs arbitrary: p rule: encode64.induct)
  case (4 a b c r)
  have "a2b Q0 0 (map b64_char (encode64 r)
             @ replicate ((4 - length (encode64 r) mod 4) mod 4) (CHR ''='')) = Some r"
    using 4 by simp
  then show ?case using 4(2) by (simp add: a2b_char b64_bounds b64_glue a2b_pad)
next
  case (2 a)
  have r: "replicate 2 (CHR ''='') = [CHR ''='', CHR ''='']" by (simp add: numeral_2_eq_2)
  show ?case using 2 by (simp add: a2b_char b64_bounds b64_glue a2b_pad r)
next
  case (3 a b)
  then show ?case by (simp add: a2b_char b64_bounds b64_glue a2b_pad)
qed simp

lemma b64url_roundtrip: "b64url_decode (b64url_encode s) = Some s"
proof -
  have "a2b Q0 0 (map b64_char (encode64 (map of_char s))
             @ replicate ((4 - length (encode64 (map of_char s)) mod 4) mod 4) (CHR ''='')) = Some (map of_char s)"
    by (rule a2b_encode) auto
  then show ?thesis by (simp add: b64url_decode_def b64url_encode_def comp_def)
qed

lemma b64url_no_dot: "CHR ''.'' \<notin> set (b64url_encode s)"
proof
  assume "CHR ''.'' \<in> set (b64url_encode s)"
  then obtain v where v: "v \<in> set (encode64 (map of_char s))" "CHR ''.'' = b64_char v"
    by (auto simp: b64url_encode_def)
  have "\<forall>v \<in> set (encode64 (map of_char s)). v < 64" by (rule encode64_less) auto
  then have "v < 64" using v(1) by blast
  then show False using b64_value_char(3) [of v] v(2) by simp
qed

end
