(* ===== verification/Auth_Props.thy ===== *)
theory Auth_Props
  imports Auth
begin

text \<open>
  Properties of the session tokens of \<^verbatim>\<open>src/fastapi_taskflow/auth.py\<close>. The library part shows that
  reading a payload that \<open>create_token\<close> wrote gives back its claims: string escapes, decimal numbers,
  members, base 64 and the split at the dots.
\<close>

section \<open>Reading back a payload\<close>

declare p_str.simps(2) [simp del]

lemma hex_value_char: "h < 16 \<Longrightarrow> hex_value (hex_alphabet ! h) = Some h"
proof -
  assume "h < 16"
  then have "h = 0 \<or> h = 1 \<or> h = 2 \<or> h = 3 \<or> h = 4 \<or> h = 5 \<or> h = 6 \<or> h = 7 \<or> h = 8 \<or> h = 9
    \<or> h = 10 \<or> h = 11 \<or> h = 12 \<or> h = 13 \<or> h = 14 \<or> h = 15" by arith
  then show ?thesis by (elim disjE) (simp_all add: hex_value_def hex_alphabet_def)
qed

lemma of_char_less: "(of_char c :: nat) < 256" by simp

lemma p_str_plain:
  "c \<noteq> CHR 0x22 \<Longrightarrow> c \<noteq> CHR 0x5C \<Longrightarrow> printable c \<Longrightarrow>
   p_str (c # r) = map_option (\<lambda>(s, t). (c # s, t)) (p_str r)"
  by (simp add: p_str.simps(2) printable_def)

lemma p_str_short:
  "e \<noteq> CHR ''u'' \<Longrightarrow> dget unescapes e = Some d \<Longrightarrow>
   p_str (CHR 0x5C # e # r) = map_option (\<lambda>(s, t). (d # s, t)) (p_str r)"
  by (simp add: p_str.simps(2))

lemma p_str_hex:
  "hex_value h1 = Some 0 \<Longrightarrow> hex_value h2 = Some 0 \<Longrightarrow> hex_value h3 = Some a \<Longrightarrow> hex_value h4 = Some b \<Longrightarrow>
   p_str (CHR 0x5C # CHR ''u'' # h1 # h2 # h3 # h4 # r)
     = map_option (\<lambda>(s, t). (char_of (16 * a + b) # s, t)) (p_str r)"
  by (simp add: p_str.simps(2))

lemma escapes_back: "dget escapes c = Some e \<Longrightarrow> e \<noteq> CHR ''u'' \<and> dget unescapes e = Some c"
  by (auto simp: escapes_def unescapes_def split: if_splits)

lemma p_str_escape: "p_str (escape c @ r) = map_option (\<lambda>(s, t). (c # s, t)) (p_str r)"
proof (cases "dget escapes c")
  case (Some e)
  then show ?thesis using escapes_back [OF Some] by (simp add: escape_def p_str_short)
next
  case None
  then have q: "c \<noteq> CHR 0x22" "c \<noteq> CHR 0x5C" by (auto simp: escapes_def)
  show ?thesis
  proof (cases "printable c")
    case True
    then show ?thesis using None q by (simp add: escape_def p_str_plain)
  next
    case False
    let ?n = "of_char c :: nat"
    have n: "?n div 16 < 16" "?n mod 16 < 16" using of_char_less [of c] by linarith+
    have z: "hex_value (CHR ''0'') = Some 0" by (simp add: hex_value_def hex_alphabet_def)
    have c: "char_of (16 * (?n div 16) + ?n mod 16) = c" by (simp only: mult_div_mod_eq char_of_char)
    show ?thesis
      using None False
      by (simp add: escape_def p_str_hex [OF z z hex_value_char [OF n(1)] hex_value_char [OF n(2)]] c)
  qed
qed

lemma p_str_quoted: "p_str (concat (map escape s) @ CHR 0x22 # t) = Some (s, t)"
proof (induction s)
  case Nil
  then show ?case by (simp add: p_str.simps(2))
next
  case (Cons c s)
  then show ?case by (simp add: p_str_escape)
qed

lemma is_digit_char: "k < 10 \<Longrightarrow> is_digit (char_of (48 + k :: nat))"
  by (simp add: is_digit_def of_char_digit)

lemma is_digit_digits: "list_all is_digit (digits w n)"
  by (induction w arbitrary: n) (simp_all add: is_digit_char)

lemma undigits_dec: "undigits (dec n) = n"
proof (induction n rule: dec.induct)
  case (1 n)
  have d: "undigits (digits 1 k) = k" if "k < 10" for k using undigits_digits [of k 1] that by simp
  have c: "(of_char (char_of (48 + n mod 10)) :: nat) - 48 = n mod 10" using of_char_digit [of "n mod 10"] by simp
  have a: "undigits (s @ digits 1 (n mod 10)) = 10 * undigits s + n mod 10" for s
    using c by (simp add: undigits_append)
  show ?case
  proof (cases "n < 10")
    case True
    then show ?thesis using d by (subst dec.simps) simp
  next
    case False
    then show ?thesis using 1 a [of "dec (n div 10)"] by (subst dec.simps) simp
  qed
qed

lemma dec_digits: "list_all is_digit (dec n)"
proof (induction n rule: dec.induct)
  case (1 n)
  then show ?case using is_digit_digits by (subst dec.simps) (simp del: digits.simps)
qed

lemma dec_lead: "dec n \<noteq> [] \<and> (hd (dec n) = CHR ''0'' \<longrightarrow> length (dec n) = 1)"
proof (induction n rule: dec.induct)
  case (1 n)
  show ?case
  proof (cases "n < 10")
    case True
    then show ?thesis by (subst (1 2 3) dec.simps) simp
  next
    case False
    have z: "hd (dec (n div 10)) \<noteq> CHR ''0''"
    proof
      assume h: "hd (dec (n div 10)) = CHR ''0''"
      then have "dec (n div 10) = [CHR ''0'']" using 1 [OF False]
        by (cases "dec (n div 10)") auto
      then have "n div 10 = 0" using undigits_dec [of "n div 10"] by (simp add: undigits.simps)
      then show False using False by simp
    qed
    then show ?thesis using 1 [OF False] False by (subst (1 2 3) dec.simps) simp
  qed
qed

definition ends_number :: "string \<Rightarrow> bool" where
  "ends_number t \<longleftrightarrow> t \<noteq> [] \<and> \<not> is_digit (hd t) \<and> hd t \<notin> {CHR ''.'', CHR ''e'', CHR ''E''}"

lemma p_nat_dec: "ends_number t \<Longrightarrow> p_nat (dec n @ t) = Some (n, t)"
proof -
  assume t: "ends_number t"
  have all: "\<forall>c \<in> set (dec n). is_digit c" using dec_digits by (simp add: list_all_iff)
  have "takeWhile is_digit (dec n @ t) = dec n" "dropWhile is_digit (dec n @ t) = t"
    using t all by (cases t; simp add: ends_number_def takeWhile_append2 dropWhile_append2)+
  then show ?thesis using dec_lead [of n] t by (auto simp: p_nat_def undigits_dec ends_number_def)
qed

lemma hd_dec_digit: "is_digit (hd (dec n))"
  using dec_digits [of n] dec_lead [of n] by (cases "dec n") auto

lemma p_int_str: "ends_number t \<Longrightarrow> p_int (str_of_int i @ t) = Some (i, t)"
proof (cases "i < 0")
  case True
  assume "ends_number t"
  then show ?thesis using True by (simp add: p_int_def str_of_int_def p_nat_dec)
next
  case False
  assume t: "ends_number t"
  obtain c cs where d: "dec (nat \<bar>i\<bar>) = c # cs" using dec_lead by (cases "dec (nat \<bar>i\<bar>)") auto
  then have "c \<noteq> CHR ''-''" using hd_dec_digit [of "nat \<bar>i\<bar>"] by (auto simp: is_digit_def)
  then show ?thesis using False d p_nat_dec [OF t, of "nat \<bar>i\<bar>"]
    by (simp add: p_int_def str_of_int_def)
qed

lemma ws_other: "\<not> is_space c \<Longrightarrow> ws (c # s) = c # s"
  by (simp add: ws_def)

lemma is_space_quote: "\<not> is_space (CHR 0x22)"
  by (simp add: is_space_def)

lemma p_members_step:
  assumes "p_value v = Some (x, u)" and "ws v = v"
  shows "p_members (Suc n) (quote k @ '': '' @ v) =
     (case ws u of
        [] \<Rightarrow> None
      | c # t \<Rightarrow>
          if c = CHR ''}'' then Some ([(k, x)], t)
          else if c = CHR '','' then map_option (\<lambda>(d, t). ((k, x) # d, t)) (p_members n (ws t))
          else None)"
proof -
  have s: "ws (CHR '':'' # w) = CHR '':'' # w" for w by (simp add: ws_other is_space_def)
  have b: "ws (CHR '' '' # v) = v" using assms(2) by (simp add: ws_def is_space_def)
  show ?thesis using assms(1) by (simp add: quote_def p_str_quoted s b)
qed

lemma p_value_str: "p_value (quote s @ t) = Some (VStr s, t)"
  by (simp add: p_value_def quote_def p_str_quoted)

lemma str_of_int_head:
  obtains c r where "str_of_int i = c # r" "is_digit c \<or> c = CHR ''-''"
proof (cases "i < 0")
  case True
  then show ?thesis using that by (simp add: str_of_int_def)
next
  case False
  obtain c r where "dec (nat \<bar>i\<bar>) = c # r" using dec_lead by (cases "dec (nat \<bar>i\<bar>)") auto
  then show ?thesis using that False hd_dec_digit [of "nat \<bar>i\<bar>"] by (simp add: str_of_int_def)
qed

lemma p_value_int:
  assumes "ends_number t"
  shows "p_value (str_of_int i @ t) = Some (VInt i, t)" "ws (str_of_int i @ t) = str_of_int i @ t"
proof -
  obtain c r where c: "str_of_int i = c # r" "is_digit c \<or> c = CHR ''-''" by (rule str_of_int_head)
  then have n: "c \<noteq> CHR 0x22" "c \<noteq> CHR ''n''" "c \<noteq> CHR ''t''" "c \<noteq> CHR ''f''" "\<not> is_space c"
    by (auto simp: is_digit_def is_space_def)
  show "ws (str_of_int i @ t) = str_of_int i @ t" using c n by (simp add: ws_other)
  show "p_value (str_of_int i @ t) = Some (VInt i, t)"
    using c n p_int_str [OF assms, of i] by (simp add: p_value_def)
qed

definition payload_dict :: "int \<Rightarrow> string \<Rightarrow> (string, pyval) dict" where
  "payload_dict e user =
     (''exp'', VInt e) # (if user = [] then [] else [(''sub'', VStr user)])"

lemma p_members_payload:
  assumes "2 \<le> n"
  shows "p_members n (tl (payload_text e user)) = Some (payload_dict e user, [])"
proof -
  obtain k where n: "n = Suc (Suc k)" using assms by (cases n; cases "n - 1") auto
  have e: "ends_number (CHR ''}'' # t)" "ends_number (CHR '','' # t)" for t
    by (simp_all add: ends_number_def is_digit_def)
  show ?thesis
  proof (cases "user = []")
    case True
    have t: "tl (payload_text e user) = quote ''exp'' @ '': '' @ str_of_int e @ ''}''"
      using True by (simp add: payload_text_def)
    have "ws ''}'' = ''}''" by (simp add: ws_other is_space_def)
    then have "p_members n (quote ''exp'' @ '': '' @ str_of_int e @ ''}'') = Some ([(''exp'', VInt e)], [])"
      unfolding n p_members_step [OF p_value_int [OF e(1) [of "[]"], of e]] by simp
    moreover have "payload_dict e user = [(''exp'', VInt e)]" using True by (simp add: payload_dict_def)
    ultimately show ?thesis unfolding t by metis
  next
    case False
    let ?sub = "quote ''sub'' @ '': '' @ quote user @ ''}''"
    have t: "tl (payload_text e user) = quote ''exp'' @ '': '' @ str_of_int e @ CHR '','' # CHR '' '' # ?sub"
      using False by (simp add: payload_text_def)
    have q: "ws (quote s @ w) = quote s @ w" for s w by (simp add: quote_def ws_other is_space_def)
    have w: "ws (CHR '' '' # ?sub) = ?sub" using q [of "''sub''"] by (simp add: ws_def is_space_def)
    have m: "p_members (Suc k) ?sub = Some ([(''sub'', VStr user)], [])"
      using p_members_step [OF p_value_str [of user "''}''"] q, of k "''sub''"]
      by (simp add: ws_other is_space_def)
    have c: "ws (CHR '','' # CHR '' '' # ?sub) = CHR '','' # CHR '' '' # ?sub"
      by (rule ws_other) (simp add: is_space_def)
    have "p_members n (quote ''exp'' @ '': '' @ str_of_int e @ CHR '','' # CHR '' '' # ?sub)
            = Some ([(''exp'', VInt e), (''sub'', VStr user)], [])"
      unfolding n p_members_step [OF p_value_int [OF e(2) [of "CHR '' '' # ?sub"], of e]] c
      by (simp only: list.case w m) simp
    moreover have "payload_dict e user = [(''exp'', VInt e), (''sub'', VStr user)]"
      using False by (simp add: payload_dict_def)
    ultimately show ?thesis unfolding t by metis
  qed
qed

lemma parse_payload_text: "parse_payload (payload_text e user) = Some (payload_dict e user)"
proof -
  let ?t = "tl (payload_text e user)"
  have p: "payload_text e user = CHR ''{'' # ?t" by (simp add: payload_text_def)
  have g: "payload_text e user \<noteq> []" "hd (payload_text e user) = CHR ''{''"
    by (simp_all add: payload_text_def)
  have q: "?t = CHR 0x22 # tl ?t" by (simp add: payload_text_def quote_def)
  then have w: "ws ?t = ?t" using ws_other [of "CHR 0x22" "tl ?t"] by (metis is_space_quote)
  have h: "hd ?t \<noteq> CHR ''}''" by (subst q) simp
  have l: "2 \<le> length ?t" by (simp add: payload_text_def quote_def)
  have f: "fold (\<lambda>(k, v). dset k v) (payload_dict e user) [] = payload_dict e user"
    by (simp add: payload_dict_def)
  have "ws (payload_text e user) = payload_text e user" by (subst (1 2) p) (simp add: ws_other is_space_def)
  then show ?thesis
    using g w h f p_members_payload [OF l, of e user]
    by (simp add: parse_payload_def Let_def ws_def)
qed

section \<open>Tokens round trip\<close>

lemma split_dots_none: "CHR ''.'' \<notin> set a \<Longrightarrow> split_dots a = [a]"
  by (induction a) auto

lemma split_dots_append: "CHR ''.'' \<notin> set a \<Longrightarrow> split_dots (a @ CHR ''.'' # r) = a # split_dots r"
  by (induction a) auto

lemma split_token:
  "split_dots (create_token mac secret expiry user now) =
     [b64url_encode jwt_header, b64url_encode (payload_text (now + expiry) user),
      b64url_encode (mac secret (b64url_encode jwt_header @ ''.'' @
        b64url_encode (payload_text (now + expiry) user)))]"
  using b64url_no_dot by (simp add: create_token_def Let_def split_dots_append split_dots_none)

lemma token_accepted:
  "verify_token mac secret (create_token mac secret expiry user issued) now \<longleftrightarrow> now < issued + expiry"
  by (simp add: verify_token_def split_token expiry_of_def b64url_roundtrip parse_payload_text
        payload_dict_def)

lemma token_subject:
  "decode_token (create_token mac secret expiry user issued)
     = (if user = [] then ''anonymous'' else user)"
  by (simp add: decode_token_def split_token b64url_roundtrip parse_payload_text payload_dict_def)


section \<open>Properties\<close>

text \<open>A token made by \<open>create_token\<close> is accepted exactly until its expiry, by whoever has the secret,
  and names the user it was made for: what was encoded, escaped and signed is read back unchanged.\<close>

lemma session_token_roundtrip:
  "(verify_token mac secret (create_token mac secret expiry user issued) now \<longleftrightarrow> now < issued + expiry)
   \<and> decode_token (create_token mac secret expiry user issued)
       = (if user = [] then ''anonymous'' else user)"
  using token_accepted token_subject by blast

lemma append_dot_inj:
  assumes "CHR ''.'' \<notin> set a" and "CHR ''.'' \<notin> set a'" and "a @ ''.'' @ b = a' @ ''.'' @ b'"
  shows "a = a' \<and> b = b'"
  using assms by (induction a arbitrary: a') (auto simp: Cons_eq_append_conv append_eq_Cons_conv)

lemma b64url_inj: "b64url_encode a = b64url_encode b \<Longrightarrow> a = b"
  using b64url_roundtrip by (metis option.inject)

text \<open>A token keeps its signature only for the text it was made for: when header or payload are
  changed and the digest of the new text differs, the guard answers 401.\<close>

lemma tampered_token_rejected:
  assumes "verify_token mac secret (h @ ''.'' @ b @ ''.'' @ s) now"
    and "CHR ''.'' \<notin> set h" and "CHR ''.'' \<notin> set b" and "CHR ''.'' \<notin> set s"
    and "CHR ''.'' \<notin> set h'" and "CHR ''.'' \<notin> set b'"
    and "mac secret (h' @ ''.'' @ b') \<noteq> mac secret (h @ ''.'' @ b)"
  shows "api_guard mac secret (h' @ ''.'' @ b' @ ''.'' @ s) later = Inl (HttpError 401 ''Unauthorized'')"
proof -
  have sp: "split_dots (x @ ''.'' @ y @ ''.'' @ s) = [x, y, s]"
    if "CHR ''.'' \<notin> set x" "CHR ''.'' \<notin> set y" for x y
    using that assms(4) by (simp add: split_dots_append split_dots_none)
  have "b64url_encode (mac secret (h @ ''.'' @ b)) = s"
    using assms(1) sp [OF assms(2,3)] by (simp add: verify_token_def split: if_splits)
  then have "b64url_encode (mac secret (h' @ ''.'' @ b')) \<noteq> s"
    using assms(7) b64url_inj by metis
  then show ?thesis using sp [OF assms(5,6)] by (simp add: api_guard_def verify_token_def)
qed

definition ex_mac :: mac_fun where
  "ex_mac k m = k @ m"

lemma tampered_token_rejected_witness:
  "api_guard ex_mac ''k'' (''x'' @ ''.'' @ b64url_encode (payload_text 5 ''eve'') @ ''.''
       @ b64url_encode (ex_mac ''k'' (b64url_encode jwt_header @ ''.''
           @ b64url_encode (payload_text 5 ''bob'')))) 0
     = Inl (HttpError 401 ''Unauthorized'')"
proof -
  let ?h = "b64url_encode jwt_header" and ?b = "b64url_encode (payload_text 5 ''bob'')"
  let ?s = "b64url_encode (ex_mac ''k'' (?h @ ''.'' @ ?b))"
  have "create_token ex_mac ''k'' 5 ''bob'' 0 = ?h @ ''.'' @ ?b @ ''.'' @ ?s"
    by (simp add: create_token_def Let_def)
  then have v: "verify_token ex_mac ''k'' (?h @ ''.'' @ ?b @ ''.'' @ ?s) 0"
    using token_accepted [of ex_mac "''k''" 5 "''bob''" 0 0] by simp
  have "b64url_decode ''x'' = None" by code_simp
  then have "?h \<noteq> ''x''" using b64url_roundtrip by (metis option.discI)
  then have "''x'' @ ''.'' @ b64url_encode (payload_text 5 ''eve'') \<noteq> ?h @ ''.'' @ ?b"
    using append_dot_inj [of "''x''" ?h] b64url_no_dot by fastforce
  then have "ex_mac ''k'' (''x'' @ ''.'' @ b64url_encode (payload_text 5 ''eve'')) \<noteq> ex_mac ''k'' (?h @ ''.'' @ ?b)"
    by (simp add: ex_mac_def)
  then show ?thesis
    using tampered_token_rejected [OF v b64url_no_dot b64url_no_dot b64url_no_dot, of "''x''"] b64url_no_dot
    by simp
qed

end
