(* ===== verification/Manager_State.thy ===== *)
theory Manager_State
  imports Execution Queues Instances
begin

text \<open>
  The state of one \<open>TaskManager\<close> (\<^verbatim>\<open>src/fastapi_taskflow/manager.py\<close>, \<open>__init__\<close>): its registry,
  store, backend, queues, periodic scheduler, audit log and caches. The snapshot scheduler
  exists exactly when a backend is configured. Coroutines handed to \<open>asyncio.create_task\<close> wait
  in \<open>tm_spawned\<close>, Starlette's background tasks of the current request in \<open>tm_starlette\<close>; running
  one of them is \<open>run_job\<close>. \<open>uuid4\<close> and the clock are supplies read in order.
\<close>

text \<open>
  Schedule entries are mutable objects shared by the list of registrations, the heap and the
  table of one-offs: they have an address, and the three hold addresses.
\<close>

record sched_entry =
  se_func :: pyfunc
  se_config :: task_config
  se_every :: "int option"      \<comment> \<open>in microseconds\<close>
  se_cron :: "string option"
  se_run_on_startup :: bool
  se_timezone :: string
  se_next_run :: datetime
  se_once :: "scheduled_once option"
  se_cancelled :: bool

record periodic =
  ps_objs :: "(nat, sched_entry) dict"
  ps_next_obj :: nat
  ps_entries :: "nat list"
  ps_heap :: "nat list"
  ps_one_offs :: "(string, nat) dict"
  ps_horizon :: int
  ps_refill_interval :: int
  ps_next_refill :: datetime
  ps_supports_one_off :: bool
  ps_running :: bool    \<comment> \<open>\<open>_bg_task is not None\<close>\<close>
  ps_dead :: bool       \<comment> \<open>the loop ended with an exception\<close>
  ps_wake :: bool

text \<open>Backend calls handed to \<open>asyncio.create_task\<close> without being awaited.\<close>

datatype deferred = DSaveMetadata string json | DDeleteRecords "string list"

record tm =
  tm_registry :: registry
  tm_store :: store
  tm_backend :: "sqlite option"
  tm_requeue_pending :: bool
  tm_retention :: "int option"   \<comment> \<open>\<open>retention_days\<close> in microseconds\<close>
  tm_retention_counter :: int
  tm_retention_every :: int
  tm_flush_loop :: bool
  tm_logger :: "observer list option"
  tm_fernet :: "cipher option"
  tm_nonce :: nat
  tm_uuid :: "nat \<Rightarrow> string"
  tm_next_uuid :: nat
  tm_procs :: process_executor
  tm_pickler :: pickler
  tm_running :: "(string, exec_kind) dict"
  tm_queue_configs :: "(string, queue_config) dict"
  tm_queues :: "(string, job task_queue) dict"
  tm_priority_queue :: "job qentry list"
  tm_priority_seq :: nat
  tm_priority_worker :: bool
  tm_spawned :: "job list"
  tm_starlette :: "job list"
  tm_audit :: "audit_entry list"
  tm_cache :: "task_record list"
  tm_cache_ts :: int
  tm_merged_ttl :: int
  tm_retry_replaces :: bool
  tm_periodic :: "periodic option"
  tm_deferred :: "deferred list"
  tm_instance_url :: "string option"
  tm_instance_prefix :: string
  tm_registry_ttl :: int
  tm_heartbeat :: int
  tm_instance :: "app_instance option"
  tm_cancels :: "string list"  \<comment> \<open>ids whose asyncio task was asked to cancel\<close>
  tm_mono :: "nat \<Rightarrow> int"         \<comment> \<open>\<open>time.monotonic\<close>, microseconds\<close>
  tm_clock :: "nat \<Rightarrow> int"
  tm_ticks :: nat

definition tm_now :: "tm \<Rightarrow> datetime" where
  "tm_now m = utc_dt (tm_clock m (tm_ticks m))"

definition tm_tick :: "tm \<Rightarrow> tm" where
  "tm_tick m = m\<lparr>tm_ticks := Suc (tm_ticks m)\<rparr>"

definition fresh_uuid :: "tm \<Rightarrow> string \<times> tm" where
  "fresh_uuid m = (tm_uuid m (tm_next_uuid m), m\<lparr>tm_next_uuid := Suc (tm_next_uuid m)\<rparr>)"

text \<open>\<open>fernet.encrypt(pickle.dumps((args, kwargs)))\<close>, or the arguments in the clear.\<close>

definition seal_args ::
  "pyargs \<Rightarrow> pykwargs \<Rightarrow> tm \<Rightarrow> string option \<times> pyargs \<times> pykwargs \<times> tm" where
  "seal_args as kw m =
     (case tm_fernet m of
        None \<Rightarrow> (None, as, kw, m)
      | Some ci \<Rightarrow> (Some (ci_seal ci (tm_nonce m) (as, kw)), [], [], m\<lparr>tm_nonce := Suc (tm_nonce m)\<rparr>))"

section \<open>Queues of the manager\<close>

text \<open>\<open>_get_queue\<close>: the queue's key, falling back to the default queue.\<close>

definition get_queue :: "string \<Rightarrow> tm \<Rightarrow> py_exc + string" where
  "get_queue name m =
     (if name \<in> set (dkeys (tm_queues m)) then Inr name
      else if ''default'' \<in> set (dkeys (tm_queues m)) then Inr ''default''
      else Inl (KeyError ''default''))"

definition tm_enqueue :: "string \<Rightarrow> string \<Rightarrow> int option \<Rightarrow> job \<Rightarrow> tm \<Rightarrow> (py_exc + unit) \<times> tm" where
  "tm_enqueue name tid prio j m =
     (case get_queue name m of
        Inl e \<Rightarrow> (Inl e, m)
      | Inr k \<Rightarrow>
          (case dget (tm_queues m) k of
             None \<Rightarrow> (Inl (KeyError k), m)
           | Some q \<Rightarrow>
               (let (r, q') = enqueue tid prio j q
                in (r, m\<lparr>tm_queues := dset k q' (tm_queues m)\<rparr>))))"

definition spawn :: "job \<Rightarrow> tm \<Rightarrow> tm" where
  "spawn j m = m\<lparr>tm_spawned := tm_spawned m @ [j]\<rparr>"

text \<open>\<open>enqueue_priority\<close> and one turn of \<open>_run_priority_worker\<close>.\<close>

definition enqueue_priority :: "string \<Rightarrow> int \<Rightarrow> job \<Rightarrow> tm \<Rightarrow> tm" where
  "enqueue_priority tid prio j m =
     m\<lparr>tm_priority_seq := Suc (tm_priority_seq m),
       tm_priority_queue :=
         heappush (QEntry (- prio) (Suc (tm_priority_seq m)) tid j) (tm_priority_queue m)\<rparr>"

definition priority_worker_step :: "tm \<Rightarrow> tm option" where
  "priority_worker_step m =
     (if \<not> tm_priority_worker m then None
      else case heappop qkey (tm_priority_queue m) of
             None \<Rightarrow> None
           | Some (e, h) \<Rightarrow> Some (spawn (qe_wrapped e) (m\<lparr>tm_priority_queue := h\<rparr>)))"

section \<open>Running a job\<close>

text \<open>\<open>SnapshotScheduler.flush_one\<close>: persist one record right after it finished.\<close>

definition flush_one :: "string \<Rightarrow> int \<Rightarrow> store \<Rightarrow> sqlite \<Rightarrow> sqlite" where
  "flush_one tid now s db =
     (case store_get s tid of None \<Rightarrow> db | Some r \<Rightarrow> snd (sq_save now [r] db))"

definition handles_of :: "tm \<Rightarrow> handles" where
  "handles_of m =
     \<lparr>hd_store = tm_store m, hd_backend = tm_backend m,
      hd_on_success = (if tm_backend m = None then None else Some flush_one),
      hd_logger = tm_logger m, hd_running = Some (tm_running m), hd_procs = tm_procs m,
      hd_cipher = tm_fernet m, hd_clock = tm_clock m, hd_ticks = tm_ticks m\<rparr>"

definition put_handles :: "handles \<Rightarrow> tm \<Rightarrow> tm" where
  "put_handles h m =
     m\<lparr>tm_store := hd_store h, tm_backend := hd_backend h, tm_logger := hd_logger h,
       tm_running := (case hd_running h of None \<Rightarrow> [] | Some d \<Rightarrow> d),
       tm_procs := hd_procs h, tm_ticks := hd_ticks h\<rparr>"

definition run_job :: "job \<Rightarrow> body \<Rightarrow> tm \<Rightarrow> outcome \<times> tm" where
  "run_job j b m = (let (out, h) = execute_task j b (handles_of m) in (out, put_handles h m))"

text \<open>The arguments the manager passes to \<open>make_background_func\<close> at every dispatch site.\<close>

definition make_job ::
  "pyfunc \<Rightarrow> string \<Rightarrow> task_config \<Rightarrow> pyargs \<Rightarrow> pykwargs \<Rightarrow> exec_kind \<Rightarrow> tm \<Rightarrow> job" where
  "make_job f tid c as kw k m =
     \<lparr>jb_func = f, jb_task_id = tid, jb_config = c, jb_args = as, jb_kwargs = kw,
      jb_executor = Some k, jb_backend = (tm_backend m \<noteq> None)\<rparr>"

text \<open>\<open>store.create\<close> at the manager's clock.\<close>

definition tm_create ::
  "string \<Rightarrow> string \<Rightarrow> pyargs \<Rightarrow> pykwargs \<Rightarrow> string option \<Rightarrow> (string, string) dict option
   \<Rightarrow> string option \<Rightarrow> string \<Rightarrow> int option \<Rightarrow> exec_kind option \<Rightarrow> string \<Rightarrow> tm \<Rightarrow> tm" where
  "tm_create tid fn as kw ik tg enc src pr ex q m =
     tm_tick (m\<lparr>tm_store := snd (store_create
                  (new_record tid fn as kw ik tg enc src pr ex q (tm_now m)) (tm_store m))\<rparr>)"

definition tm_upd :: "string \<Rightarrow> (task_record \<Rightarrow> task_record) \<Rightarrow> tm \<Rightarrow> tm" where
  "tm_upd tid f m = m\<lparr>tm_store := upd tid f (tm_store m)\<rparr>"

section \<open>Facts\<close>

lemma tm_store_simps [simp]:
  "tm_store (tm_tick m) = tm_store m" "tm_store (spawn j m) = tm_store m"
  "tm_store (enqueue_priority t p j m) = tm_store m" "tm_store (snd (fresh_uuid m)) = tm_store m"
  "tm_store (snd (tm_enqueue n t q j m)) = tm_store m"
  by (simp_all add: tm_tick_def spawn_def enqueue_priority_def fresh_uuid_def tm_enqueue_def
        case_prod_beta split: sum.splits option.splits)

lemma tm_tick_simps [simp]:
  "tm_backend (tm_tick m) = tm_backend m" "tm_registry (tm_tick m) = tm_registry m"
  "tm_queues (tm_tick m) = tm_queues m" "tm_spawned (tm_tick m) = tm_spawned m"
  "tm_requeue_pending (tm_tick m) = tm_requeue_pending m" "tm_logger (tm_tick m) = tm_logger m"
  "tm_fernet (tm_tick m) = tm_fernet m" "tm_starlette (tm_tick m) = tm_starlette m"
  "tm_pickler (tm_tick m) = tm_pickler m" "tm_priority_queue (tm_tick m) = tm_priority_queue m"
  "tm_queue_configs (tm_tick m) = tm_queue_configs m" "tm_cache (tm_tick m) = tm_cache m"
  "tm_clock (tm_tick m) = tm_clock m" "tm_running (tm_tick m) = tm_running m"
  "tm_periodic (tm_tick m) = tm_periodic m" "tm_instance (tm_tick m) = tm_instance m"
  "tm_uuid (tm_tick m) = tm_uuid m" "tm_next_uuid (tm_tick m) = tm_next_uuid m"
  "tm_retry_replaces (tm_tick m) = tm_retry_replaces m" "tm_deferred (tm_tick m) = tm_deferred m"
  "tm_audit (tm_tick m) = tm_audit m" "tm_instance_url (tm_tick m) = tm_instance_url m"
  "tm_nonce (tm_tick m) = tm_nonce m" "tm_procs (tm_tick m) = tm_procs m"
  by (simp_all add: tm_tick_def)

lemma tm_upd_simps [simp]:
  "tm_backend (tm_upd t f m) = tm_backend m" "tm_registry (tm_upd t f m) = tm_registry m"
  "tm_queues (tm_upd t f m) = tm_queues m" "tm_spawned (tm_upd t f m) = tm_spawned m"
  "tm_requeue_pending (tm_upd t f m) = tm_requeue_pending m"
  by (simp_all add: tm_upd_def)

lemma spawn_simps [simp]:
  "tm_backend (spawn j m) = tm_backend m" "tm_registry (spawn j m) = tm_registry m"
  "tm_queues (spawn j m) = tm_queues m" "tm_spawned (spawn j m) = tm_spawned m @ [j]"
  by (simp_all add: spawn_def)

lemma get_tm_upd [simp]:
  "store_get (tm_store (tm_upd t f m)) k
     = (if k = t then map_option f (store_get (tm_store m) k) else store_get (tm_store m) k)"
  by (simp add: tm_upd_def)

lemma get_tm_create [simp]:
  "store_get (tm_store (tm_create tid fn as kw ik tg enc src pr ex q m)) k
     = (if k = tid then Some (new_record tid fn as kw ik tg enc src pr ex q (tm_now m))
        else store_get (tm_store m) k)"
  by (simp add: tm_create_def) (simp add: new_record_def)

lemma flush_one_idem [simp]: "sq_idem (flush_one t n s db) = sq_idem db"
  by (simp add: flush_one_def sq_save_def put_row_def split: option.splits)

text \<open>A job leaves the queue it waits in only by being started: enqueueing never drops one.\<close>

lemma tm_enqueue_ok:
  assumes "tm_enqueue n t p j m = (Inr (), m')"
  obtains k q where "get_queue n m = Inr k" "dget (tm_queues m) k = Some q"
    "\<not> queue_full q" "tm_queues m' = dset k (snd (enqueue t p j q)) (tm_queues m)"
    "m' = m\<lparr>tm_queues := tm_queues m'\<rparr>"
  using assms by (auto simp: tm_enqueue_def case_prod_beta enqueue_def split: sum.splits option.splits if_splits)

lemma tm_enqueue_full:
  assumes "get_queue n m = Inr k" and "dget (tm_queues m) k = Some q" and "queue_full q"
  shows "fst (tm_enqueue n t p j m) = Inl (QueueFullError (tq_name q))"
  using assms by (simp add: tm_enqueue_def enqueue_def case_prod_beta)

lemma get_queue_known: "get_queue n m = Inr k \<Longrightarrow> k \<in> set (dkeys (tm_queues m))"
  by (auto simp: get_queue_def split: if_splits)

end
