(* ===== verification/Snapshot.thy ===== *)
theory Snapshot
  imports Manager_State
begin

text \<open>
  \<^verbatim>\<open>src/fastapi_taskflow/snapshot.py\<close>: restoring history at startup, requeueing what was
  unfinished, flushing terminal records, classifying unfinished ones at shutdown, and retention.
\<close>

section \<open>Startup\<close>

definition snap_load :: "tm \<Rightarrow> nat \<times> tm" where
  "snap_load m =
     (case tm_backend m of
        None \<Rightarrow> (0, m)
      | Some db \<Rightarrow> (length (sq_load db), m\<lparr>tm_store := fold restore (sq_load db) (tm_store m)\<rparr>))"

text \<open>One record of \<open>requeue\<close>; the count grows when it was dispatched.\<close>

definition requeue_one :: "string list \<Rightarrow> task_record \<Rightarrow> nat \<Rightarrow> tm \<Rightarrow> (py_exc + nat) \<times> tm" where
  "requeue_one completed r n m =
     (if task_id r \<in> set completed then (Inr n, m)
      else case tm_backend m of
        None \<Rightarrow> (Inr n, m)
      | Some db \<Rightarrow>
          (let (claimed, db') = sq_claim_pending (task_id r) db;
               m1 = m\<lparr>tm_backend := Some db'\<rparr>
           in if \<not> claimed then (Inr n, m1)
              else case get_by_name (tm_registry m1) (func_name r) of
                None \<Rightarrow> (Inr n, m1)
              | Some (f, c) \<Rightarrow>
                  (let k = resolve_executor f c;
                       m2 = tm_upd (task_id r) (\<lambda>t. t\<lparr>executor := Some k\<rparr>)
                              (m1\<lparr>tm_store := restore r (tm_store m1)\<rparr>);
                       j = make_job f (task_id r) c (args r) (kwargs r) k m2
                   in if tm_queues m2 \<noteq> []
                      then (case tm_enqueue (or_default (queue r) ''default'') (task_id r)
                                   (priority r) j m2 of
                              (Inl e, m3) \<Rightarrow> (Inl e, m3)
                            | (Inr _, m3) \<Rightarrow> (Inr (Suc n), m3))
                      else (Inr (Suc n), spawn j m2))))"

fun requeue_loop :: "string list \<Rightarrow> task_record list \<Rightarrow> nat \<Rightarrow> tm \<Rightarrow> (py_exc + nat) \<times> tm" where
  "requeue_loop completed [] n m = (Inr n, m)"
| "requeue_loop completed (r # rs) n m =
     (case requeue_one completed r n m of
        (Inl e, m') \<Rightarrow> (Inl e, m')
      | (Inr n', m') \<Rightarrow> requeue_loop completed rs n' m')"

definition clear_pending :: "tm \<Rightarrow> tm" where
  "clear_pending m = m\<lparr>tm_backend := map_option sq_clear_pending (tm_backend m)\<rparr>"

definition requeue :: "tm \<Rightarrow> (py_exc + nat) \<times> tm" where
  "requeue m =
     (case tm_backend m of
        None \<Rightarrow> (Inr 0, m)
      | Some db \<Rightarrow>
          (let records = sq_load_pending db
           in if records = [] then (Inr 0, m)
              else case requeue_loop (sq_completed_ids (map task_id records) db) records 0 m of
                     (Inl e, m') \<Rightarrow> (Inl e, m')
                   | (Inr n, m') \<Rightarrow> (Inr n, clear_pending m')))"

section \<open>Flushing\<close>

definition snap_flush :: "tm \<Rightarrow> nat \<times> tm" where
  "snap_flush m =
     (let completed = filter (\<lambda>t. status t \<in> {SUCCESS, FAILED, CANCELLED, INTERRUPTED, REJECTED})
                        (store_list (tm_store m))
      in if completed = [] then (0, m)
         else case tm_backend m of
                None \<Rightarrow> (0, m)
              | Some db \<Rightarrow>
                  (let (n, db') = sq_save (dt_wall (tm_now m)) completed db
                   in (n, tm_tick (m\<lparr>tm_backend := Some db'\<rparr>))))"

text \<open>
  \<open>flush_pending\<close>. The lists hold the record objects, so what is saved is the record after the
  store update.
\<close>

record pend_acc =
  pa_tm :: tm
  pa_requeue :: "task_record list"
  pa_interrupt :: "task_record list"

definition requeue_safe :: "registry \<Rightarrow> task_record \<Rightarrow> bool" where
  "requeue_safe rg t =
     (case get_by_name rg (func_name t) of None \<Rightarrow> False | Some (f, c) \<Rightarrow> tc_requeue_on_interrupt c)"

definition interrupted_event :: "task_record \<Rightarrow> datetime \<Rightarrow> lifecycle_event" where
  "interrupted_event t e =
     \<lparr>ev_task_id = task_id t, ev_func_name = func_name t, ev_status = INTERRUPTED,
      ev_timestamp = e, ev_attempt = retries_used t, ev_retries_used = retries_used t,
      ev_duration = None, ev_error = None, ev_stacktrace = None, ev_tags = tags t\<rparr>"

definition classify_unfinished :: "task_record \<Rightarrow> pend_acc \<Rightarrow> pend_acc" where
  "classify_unfinished t p =
     (if status t = PENDING
      then if tm_requeue_pending (pa_tm p) then p\<lparr>pa_requeue := pa_requeue p @ [t]\<rparr> else p
      else if requeue_safe (tm_registry (pa_tm p)) t
      then p\<lparr>pa_tm := tm_upd (task_id t) (\<lambda>r. r\<lparr>status := PENDING\<rparr>) (pa_tm p),
             pa_requeue := pa_requeue p @ [t\<lparr>status := PENDING\<rparr>]\<rparr>
      else let m = pa_tm p; e = tm_now m;
               m1 = tm_upd (task_id t) (\<lambda>r. r\<lparr>status := INTERRUPTED, end_time := Some e\<rparr>) (tm_tick m);
               m2 = m1\<lparr>tm_logger := map_option (chain_on_lifecycle (interrupted_event t e)) (tm_logger m1)\<rparr>
           in p\<lparr>pa_tm := m2,
                pa_interrupt := pa_interrupt p @ [t\<lparr>status := INTERRUPTED, end_time := Some e\<rparr>]\<rparr>)"

definition unfinished :: "task_record \<Rightarrow> bool" where
  "unfinished t \<longleftrightarrow> status t = PENDING \<or> status t = RUNNING"

definition classify_all :: "tm \<Rightarrow> pend_acc" where
  "classify_all m =
     fold classify_unfinished (filter unfinished (store_list (tm_store m)))
       \<lparr>pa_tm = m, pa_requeue = [], pa_interrupt = []\<rparr>"

definition flush_pending :: "tm \<Rightarrow> nat \<times> tm" where
  "flush_pending m =
     (if filter unfinished (store_list (tm_store m)) = [] then (0, m)
      else let p = classify_all m;
               m1 = (if pa_interrupt p = [] then pa_tm p
                     else tm_tick ((pa_tm p)\<lparr>tm_backend :=
                            map_option (\<lambda>db. snd (sq_save (dt_wall (tm_now (pa_tm p))) (pa_interrupt p) db))
                              (tm_backend (pa_tm p))\<rparr>))
           in if pa_requeue p = [] then (0, m1)
              else (length (pa_requeue p),
                    m1\<lparr>tm_backend := map_option (\<lambda>db. snd (sq_save_pending (pa_requeue p) db))
                                      (tm_backend m1)\<rparr>))"

section \<open>Retention and the background loop\<close>

definition invalidate_cache :: "tm \<Rightarrow> tm" where
  "invalidate_cache m = m\<lparr>tm_cache := [], tm_cache_ts := 0\<rparr>"

definition prune_old_records :: "int \<Rightarrow> tm \<Rightarrow> tm" where
  "prune_old_records keep m =
     (let cutoff = add_us (tm_now m) (- keep);
          (n, s) = delete_completed_before cutoff (tm_store m);
          m1 = tm_tick (m\<lparr>tm_store := s\<rparr>)
      in case tm_backend m1 of
           None \<Rightarrow> m1
         | Some db \<Rightarrow>
             (let (k, db') = sq_delete_before cutoff db; m2 = m1\<lparr>tm_backend := Some db'\<rparr>
              in if n > 0 \<or> k > 0 then invalidate_cache m2 else m2))"

text \<open>One turn of \<open>_run\<close>: a flush and, every \<open>_retention_every\<close> turns, a pruning.\<close>

definition snapshot_turn :: "tm \<Rightarrow> tm" where
  "snapshot_turn m0 =
     (let m = snd (snap_flush m0)
      in case tm_retention m of
           None \<Rightarrow> m
         | Some keep \<Rightarrow>
             (let m1 = m\<lparr>tm_retention_counter := tm_retention_counter m + 1\<rparr>
              in if tm_retention_counter m1 \<ge> tm_retention_every m1
                 then prune_old_records keep (m1\<lparr>tm_retention_counter := 0\<rparr>)
                 else m1))"

definition snap_query ::
  "string option \<Rightarrow> string option \<Rightarrow> nat \<Rightarrow> tm \<Rightarrow> hist_row list" where
  "snap_query st fn limit m =
     (case tm_backend m of None \<Rightarrow> [] | Some db \<Rightarrow> sq_query st fn limit db)"

end
