(* ===== verification/Periodic.thy ===== *)
theory Periodic
  imports Manager_State Heap_Order
begin

text \<open>
  \<^verbatim>\<open>src/fastapi_taskflow/periodic.py\<close>: the scheduling loop over recurring schedules and one-off
  firings. \<open>croniter\<close> is a third-party package: \<open>cron_next expression zone t\<close> is the next slot
  after \<open>t\<close>. Times and intervals are in microseconds. One turn of \<open>_run\<close> up to its sleep is
  \<open>periodic_turn\<close>; an exception that leaves \<open>_run\<close> ends the loop (\<open>ps_dead\<close>), and the heap of a
  dead loop is not read again before \<open>start\<close> rebuilds it.
\<close>

type_synonym cron_fun = "string \<Rightarrow> string \<Rightarrow> datetime \<Rightarrow> datetime"

definition next_every :: "int \<Rightarrow> datetime \<Rightarrow> datetime" where
  "next_every every from_time = add_us from_time every"

definition recurring :: "sched_entry \<Rightarrow> bool" where
  "recurring e \<longleftrightarrow> se_once e = None"

definition compute_next :: "cron_fun \<Rightarrow> sched_entry \<Rightarrow> datetime \<Rightarrow> py_exc + datetime" where
  "compute_next cron e t =
     (if se_once e \<noteq> None
      then Inl (ValueError ''compute_next() is not meaningful for a one-off entry.'')
      else case se_every e of
             Some i \<Rightarrow> Inr (next_every i t)
           | None \<Rightarrow> (case se_cron e of
                       Some c \<Rightarrow> Inr (cron c (se_timezone e) t)
                     | None \<Rightarrow> Inl (AssertionError ''self.cron is not None'')))"

section \<open>The scheduler object\<close>

definition default_horizon :: int where "default_horizon = 300000000"
definition default_refill :: int where "default_refill = 150000000"

text \<open>\<open>PeriodicScheduler(self, [], backend=backend)\<close>.\<close>

definition new_periodic :: "bool \<Rightarrow> datetime \<Rightarrow> periodic" where
  "new_periodic has_backend now =
     \<lparr>ps_objs = [], ps_next_obj = 0, ps_entries = [], ps_heap = [], ps_one_offs = [],
      ps_horizon = default_horizon, ps_refill_interval = default_refill, ps_next_refill = now,
      ps_supports_one_off = has_backend, ps_running = False, ps_dead = False, ps_wake = False\<rparr>"

definition alloc :: "sched_entry \<Rightarrow> periodic \<Rightarrow> nat \<times> periodic" where
  "alloc e p = (ps_next_obj p, p\<lparr>ps_objs := dset (ps_next_obj p) e (ps_objs p),
                                 ps_next_obj := Suc (ps_next_obj p)\<rparr>)"

definition obj_upd :: "nat \<Rightarrow> (sched_entry \<Rightarrow> sched_entry) \<Rightarrow> periodic \<Rightarrow> periodic" where
  "obj_upd i f p =
     (case dget (ps_objs p) i of
        None \<Rightarrow> p | Some e \<Rightarrow> p\<lparr>ps_objs := dset i (f e) (ps_objs p)\<rparr>)"

text \<open>\<open>__lt__\<close>: the heap is ordered by \<open>next_run\<close>.\<close>

definition ps_key :: "periodic \<Rightarrow> nat \<Rightarrow> int" where
  "ps_key p i = (case dget (ps_objs p) i of None \<Rightarrow> 0 | Some e \<Rightarrow> instant (se_next_run e))"

definition push_obj :: "nat \<Rightarrow> periodic \<Rightarrow> periodic" where
  "push_obj i p = p\<lparr>ps_heap := heappush i (ps_heap p)\<rparr>"

text \<open>\<open>start\<close>: the heap is rebuilt from the registrations.\<close>

definition start_entry :: "cron_fun \<Rightarrow> datetime \<Rightarrow> nat \<Rightarrow> periodic \<Rightarrow> py_exc + periodic" where
  "start_entry cron now i p =
     (case dget (ps_objs p) i of
        None \<Rightarrow> Inr p
      | Some e \<Rightarrow>
          if se_run_on_startup e then Inr (obj_upd i (\<lambda>e. e\<lparr>se_next_run := now\<rparr>) p)
          else case compute_next cron e now of
                 Inl x \<Rightarrow> Inl x
               | Inr t \<Rightarrow> Inr (obj_upd i (\<lambda>e. e\<lparr>se_next_run := t\<rparr>) p))"

fun start_entries :: "cron_fun \<Rightarrow> datetime \<Rightarrow> nat list \<Rightarrow> periodic \<Rightarrow> py_exc + periodic" where
  "start_entries cron now [] p = Inr p"
| "start_entries cron now (i # is) p =
     (case start_entry cron now i p of
        Inl x \<Rightarrow> Inl x | Inr p' \<Rightarrow> start_entries cron now is p')"

definition ps_start :: "cron_fun \<Rightarrow> datetime \<Rightarrow> periodic \<Rightarrow> py_exc + periodic" where
  "ps_start cron now p =
     (case start_entries cron now (ps_entries p) p of
        Inl x \<Rightarrow> Inl x
      | Inr p' \<Rightarrow> Inr (p'\<lparr>ps_heap := ps_entries p', ps_running := True, ps_dead := False\<rparr>))"

definition ps_stop :: "periodic \<Rightarrow> periodic" where
  "ps_stop p = p\<lparr>ps_running := False\<rparr>"

definition append_entry :: "sched_entry \<Rightarrow> periodic \<Rightarrow> periodic" where
  "append_entry e p = (let (i, p') = alloc e p in p'\<lparr>ps_entries := ps_entries p' @ [i]\<rparr>)"

definition add_entry :: "sched_entry \<Rightarrow> periodic \<Rightarrow> periodic" where
  "add_entry e p =
     (let (i, p') = alloc e p
      in (push_obj i (p'\<lparr>ps_entries := ps_entries p' @ [i]\<rparr>))\<lparr>ps_wake := True\<rparr>)"

section \<open>One-offs\<close>

definition cancel_one_off :: "string \<Rightarrow> periodic \<Rightarrow> periodic" where
  "cancel_one_off k p =
     (case dget (ps_one_offs p) k of
        None \<Rightarrow> p
      | Some i \<Rightarrow> obj_upd i (\<lambda>e. e\<lparr>se_cancelled := True\<rparr>)
                    (p\<lparr>ps_one_offs := dpop k (ps_one_offs p)\<rparr>))"

definition one_off_entry :: "pyfunc \<Rightarrow> task_config \<Rightarrow> scheduled_once \<Rightarrow> sched_entry" where
  "one_off_entry f c so =
     \<lparr>se_func = f, se_config = c, se_every = None, se_cron = None, se_run_on_startup = False,
      se_timezone = ''UTC'', se_next_run = so_fire_at so, se_once = Some so, se_cancelled = False\<rparr>"

definition add_one_off :: "registry \<Rightarrow> scheduled_once \<Rightarrow> periodic \<Rightarrow> bool \<times> periodic" where
  "add_one_off rg so p =
     (case get_by_name rg (so_func_name so) of
        None \<Rightarrow> (False, p)
      | Some (f, c) \<Rightarrow>
          (let p1 = cancel_one_off (so_run_key so) p;
               (i, p2) = alloc (one_off_entry f c so) p1;
               p3 = p2\<lparr>ps_one_offs := dset (so_run_key so) i (ps_one_offs p2)\<rparr>
           in (True, (push_obj i p3)\<lparr>ps_wake := True\<rparr>)))"

text \<open>\<open>existing is not None and existing.next_run == once.fire_at\<close>.\<close>

definition already_armed :: "scheduled_once \<Rightarrow> periodic \<Rightarrow> bool" where
  "already_armed so p \<longleftrightarrow>
     (case dget (ps_one_offs p) (so_run_key so) of
        None \<Rightarrow> False | Some i \<Rightarrow> ps_key p i = instant (so_fire_at so))"

definition refill_one :: "registry \<Rightarrow> scheduled_once \<Rightarrow> periodic \<Rightarrow> periodic" where
  "refill_one rg so p = (if already_armed so p then p else snd (add_one_off rg so p))"

definition refill :: "registry \<Rightarrow> sqlite option \<Rightarrow> datetime \<Rightarrow> periodic \<Rightarrow> periodic" where
  "refill rg bk now p =
     (case bk of
        None \<Rightarrow> p
      | Some db \<Rightarrow> fold (refill_one rg) (sq_load_due (add_us now (ps_horizon p)) db) p)"

section \<open>Firing\<close>

definition dispatch_fired ::
  "pyfunc \<Rightarrow> task_config \<Rightarrow> string \<Rightarrow> pyargs \<Rightarrow> pykwargs \<Rightarrow> exec_kind \<Rightarrow> string \<Rightarrow> int option
   \<Rightarrow> tm \<Rightarrow> (py_exc + unit) \<times> tm" where
  "dispatch_fired f c tid as kw k q prio m =
     (if tm_queues m \<noteq> [] then tm_enqueue q tid prio (make_job f tid c as kw k m) m
      else (Inr (), spawn (make_job f tid c as kw k m) m))"

definition lock_ttl :: "sched_entry \<Rightarrow> int" where
  "lock_ttl e = max 1 (case se_every e of None \<Rightarrow> 60 | Some i \<Rightarrow> i div 1000000)"

definition lock_key :: "sched_entry \<Rightarrow> string" where
  "lock_key e = ''schedule:'' @ fn_name (se_func e)"

text \<open>\<open>_fire\<close> after \<open>next_run\<close> was advanced: the lock, the record, the dispatch.\<close>

definition acquire_lock :: "sched_entry \<Rightarrow> tm \<Rightarrow> bool \<times> tm" where
  "acquire_lock e m =
     (case tm_backend m of
        None \<Rightarrow> (True, m)
      | Some db \<Rightarrow>
          (let (ok, db') = sq_acquire_schedule_lock (lock_key e) (lock_ttl e) (dt_wall (tm_now m)) db
           in (ok, tm_tick (m\<lparr>tm_backend := Some db'\<rparr>))))"

definition fire_task :: "sched_entry \<Rightarrow> tm \<Rightarrow> (py_exc + unit) \<times> tm" where
  "fire_task e m0 =
     (let (tid, m) = fresh_uuid m0;
          k = resolve_executor (se_func e) (se_config e);
          q = or_str (tc_queue (se_config e)) ''default'';
          m1 = tm_create tid (fn_name (se_func e)) [] [] None None None ''scheduled'' None (Some k) q m
      in dispatch_fired (se_func e) (se_config e) tid [] [] k q (tc_priority (se_config e)) m1)"

definition set_periodic :: "periodic \<Rightarrow> tm \<Rightarrow> tm" where
  "set_periodic p m = m\<lparr>tm_periodic := Some p\<rparr>"

definition fire :: "cron_fun \<Rightarrow> nat \<Rightarrow> sched_entry \<Rightarrow> datetime \<Rightarrow> periodic \<Rightarrow> tm
    \<Rightarrow> (py_exc + periodic) \<times> tm" where
  "fire cron i e now p m =
     (case compute_next cron e now of
        Inl x \<Rightarrow> (Inl x, m)
      | Inr t \<Rightarrow>
          (let p1 = obj_upd i (\<lambda>e. e\<lparr>se_next_run := t\<rparr>) p;
               (ok, m1) = acquire_lock e m
           in if \<not> ok then (Inr p1, m1)
              else case fire_task e m1 of
                     (Inl x, m2) \<Rightarrow> (Inl x, m2)
                   | (Inr _, m2) \<Rightarrow> (Inr p1, m2)))"

definition claim_one_off :: "scheduled_once \<Rightarrow> tm \<Rightarrow> bool \<times> tm" where
  "claim_one_off so m =
     (case tm_backend m of
        None \<Rightarrow> (True, m)
      | Some db \<Rightarrow> (let (ok, db') = sq_claim_scheduled (so_run_key so) db
                    in (ok, m\<lparr>tm_backend := Some db'\<rparr>)))"

definition fire_once :: "scheduled_once \<Rightarrow> tm \<Rightarrow> (py_exc + unit) \<times> tm" where
  "fire_once so m0 =
     (let (ok, m1) = claim_one_off so m0
      in if \<not> ok then (Inr (), m1)
         else case get_by_name (tm_registry m1) (so_func_name so) of
                None \<Rightarrow> (Inr (), m1)
              | Some (f, c) \<Rightarrow>
                  (let (tid, m) = fresh_uuid m1;
                       k = resolve_executor f c;
                       q = (if so_queue so \<noteq> [] then so_queue so else or_str (tc_queue c) ''default'');
                       prio = (case so_priority so of None \<Rightarrow> tc_priority c | Some x \<Rightarrow> Some x);
                       m2 = tm_create tid (fn_name f) (so_args so) (so_kwargs so)
                              (so_idempotency_key so) (Some (so_tags so)) (so_encrypted_payload so)
                              ''scheduled'' prio (Some k) q m
                   in dispatch_fired f c tid (so_args so) (so_kwargs so) k q prio m2))"

section \<open>One turn of the loop\<close>

text \<open>Whether the earliest entry is due; \<open>heap[0]\<close>.\<close>

definition due :: "datetime \<Rightarrow> periodic \<Rightarrow> bool" where
  "due now p \<longleftrightarrow>
     (case heap_top (ps_key p) (ps_heap p) of None \<Rightarrow> False | Some i \<Rightarrow> ps_key p i \<le> instant now)"

text \<open>Popping and firing the earliest entry.\<close>

definition fire_top :: "cron_fun \<Rightarrow> datetime \<Rightarrow> periodic \<Rightarrow> tm \<Rightarrow> (py_exc + periodic) \<times> tm" where
  "fire_top cron now p m =
     (case heappop (ps_key p) (ps_heap p) of
        None \<Rightarrow> (Inr p, m)
      | Some (i, h) \<Rightarrow>
          (let p1 = p\<lparr>ps_heap := h\<rparr>
           in case dget (ps_objs p1) i of
                None \<Rightarrow> (Inr p1, m)
              | Some e \<Rightarrow>
                  if se_cancelled e then (Inr p1, m)
                  else case se_once e of
                    None \<Rightarrow>
                      (case fire cron i e now p1 m of
                         (Inl x, m') \<Rightarrow> (Inl x, m')
                       | (Inr p2, m') \<Rightarrow> (Inr (push_obj i p2), m'))
                  | Some so \<Rightarrow>
                      (let p2 = p1\<lparr>ps_one_offs := dpop (so_run_key so) (ps_one_offs p1)\<rparr>
                       in case fire_once so m of
                            (Inl x, m') \<Rightarrow> (Inl x, m')
                          | (Inr _, m') \<Rightarrow> (Inr p2, m'))))"

text \<open>
  The inner loop with fuel: \<open>None\<close> when the fuel ran out. Every entry whose next run moves past
  \<open>now\<close> is fired at most once, so the length of the heap is enough (\<open>fire_due_terminates\<close>).
\<close>

fun fire_due :: "nat \<Rightarrow> cron_fun \<Rightarrow> datetime \<Rightarrow> periodic \<Rightarrow> tm \<Rightarrow> ((py_exc + periodic) \<times> tm) option"
  where
  "fire_due 0 cron now p m = (if due now p then None else Some (Inr p, m))"
| "fire_due (Suc n) cron now p m =
     (if \<not> due now p then Some (Inr p, m)
      else case fire_top cron now p m of
             (Inl x, m') \<Rightarrow> Some (Inl x, m')
           | (Inr p', m') \<Rightarrow> fire_due n cron now p' m')"

definition refill_due :: "datetime \<Rightarrow> periodic \<Rightarrow> tm \<Rightarrow> periodic" where
  "refill_due now p m =
     (if ps_supports_one_off p \<and> instant (ps_next_refill p) \<le> instant now
      then (refill (tm_registry m) (tm_backend m) now p)
             \<lparr>ps_next_refill := add_us now (ps_refill_interval p)\<rparr>
      else p)"

definition periodic_turn :: "nat \<Rightarrow> cron_fun \<Rightarrow> tm \<Rightarrow> tm option" where
  "periodic_turn fuel cron m0 =
     (case tm_periodic m0 of
        None \<Rightarrow> Some m0
      | Some p0 \<Rightarrow>
          if \<not> ps_running p0 \<or> ps_dead p0 then Some m0
          else let now = tm_now m0; m = tm_tick m0; p = refill_due now p0 m
               in case fire_due fuel cron now p m of
                    None \<Rightarrow> None
                  | Some (Inr p', m') \<Rightarrow> Some (set_periodic (p'\<lparr>ps_wake := False\<rparr>) m')
                  | Some (Inl x, m') \<Rightarrow> Some (set_periodic (p\<lparr>ps_dead := True\<rparr>) m'))"

text \<open>How long \<open>_run\<close> then sleeps, in microseconds, unless it is woken.\<close>

definition sleep_for :: "datetime \<Rightarrow> periodic \<Rightarrow> int" where
  "sleep_for now p =
     (let ds = (case heap_top (ps_key p) (ps_heap p) of None \<Rightarrow> [] | Some i \<Rightarrow> [ps_key p i])
               @ (if ps_supports_one_off p then [instant (ps_next_refill p)] else [])
      in if ds = [] then 1000000 else max 1000 (Min (set ds) - instant now))"

end
