(* ===== verification/Manager.thy ===== *)
theory Manager
  imports Snapshot Periodic "HOL-Library.List_Lexorder" "HOL-Library.Char_ord"
begin

text \<open>
  The operations of \<open>TaskManager\<close> (\<^verbatim>\<open>src/fastapi_taskflow/manager.py\<close>): the decorators, one-off
  schedules, queue statistics and live configuration, the merged view of all instances, startup
  and shutdown. Calls handed to \<open>asyncio.create_task\<close> wait in \<open>tm_deferred\<close> until \<open>run_deferred\<close>.
  The start and close hooks of user-written observers have no part in the modelled state, and
  signal handlers only call \<open>notify_shutdown\<close>.
\<close>

section \<open>Time and composition\<close>

definition unix_epoch :: int where "unix_epoch = 62135596800000000"

text \<open>\<open>time.time()\<close> and \<open>time.monotonic()\<close>.\<close>

definition unix_time :: "tm \<Rightarrow> rat" where
  "unix_time m = of_int (dt_wall (tm_now m) - unix_epoch) / 1000000"

definition mono_now :: "tm \<Rightarrow> int" where
  "mono_now m = tm_mono m (tm_ticks m)"

definition then_do ::
  "(py_exc + unit) \<times> tm \<Rightarrow> (tm \<Rightarrow> (py_exc + unit) \<times> tm) \<Rightarrow> (py_exc + unit) \<times> tm" where
  "then_do r f = (case r of (Inl e, m) \<Rightarrow> (Inl e, m) | (Inr _, m) \<Rightarrow> f m)"

lemma then_do_simps [simp]:
  "then_do (Inl e, m) f = (Inl e, m)" "then_do (Inr u, m) f = f m"
  by (simp_all add: then_do_def)

section \<open>Deferred backend calls\<close>

definition defer_call :: "deferred \<Rightarrow> tm \<Rightarrow> tm" where
  "defer_call d m = m\<lparr>tm_deferred := tm_deferred m @ [d]\<rparr>"

fun run_call :: "deferred \<Rightarrow> sqlite \<Rightarrow> sqlite" where
  "run_call (DSaveMetadata k v) db = sq_save_metadata k v db"
| "run_call (DDeleteRecords ids) db = snd (sq_delete_records ids db)"

definition run_deferred :: "tm \<Rightarrow> tm" where
  "run_deferred m =
     m\<lparr>tm_backend := map_option (fold run_call (tm_deferred m)) (tm_backend m), tm_deferred := []\<rparr>"

section \<open>Decorators\<close>

text \<open>
  \<open>task(...)\<close>: \<open>o'\<close> holds the decorator's arguments. An explicit executor is validated before
  anything is registered.
\<close>

definition check_executor :: "pickler \<Rightarrow> task_config \<Rightarrow> pyfunc \<Rightarrow> py_exc + unit" where
  "check_executor pk c f = (case tc_executor c of None \<Rightarrow> Inr () | Some k \<Rightarrow> validate pk k f)"

definition named_config :: "task_config \<Rightarrow> pyfunc \<Rightarrow> task_config" where
  "named_config c f = c\<lparr>tc_name := Some (or_str (tc_name c) (fn_name f))\<rparr>"

definition task_decorator :: "task_config \<Rightarrow> pyfunc \<Rightarrow> tm \<Rightarrow> (py_exc + unit) \<times> tm" where
  "task_decorator o' f m =
     (let c = named_config o' f
      in case check_executor (tm_pickler m) c f of
           Inl e \<Rightarrow> (Inl e, m)
         | Inr _ \<Rightarrow>
             (let m1 = m\<lparr>tm_registry := register f c (tm_registry m)\<rparr>
              in (Inr (), if tc_persist c \<and> tm_backend m1 \<noteq> None
                          then m1\<lparr>tm_requeue_pending := True\<rparr> else m1)))"

record schedule_opts =
  sc_every :: "int option"
  sc_cron :: "string option"
  sc_run_on_startup :: bool
  sc_timezone :: string

text \<open>The configuration \<open>schedule\<close> builds has no persist, requeue, eager or priority setting.\<close>

definition schedule_config :: "task_config \<Rightarrow> pyfunc \<Rightarrow> task_config" where
  "schedule_config o' f =
     default_config\<lparr>tc_retries := tc_retries o', tc_delay := tc_delay o', tc_backoff := tc_backoff o',
       tc_name := Some (or_str (tc_name o') (fn_name f)), tc_executor := tc_executor o',
       tc_queue := tc_queue o'\<rparr>"

definition recurring_entry ::
  "pyfunc \<Rightarrow> task_config \<Rightarrow> schedule_opts \<Rightarrow> datetime \<Rightarrow> sched_entry" where
  "recurring_entry f c s now =
     \<lparr>se_func = f, se_config = c, se_every = sc_every s, se_cron = sc_cron s,
      se_run_on_startup = sc_run_on_startup s, se_timezone = sc_timezone s, se_next_run = now,
      se_once = None, se_cancelled = False\<rparr>"

definition schedule_decorator ::
  "schedule_opts \<Rightarrow> task_config \<Rightarrow> pyfunc \<Rightarrow> tm \<Rightarrow> (py_exc + unit) \<times> tm" where
  "schedule_decorator s o' f m =
     (if (sc_every s = None) = (sc_cron s = None)
      then (Inl (ValueError ''Provide exactly one of every or cron.''), m)
      else let c = schedule_config o' f
           in case check_executor (tm_pickler m) c f of
                Inl e \<Rightarrow> (Inl e, m)
              | Inr _ \<Rightarrow>
                  (let m1 = m\<lparr>tm_registry := register f c (tm_registry m)\<rparr>;
                       e = recurring_entry f c s (tm_now m1);
                       m2 = tm_tick m1
                   in (Inr (),
                       case tm_periodic m2 of
                         None \<Rightarrow>
                           set_periodic (append_entry e (new_periodic (tm_backend m2 \<noteq> None) (tm_now m2)))
                             (tm_tick m2)
                       | Some p \<Rightarrow>
                           if ps_running p then set_periodic (add_entry e p) m2
                           else set_periodic (append_entry e p) m2)))"

section \<open>One-off schedules\<close>

definition require_scheduled_once :: "tm \<Rightarrow> py_exc + sqlite" where
  "require_scheduled_once m =
     (case tm_backend m of
        None \<Rightarrow> Inl (RuntimeError ''schedule_once() requires a snapshot backend'')
      | Some db \<Rightarrow> Inr db)"

record once_opts =
  oo_idempotency_key :: "string option"
  oo_tags :: "(string, string) dict option"
  oo_priority :: "int option"
  oo_queue :: "string option"

definition arm :: "scheduled_once \<Rightarrow> datetime \<Rightarrow> registry \<Rightarrow> periodic \<Rightarrow> periodic" where
  "arm so now rg p =
     (if dt_le (so_fire_at so) (add_us now (ps_horizon p))
      then snd (add_one_off rg so p)
      else cancel_one_off (so_run_key so) p)"

definition once_of ::
  "pyfunc \<Rightarrow> task_config \<Rightarrow> once_opts \<Rightarrow> datetime \<Rightarrow> string \<Rightarrow> string option \<Rightarrow> pyargs \<Rightarrow> pykwargs
   \<Rightarrow> datetime \<Rightarrow> scheduled_once" where
  "once_of f c o' run_at k enc as kw now =
     \<lparr>so_run_key = k, so_func_name = fn_name f, so_fire_at = run_at, so_args = as, so_kwargs = kw,
      so_encrypted_payload = enc, so_queue = or_str (oo_queue o') (or_str (tc_queue c) ''default''),
      so_priority = (case oo_priority o' of None \<Rightarrow> tc_priority c | Some p \<Rightarrow> Some p),
      so_idempotency_key = oo_idempotency_key o',
      so_tags = (case oo_tags o' of None \<Rightarrow> [] | Some t \<Rightarrow> t), so_created_at = now\<rparr>"

definition schedule_once ::
  "pyfunc \<Rightarrow> pyargs \<Rightarrow> pykwargs \<Rightarrow> datetime \<Rightarrow> string \<Rightarrow> once_opts \<Rightarrow> tm \<Rightarrow> (py_exc + unit) \<times> tm"
  where
  "schedule_once f as kw run_at k o' m =
     (case require_scheduled_once m of
        Inl e \<Rightarrow> (Inl e, m)
      | Inr _ \<Rightarrow>
          (let c = (case get_config (tm_registry m) f of None \<Rightarrow> default_config | Some c \<Rightarrow> c)
           in case validate_args (tm_pickler m) (resolve_executor f c) as kw of
                Inl e \<Rightarrow> (Inl e, m)
              | Inr _ \<Rightarrow>
                  (let (enc, sas, skw, m1) = seal_args as kw m;
                       so = once_of f c o' (as_utc_aware run_at) k enc sas skw (tm_now m1);
                       m2 = (tm_tick m1)\<lparr>tm_backend := map_option (sq_save_scheduled so) (tm_backend m1)\<rparr>
                   in (Inr (),
                       case tm_periodic m2 of
                         None \<Rightarrow> m2
                       | Some p \<Rightarrow>
                           if ps_supports_one_off p
                           then set_periodic (arm so (tm_now m2) (tm_registry m2) p) (tm_tick m2)
                           else m2))))"

definition cancel_scheduled :: "string \<Rightarrow> tm \<Rightarrow> (py_exc + bool) \<times> tm" where
  "cancel_scheduled k m =
     (case require_scheduled_once m of
        Inl e \<Rightarrow> (Inl e, m)
      | Inr db \<Rightarrow>
          (let (removed, db') = sq_delete_scheduled k db;
               m1 = m\<lparr>tm_backend := Some db', tm_periodic := map_option (cancel_one_off k) (tm_periodic m)\<rparr>
           in (Inr removed, m1)))"

definition year_us :: int where "year_us = 365 * 86400 * 1000000"

definition list_scheduled :: "datetime option \<Rightarrow> tm \<Rightarrow> (py_exc + scheduled_once list) \<times> tm" where
  "list_scheduled before m =
     (case require_scheduled_once m of
        Inl e \<Rightarrow> (Inl e, m)
      | Inr db \<Rightarrow>
          (case before of
             Some b \<Rightarrow> (Inr (sq_load_due b db), m)
           | None \<Rightarrow> (Inr (sq_load_due (add_us (tm_now m) year_us) db), tm_tick m)))"

section \<open>Queue statistics and live configuration\<close>

definition count_status :: "task_status set \<Rightarrow> task_record list \<Rightarrow> int" where
  "count_status sts rs = int (length (filter (\<lambda>r. status r \<in> sts) rs))"

definition queue_stat :: "task_record list \<Rightarrow> string \<times> job task_queue \<Rightarrow> (string, pyval) dict" where
  "queue_stat all = (\<lambda>(name, q).
     let rs = filter (\<lambda>r. queue r = name) all
     in tq_stats q @
        [(''running'', VInt (count_status {RUNNING} rs)),
         (''finished'', VInt (count_status {SUCCESS, FAILED, INTERRUPTED, CANCELLED} rs)),
         (''rejected'', VInt (count_status {REJECTED} rs))])"

definition queue_stats :: "tm \<Rightarrow> (string, pyval) dict list" where
  "queue_stats m = map (queue_stat (store_list (tm_store m))) (sort_key fst (tm_queues m))"

text \<open>The queue and the table of configurations share one \<open>QueueConfig\<close> object.\<close>

definition share_config ::
  "string \<Rightarrow> queue_config \<Rightarrow> (string, queue_config) dict \<Rightarrow> (string, queue_config) dict" where
  "share_config n c d = (if n \<in> set (dkeys d) then dset n c d else d)"

definition config_val :: "queue_config \<Rightarrow> pyval" where
  "config_val c = VDict [(''concurrency'', opt_val VInt (qc_concurrency c)),
                         (''max_size'', opt_val VInt (qc_max_size c))]"

definition configs_json :: "(string, queue_config) dict \<Rightarrow> json" where
  "configs_json d = dumps (VDict (map (\<lambda>(n, c). (n, config_val c)) d))"

definition update_queue_config ::
  "string \<Rightarrow> int option \<Rightarrow> int option \<Rightarrow> tm \<Rightarrow> (py_exc + (string, pyval) dict) \<times> tm" where
  "update_queue_config name conc msize m =
     (case dget (tm_queues m) name of
        None \<Rightarrow> (Inl (KeyError name), m)
      | Some q \<Rightarrow>
          (let (r, q') = reconfigure conc msize q;
               m1 = m\<lparr>tm_queues := dset name q' (tm_queues m),
                      tm_queue_configs := share_config name (tq_config q') (tm_queue_configs m)\<rparr>
           in case r of
                Inl e \<Rightarrow> (Inl e, m1)
              | Inr _ \<Rightarrow>
                  (Inr (tq_stats q'),
                   if tm_backend m1 = None then m1
                   else defer_call (DSaveMetadata ''queue_configs'' (configs_json (tm_queue_configs m1))) m1)))"

section \<open>The merged view\<close>

definition overlay ::
  "task_record list \<Rightarrow> (string, task_record) dict \<Rightarrow> (string, task_record) dict" where
  "overlay rs d = fold (\<lambda>r. dset (task_id r) r) rs d"

text \<open>Reading the backend unless the cache is fresh; the age is checked again under the lock.\<close>

definition refresh_cache :: "sqlite \<Rightarrow> tm \<Rightarrow> tm" where
  "refresh_cache db m0 =
     (let m = tm_tick m0
      in if mono_now m0 - tm_cache_ts m0 > tm_merged_ttl m0
         then let m1 = tm_tick m
              in if mono_now m - tm_cache_ts m > tm_merged_ttl m
                 then tm_tick (m1\<lparr>tm_cache := sq_load db, tm_cache_ts := mono_now m1\<rparr>)
                 else m1
         else m)"

definition merge_views :: "task_record list \<Rightarrow> task_record list \<Rightarrow> task_record list \<Rightarrow> task_record list" where
  "merge_views cached peer_records live = dvals (overlay live (overlay peer_records (overlay cached [])))"

definition merged_list :: "http_get \<Rightarrow> tm \<Rightarrow> (py_exc + task_record list) \<times> tm" where
  "merged_list http m0 =
     (case tm_backend m0 of
        None \<Rightarrow> (Inr (dvals (overlay (store_list (tm_store m0)) [])), m0)
      | Some db \<Rightarrow>
          (let m = refresh_cache db m0
           in case tm_instance m of
                None \<Rightarrow> (Inr (merge_views (tm_cache m) [] (store_list (tm_store m0))), m)
              | Some i \<Rightarrow>
                  (case gather_peer_records http i (unix_time m) db of
                     Inl e \<Rightarrow> (Inl e, tm_tick m)
                   | Inr ps \<Rightarrow> (Inr (merge_views (tm_cache m) ps (store_list (tm_store m0))), tm_tick m))))"

section \<open>Startup\<close>

definition start_snapshots :: "tm \<Rightarrow> (py_exc + unit) \<times> tm" where
  "start_snapshots m =
     (if tm_backend m = None then (Inr (), m)
      else let m1 = snd (snap_load m)
           in then_do (if tm_requeue_pending m1
                       then (case requeue m1 of (Inl e, m2) \<Rightarrow> (Inl e, m2) | (Inr _, m2) \<Rightarrow> (Inr (), m2))
                       else (Inr (), m1))
                (\<lambda>m2. (Inr (), m2\<lparr>tm_flush_loop := True\<rparr>)))"

definition start_periodic :: "cron_fun \<Rightarrow> tm \<Rightarrow> (py_exc + unit) \<times> tm" where
  "start_periodic cron m =
     (case tm_periodic m of
        None \<Rightarrow> (Inr (), m)
      | Some p \<Rightarrow>
          (case ps_start cron (tm_now m) p of
             Inl e \<Rightarrow> (Inl e, tm_tick m) | Inr p' \<Rightarrow> (Inr (), set_periodic p' (tm_tick m))))"

definition start_instance :: "tm \<Rightarrow> (py_exc + unit) \<times> tm" where
  "start_instance m0 =
     (case (nonempty (tm_instance_url m0), tm_backend m0) of
        (Some url, Some db) \<Rightarrow>
          (let (iid, m) = fresh_uuid m0;
               i = new_instance iid url (tm_instance_prefix m) (tm_registry_ttl m) (tm_heartbeat m)
           in case instance_start i (unix_time m) db of
                Inl e \<Rightarrow> (Inl e, tm_tick (m\<lparr>tm_instance := Some i\<rparr>))
              | Inr (i', db') \<Rightarrow> (Inr (), tm_tick (m\<lparr>tm_instance := Some i', tm_backend := Some db'\<rparr>)))
      | _ \<Rightarrow> (Inr (), m0))"

text \<open>
  Overrides saved by \<open>update_queue_config\<close>; a malformed value ends the loop (the exception is
  swallowed), what was applied before it stays.
\<close>

fun apply_overrides ::
  "(string, pyval) dict \<Rightarrow> (string, queue_config) dict \<Rightarrow> (string, queue_config) dict" where
  "apply_overrides [] d = d"
| "apply_overrides ((n, v) # xs) d =
     (if n \<notin> set (dkeys d) then apply_overrides xs d
      else case bindr (as_dict v) (\<lambda>vals. bindr (get_opt as_int vals ''concurrency'') (\<lambda>c.
                  bindr (get_opt as_int vals ''max_size'') (\<lambda>s.
                  Inr \<lparr>qc_concurrency = c, qc_max_size = s\<rparr>))) of
             Inl _ \<Rightarrow> d
           | Inr cfg \<Rightarrow> apply_overrides xs (dset n cfg d))"

definition load_overrides :: "tm \<Rightarrow> tm" where
  "load_overrides m =
     (case tm_backend m of
        None \<Rightarrow> m
      | Some db \<Rightarrow>
          (case sq_load_metadata db ''queue_configs'' of
             None \<Rightarrow> m
           | Some j \<Rightarrow>
               (case as_dict (loads j) of
                  Inl _ \<Rightarrow> m
                | Inr d \<Rightarrow> m\<lparr>tm_queue_configs := apply_overrides d (tm_queue_configs m)\<rparr>)))"

fun start_queues :: "(string, queue_config) dict \<Rightarrow> tm \<Rightarrow> (py_exc + unit) \<times> tm" where
  "start_queues [] m = (Inr (), m)"
| "start_queues ((n, c) # xs) m =
     (case tq_setup (tq_init n c) of
        (Inl e, _) \<Rightarrow> (Inl e, m)
      | (Inr _, q) \<Rightarrow> start_queues xs (m\<lparr>tm_queues := dset n q (tm_queues m)\<rparr>))"

definition start_workers :: "tm \<Rightarrow> (py_exc + unit) \<times> tm" where
  "start_workers m =
     (if tm_queue_configs m \<noteq> []
      then let m1 = load_overrides m in start_queues (tm_queue_configs m1) m1
      else (Inr (), m\<lparr>tm_priority_worker := True\<rparr>))"

definition startup :: "cron_fun \<Rightarrow> tm \<Rightarrow> (py_exc + unit) \<times> tm" where
  "startup cron m =
     then_do (then_do (then_do (start_snapshots m) (start_periodic cron)) start_instance) start_workers"

section \<open>Shutdown\<close>

definition stop_workers :: "tm \<Rightarrow> tm" where
  "stop_workers m =
     (if tm_queues m \<noteq> [] then m\<lparr>tm_queues := []\<rparr> else m\<lparr>tm_priority_worker := False\<rparr>)"

definition stop_instance :: "tm \<Rightarrow> (py_exc + unit) \<times> tm" where
  "stop_instance m =
     (case (tm_instance m, tm_backend m) of
        (Some i, Some db) \<Rightarrow>
          (case instance_stop i db of
             Inl e \<Rightarrow> (Inl e, m)
           | Inr (_, db') \<Rightarrow> (Inr (), m\<lparr>tm_instance := None, tm_backend := Some db'\<rparr>))
      | _ \<Rightarrow> (Inr (), m))"

definition stop_snapshots :: "tm \<Rightarrow> tm" where
  "stop_snapshots m =
     (if tm_backend m = None then m
      else snd (flush_pending (snd (snap_flush (m\<lparr>tm_flush_loop := False\<rparr>)))))"

definition shutdown :: "tm \<Rightarrow> (py_exc + unit) \<times> tm" where
  "shutdown m =
     (let m1 = stop_workers (m\<lparr>tm_store := notify_shutdown (tm_store m)\<rparr>);
          m2 = m1\<lparr>tm_periodic := map_option ps_stop (tm_periodic m1)\<rparr>
      in then_do (stop_instance m2)
           (\<lambda>m3. let m4 = stop_snapshots m3
                 in (Inr (), m4\<lparr>tm_procs := process_shutdown (tm_procs m4)\<rparr>)))"

end
