(* ===== verification/Router.thy ===== *)
theory Router
  imports Manager Auth
begin

text \<open>
  \<^verbatim>\<open>src/fastapi_taskflow/router.py\<close>: the HTTP operations on tasks. A handler is a state transformer
  of the manager that returns its JSON answer or the exception it raises; \<open>HttpError\<close> is the
  \<open>HTTPException\<close> the client sees, any other exception is an internal error. \<open>actor\<close> is the user
  the guard has let through (\<open>actor_of\<close>). Request bodies have the types FastAPI has validated.
\<close>

section \<open>Shared steps\<close>

definition audit_append :: "audit_entry \<Rightarrow> tm \<Rightarrow> tm" where
  "audit_append e m =
     m\<lparr>tm_audit := (let l = tm_audit m @ [e] in drop (length l - 1000) l)\<rparr>"

definition audit ::
  "string \<Rightarrow> string \<Rightarrow> string \<Rightarrow> (string, pyval) dict \<Rightarrow> tm \<Rightarrow> tm" where
  "audit action tid actor detail m0 =
     (let (eid, m) = fresh_uuid m0
      in audit_append \<lparr>au_entry_id = eid, au_action = action, au_task_id = tid, au_actor = actor,
                       au_timestamp = tm_now m, au_detail = detail\<rparr> (tm_tick m))"

text \<open>The record in memory, else in the merged view.\<close>

definition find_record :: "http_get \<Rightarrow> string \<Rightarrow> tm \<Rightarrow> (py_exc + task_record option) \<times> tm" where
  "find_record http tid m =
     (case store_get (tm_store m) tid of
        Some r \<Rightarrow> (Inr (Some r), m)
      | None \<Rightarrow>
          if tm_backend m = None then (Inr None, m)
          else (case merged_list http m of
                  (Inl e, m') \<Rightarrow> (Inl e, m')
                | (Inr rs, m') \<Rightarrow> (Inr (find (\<lambda>r. task_id r = tid) rs), m')))"

definition retryable :: "task_status \<Rightarrow> bool" where
  "retryable st \<longleftrightarrow> st = FAILED \<or> st = INTERRUPTED \<or> st = REJECTED"

text \<open>A new task with the function, arguments, tags and queue of \<open>r\<close>, and its dispatch.\<close>

definition redispatch ::
  "task_record \<Rightarrow> pyfunc \<Rightarrow> task_config \<Rightarrow> tm \<Rightarrow> (py_exc + string) \<times> tm" where
  "redispatch r f c m0 =
     (let (nid, m) = fresh_uuid m0;
          k = resolve_executor f c;
          q = or_default (queue r) ''default'';
          m1 = tm_create nid (fn_name f) (args r) (kwargs r) None (Some (tags r)) None ''manual'' None
                 (Some k) q m;
          j = make_job f nid c (args r) (kwargs r) k m1
      in if tm_queues m1 \<noteq> []
         then (case tm_enqueue q nid (priority r) j m1 of
                 (Inl e, m2) \<Rightarrow> (Inl e, m2) | (Inr _, m2) \<Rightarrow> (Inr nid, m2))
         else (Inr nid, spawn j m1))"

text \<open>\<open>retry_replaces_original\<close>: the originals leave the store at once, the backend later.\<close>

definition drop_originals :: "string list \<Rightarrow> tm \<Rightarrow> tm" where
  "drop_originals ids m =
     (if \<not> tm_retry_replaces m \<or> ids = [] then m
      else let m1 = m\<lparr>tm_store := fold (\<lambda>i s. snd (store_delete i s)) ids (tm_store m)\<rparr>
           in if tm_backend m1 = None then m1 else defer_call (DDeleteRecords ids) m1)"

definition task_view :: "string \<Rightarrow> tm \<Rightarrow> pyval" where
  "task_view tid m =
     (case store_get (tm_store m) tid of None \<Rightarrow> VDict [] | Some r \<Rightarrow> VDict (to_dict r))"

section \<open>Reading\<close>

definition list_tasks :: "http_get \<Rightarrow> tm \<Rightarrow> (py_exc + pyval) \<times> tm" where
  "list_tasks http m =
     (case merged_list http m of
        (Inl e, m') \<Rightarrow> (Inl e, m')
      | (Inr rs, m') \<Rightarrow> (Inr (VList (map (\<lambda>r. VDict (to_dict r)) rs)), m'))"

definition peer_tasks :: "tm \<Rightarrow> pyval" where
  "peer_tasks m = VList (map (\<lambda>r. VDict (to_dict r)) (store_list (tm_store m)))"

definition get_audit :: "tm \<Rightarrow> pyval" where
  "get_audit m = VList (map (\<lambda>e. VDict (au_to_dict e)) (rev (tm_audit m)))"

definition get_task :: "http_get \<Rightarrow> string \<Rightarrow> tm \<Rightarrow> (py_exc + pyval) \<times> tm" where
  "get_task http tid m =
     (case find_record http tid m of
        (Inl e, m') \<Rightarrow> (Inl e, m')
      | (Inr None, m') \<Rightarrow> (Inl (HttpError 404 ''Task not found''), m')
      | (Inr (Some r), m') \<Rightarrow> (Inr (VDict (to_dict r)), m'))"

text \<open>\<open>round(x, 6)\<close>: to the nearest, a tie to the even last digit.\<close>

definition round_half_even :: "rat \<Rightarrow> int" where
  "round_half_even q =
     (let f = floor q; d = q - of_int f
      in if d < 1 / 2 then f else if d > 1 / 2 then f + 1 else if even f then f else f + 1)"

definition metrics_of :: "task_record list \<Rightarrow> (string, pyval) dict" where
  "metrics_of ts =
     (let total = int (length ts);
          success = count_status {SUCCESS} ts;
          ds = List.map_filter duration ts;
          avg = (if ds = [] then 0 else sum_list ds / of_nat (length ds))
      in [(''total'', VInt total), (''success'', VInt success),
          (''failed'', VInt (count_status {FAILED} ts)), (''running'', VInt (count_status {RUNNING} ts)),
          (''pending'', VInt (count_status {PENDING} ts)),
          (''interrupted'', VInt (count_status {INTERRUPTED} ts)),
          (''success_rate'', VFloat (if total > 0 then of_int success / of_int total else 0)),
          (''avg_duration_seconds'', VFloat (of_int (round_half_even (avg * 1000000)) / 1000000))])"

definition get_metrics :: "http_get \<Rightarrow> tm \<Rightarrow> (py_exc + pyval) \<times> tm" where
  "get_metrics http m =
     (case merged_list http m of
        (Inl e, m') \<Rightarrow> (Inl e, m') | (Inr ts, m') \<Rightarrow> (Inr (VDict (metrics_of ts)), m'))"

definition list_queues :: "tm \<Rightarrow> pyval" where
  "list_queues m = VList (map VDict (queue_stats m))"

section \<open>Queue configuration\<close>

definition update_queue ::
  "string \<Rightarrow> int option \<Rightarrow> int option \<Rightarrow> string \<Rightarrow> tm \<Rightarrow> (py_exc + pyval) \<times> tm" where
  "update_queue name conc msize actor m =
     (if tm_queues m = [] then (Inl (HttpError 400 ''Named queue system is not active.''), m)
      else case update_queue_config name conc msize m of
             (Inl e, m') \<Rightarrow>
               (Inl (case e of KeyError k \<Rightarrow> HttpError 404 (''No queue named '' @ k) | _ \<Rightarrow> e), m')
           | (Inr st, m') \<Rightarrow>
               (Inr (VDict st),
                audit ''update_queue'' name actor
                  [(''concurrency'', opt_val VInt conc), (''max_size'', opt_val VInt msize)] m'))"

section \<open>Retry\<close>

definition retry_task :: "http_get \<Rightarrow> string \<Rightarrow> string \<Rightarrow> tm \<Rightarrow> (py_exc + pyval) \<times> tm" where
  "retry_task http tid actor m0 =
     (case find_record http tid m0 of
        (Inl e, m) \<Rightarrow> (Inl e, m)
      | (Inr None, m) \<Rightarrow> (Inl (HttpError 404 ''Task not found''), m)
      | (Inr (Some r), m) \<Rightarrow>
          if \<not> retryable (status r)
          then (Inl (HttpError 400 (''Only failed, interrupted, or rejected tasks can be retried. Current status: ''
                                    @ status_value (status r))), m)
          else case get_by_name (tm_registry m) (func_name r) of
                 None \<Rightarrow> (Inl (HttpError 409 (func_name r)), m)
               | Some (f, c) \<Rightarrow>
                   (case redispatch r f c m of
                      (Inl e, m1) \<Rightarrow> (Inl e, m1)
                    | (Inr nid, m1) \<Rightarrow>
                        (let m2 = audit ''retry'' tid actor [(''new_task_id'', VStr nid)]
                                    (drop_originals [tid] m1)
                         in (Inr (VDict [(''task_id'', VStr nid), (''task'', task_view nid m2)]), m2))))"

record retry_acc =
  ra_map :: "task_record list option"   \<comment> \<open>the merged view, read at most once\<close>
  ra_skipped :: nat
  ra_results :: "(string \<times> string) list"

text \<open>What becomes of one candidate once its record is known.\<close>

definition retry_known :: "task_record \<Rightarrow> string \<Rightarrow> retry_acc \<Rightarrow> tm \<Rightarrow> (py_exc + retry_acc) \<times> tm" where
  "retry_known r tid a m =
     (case get_by_name (tm_registry m) (func_name r) of
        None \<Rightarrow> (Inr (a\<lparr>ra_skipped := Suc (ra_skipped a)\<rparr>), m)
      | Some (f, c) \<Rightarrow>
          (case redispatch r f c m of
             (Inl e, m') \<Rightarrow> (Inl e, m')
           | (Inr nid, m') \<Rightarrow> (Inr (a\<lparr>ra_results := ra_results a @ [(tid, nid)]\<rparr>), m')))"

text \<open>\<open>all_records_map\<close>, loaded when the first id is not in memory.\<close>

definition bulk_lookup ::
  "http_get \<Rightarrow> string \<Rightarrow> retry_acc \<Rightarrow> tm \<Rightarrow> (py_exc + task_record option \<times> retry_acc) \<times> tm" where
  "bulk_lookup http tid a m =
     (case store_get (tm_store m) tid of
        Some r \<Rightarrow> (Inr (Some r, a), m)
      | None \<Rightarrow>
          if tm_backend m = None then (Inr (None, a), m)
          else case ra_map a of
                 Some rs \<Rightarrow> (Inr (find (\<lambda>r. task_id r = tid) rs, a), m)
               | None \<Rightarrow>
                   (case merged_list http m of
                      (Inl e, m') \<Rightarrow> (Inl e, m')
                    | (Inr rs, m') \<Rightarrow>
                        (Inr (find (\<lambda>r. task_id r = tid) rs, a\<lparr>ra_map := Some rs\<rparr>), m')))"

definition bulk_one :: "http_get \<Rightarrow> string \<Rightarrow> retry_acc \<Rightarrow> tm \<Rightarrow> (py_exc + retry_acc) \<times> tm" where
  "bulk_one http tid a0 m0 =
     (case bulk_lookup http tid a0 m0 of
        (Inl e, m) \<Rightarrow> (Inl e, m)
      | (Inr (None, a), m) \<Rightarrow> (Inr (a\<lparr>ra_skipped := Suc (ra_skipped a)\<rparr>), m)
      | (Inr (Some r, a), m) \<Rightarrow>
          if \<not> retryable (status r) then (Inr (a\<lparr>ra_skipped := Suc (ra_skipped a)\<rparr>), m)
          else retry_known r tid a m)"

fun bulk_loop :: "http_get \<Rightarrow> string list \<Rightarrow> retry_acc \<Rightarrow> tm \<Rightarrow> (py_exc + retry_acc) \<times> tm" where
  "bulk_loop http [] a m = (Inr a, m)"
| "bulk_loop http (t # ts) a m =
     (case bulk_one http t a m of
        (Inl e, m') \<Rightarrow> (Inl e, m') | (Inr a', m') \<Rightarrow> bulk_loop http ts a' m')"

definition retry_reply :: "retry_acc \<Rightarrow> pyval" where
  "retry_reply a =
     VDict [(''dispatched'', VInt (int (length (ra_results a)))),
            (''skipped'', VInt (int (ra_skipped a))),
            (''results'', VList (map (\<lambda>(o', n). VDict [(''original_task_id'', VStr o'),
                                                       (''new_task_id'', VStr n)]) (ra_results a)))]"

definition empty_acc :: retry_acc where
  "empty_acc = \<lparr>ra_map = None, ra_skipped = 0, ra_results = []\<rparr>"

definition bulk_retry :: "http_get \<Rightarrow> string list \<Rightarrow> string \<Rightarrow> tm \<Rightarrow> (py_exc + pyval) \<times> tm" where
  "bulk_retry http ids actor m =
     (case bulk_loop http ids empty_acc m of
        (Inl e, m') \<Rightarrow> (Inl e, m')
      | (Inr a, m') \<Rightarrow>
          (Inr (retry_reply a),
           audit ''bulk_retry'' ''bulk'' actor
             [(''dispatched'', VInt (int (length (ra_results a)))),
              (''skipped'', VInt (int (ra_skipped a))),
              (''task_ids'', VList (map VStr (take 20 ids)))]
             (drop_originals (map fst (ra_results a)) m')))"

section \<open>Time windows\<close>

definition day_us :: int where "day_us = 86400000000"

text \<open>
  \<open>now - timedelta(...)\<close>: \<open>OverflowError\<close> when the interval exceeds 999999999 days or the result
  lies before year 1.
\<close>

definition before_now :: "datetime \<Rightarrow> int \<Rightarrow> py_exc + datetime" where
  "before_now now us =
     (if us \<ge> 1000000000 * day_us then Inl (OverflowError ''days; must have magnitude <= 999999999'')
      else if dt_wall now - us < 0 then Inl (OverflowError ''date value out of range'')
      else Inr (add_us now (- us)))"

text \<open>\<open>re.match(r'^(\d+)(h|d)$', since)\<close>; \<open>$\<close> also matches before a final newline.\<close>

definition parse_window :: "string \<Rightarrow> (nat \<times> char) option" where
  "parse_window s =
     (let d = takeWhile is_digit s; r = dropWhile is_digit s
      in if d \<noteq> [] \<and> r \<in> {''h'', ''d'', [CHR ''h'', CHR 0x0A], [CHR ''d'', CHR 0x0A]}
         then Some (undigits d, hd r) else None)"

definition parse_since :: "string \<Rightarrow> datetime \<Rightarrow> py_exc + datetime option" where
  "parse_since s now =
     (if s = ''all'' then Inr None
      else case parse_window s of
             None \<Rightarrow> Inl (ValueError s)
           | Some (n, u) \<Rightarrow>
               (case before_now now (int n * (if u = CHR ''h'' then 3600000000 else day_us)) of
                  Inl e \<Rightarrow> Inl e | Inr t \<Rightarrow> Inr (Some t)))"

definition retry_candidate :: "datetime option \<Rightarrow> string option \<Rightarrow> task_record \<Rightarrow> bool" where
  "retry_candidate cutoff fn r \<longleftrightarrow>
     (status r = FAILED \<or> status r = INTERRUPTED)
     \<and> (case cutoff of None \<Rightarrow> True | Some c \<Rightarrow> dt_le c (as_utc_aware (created_at r)))
     \<and> (case fn of None \<Rightarrow> True | Some n \<Rightarrow> func_name r = n)"

fun retry_each :: "task_record list \<Rightarrow> retry_acc \<Rightarrow> tm \<Rightarrow> (py_exc + retry_acc) \<times> tm" where
  "retry_each [] a m = (Inr a, m)"
| "retry_each (r # rs) a m =
     (case retry_known r (task_id r) a m of
        (Inl e, m') \<Rightarrow> (Inl e, m') | (Inr a', m') \<Rightarrow> retry_each rs a' m')"

definition retry_failed_route ::
  "http_get \<Rightarrow> string \<Rightarrow> string option \<Rightarrow> string \<Rightarrow> tm \<Rightarrow> (py_exc + pyval) \<times> tm" where
  "retry_failed_route http since fn actor m0 =
     (let now = tm_now m0; m = (if since = ''all'' \<or> parse_window since = None then m0 else tm_tick m0)
      in case parse_since since now of
           Inl e \<Rightarrow> (Inl (case e of ValueError v \<Rightarrow> HttpError 400 v | _ \<Rightarrow> e), m)
         | Inr cutoff \<Rightarrow>
             (case merged_list http m of
                (Inl e, m1) \<Rightarrow> (Inl e, m1)
              | (Inr rs, m1) \<Rightarrow>
                  (case retry_each (filter (retry_candidate cutoff fn) rs) empty_acc m1 of
                     (Inl e, m2) \<Rightarrow> (Inl e, m2)
                   | (Inr a, m2) \<Rightarrow>
                       (Inr (retry_reply a),
                        audit ''bulk_retry'' ''bulk'' actor
                          [(''since'', VStr since), (''func_name'', opt_val VStr fn),
                           (''dispatched'', VInt (int (length (ra_results a)))),
                           (''skipped'', VInt (int (ra_skipped a)))]
                          (drop_originals (map fst (ra_results a)) m2)))))"

section \<open>Cancel and history\<close>

text \<open>\<open>finished\<close>: whether the registered asyncio task of the id is already done (\<open>inner.done()\<close>).\<close>

definition cancel_task :: "(string \<Rightarrow> bool) \<Rightarrow> string \<Rightarrow> string \<Rightarrow> tm \<Rightarrow> (py_exc + pyval) \<times> tm" where
  "cancel_task finished tid actor m =
     (let ok = (\<lambda>m1. let m2 = audit ''cancel'' tid actor [] m1
                     in (Inr (VDict [(''task_id'', VStr tid), (''task'', task_view tid m2)]), m2))
      in case store_get (tm_store m) tid of
           None \<Rightarrow> (Inl (HttpError 404 ''Task not found''), m)
         | Some r \<Rightarrow>
             if status r = PENDING
             then let e = tm_now m;
                      m1 = tm_upd tid (\<lambda>r. r\<lparr>status := CANCELLED, end_time := Some e\<rparr>) (tm_tick m)
                  in ok (case tm_backend m1 of
                           None \<Rightarrow> m1
                         | Some db \<Rightarrow>
                             (tm_tick m1)\<lparr>tm_backend :=
                                Some (flush_one tid (dt_wall (tm_now m1)) (tm_store m1) db)\<rparr>)
             else if status r = RUNNING
             then if tid \<notin> set (dkeys (tm_running m)) \<or> finished tid
                  then (Inl (HttpError 400 ''Task is running but no cancellable handle is registered.''), m)
                  else ok (m\<lparr>tm_cancels := tm_cancels m @ [tid]\<rparr>)
             else (Inl (HttpError 400 (''Only pending or running tasks can be cancelled. Current status: ''
                                       @ status_value (status r))), m))"

definition unit_us :: "(string, int) dict" where
  "unit_us = [(''min'', 60000000), (''hour'', 3600000000), (''day'', day_us)]"

definition delete_history :: "int \<Rightarrow> string \<Rightarrow> tm \<Rightarrow> (py_exc + pyval) \<times> tm" where
  "delete_history n u m =
     (case dget unit_us u of
        None \<Rightarrow> (Inl (HttpError 400 (''Invalid unit '' @ u)), m)
      | Some us \<Rightarrow>
          (case before_now (tm_now m) (n * us) of
             Inl e \<Rightarrow> (Inl e, tm_tick m)
           | Inr cutoff \<Rightarrow>
               (let (k, s) = delete_completed_before cutoff (tm_store m);
                    m1 = (tm_tick m)\<lparr>tm_store := s\<rparr>;
                    (b, m2) = (case tm_backend m1 of
                                 None \<Rightarrow> (0, m1)
                               | Some db \<Rightarrow> (let (b, db') = sq_delete_before cutoff db
                                             in (b, invalidate_cache (m1\<lparr>tm_backend := Some db'\<rparr>))))
                in (Inr (VDict [(''deleted'', VInt (int b + max 0 (int k - int b))),
                                (''store'', VInt (int k)), (''backend'', VInt (int b))]), m2))))"

end
