(* ===== verification/Execution_Facts.thy ===== *)
theory Execution_Facts
  imports Execution
begin

text \<open>
  What one run of \<open>execute_task\<close> does. \<open>frame\<close> collects what no inner layer changes;
  \<open>retry_spec\<close> is the retry policy as a function of the attempts' outcomes alone, and the
  retry loop over the real dispatch refines it.
\<close>

section \<open>What the inner layers leave alone\<close>

definition strip :: "task_record \<Rightarrow> task_record" where
  "strip r = r\<lparr>retries_used := 0, logs := []\<rparr>"

definition frame :: "exec_ctx \<Rightarrow> exec_ctx \<Rightarrow> bool" where
  "frame c d \<longleftrightarrow>
     ec_func d = ec_func c \<and> ec_task_id d = ec_task_id c \<and> ec_config d = ec_config c
     \<and> ec_args d = ec_args c \<and> ec_kwargs d = ec_kwargs c \<and> ec_record d = ec_record c
     \<and> ec_executor d = ec_executor c \<and> ec_backend d = ec_backend c
     \<and> ec_on_success d = ec_on_success c \<and> ec_succeeded d = ec_succeeded c
     \<and> ec_clock d = ec_clock c \<and> ec_body d = ec_body c \<and> ec_sink d = ec_sink c
     \<and> pe_shutdown_called (ec_procs d) = pe_shutdown_called (ec_procs c)
     \<and> map_option strip (ec_fetch d) = map_option strip (ec_fetch c)"

lemma frame_refl [simp]: "frame c c"
  by (simp add: frame_def)

lemma frame_trans: "frame a b \<Longrightarrow> frame b c \<Longrightarrow> frame a c"
  by (simp add: frame_def)

lemma frame_fields:
  assumes "frame c d"
  shows "ec_task_id d = ec_task_id c" "ec_config d = ec_config c" "ec_body d = ec_body c"
    "ec_record d = ec_record c" "ec_backend d = ec_backend c" "ec_clock d = ec_clock c"
    "ec_on_success d = ec_on_success c" "ec_func d = ec_func c"
  using assms by (simp_all add: frame_def)

lemma strip_logs [simp]: "strip (r\<lparr>logs := l\<rparr>) = strip r" "strip (r\<lparr>retries_used := n\<rparr>) = strip r"
  by (simp_all add: strip_def)

lemma frame_sink_call: "frame c (sink_call l c)"
  by (auto simp: frame_def sink_call_def tick_def ec_fetch_def Let_def option.map_comp comp_def)

lemma frame_sinks: "frame c (fold sink_call ls c)"
proof (induction ls arbitrary: c)
  case (Cons l ls)
  show ?case using frame_trans [OF frame_sink_call Cons.IH] by simp
qed simp

lemma frame_drain: "frame c (drain_pending c)"
  by (simp add: frame_def drain_pending_def ec_fetch_def)

text \<open>The other tasks leave this task's record alone while it runs.\<close>

definition quiet :: "body \<Rightarrow> string \<Rightarrow> bool" where
  "quiet b tid \<longleftrightarrow>
     (\<forall>a s. store_get (bd_env b a s) tid = store_get s tid)
     \<and> (\<forall>a s. store_get (bd_sleep_env b a s) tid = store_get s tid)"

lemma frame_sleep: "quiet (ec_body c) (ec_task_id c) \<Longrightarrow> frame c (retry_sleep a c)"
  by (auto simp: frame_def retry_sleep_def ec_fetch_def quiet_def)

lemma frame_enter: "frame c (retry_enter a c)"
  by (auto simp: frame_def retry_enter_def ec_fetch_def ec_upd_def tick_def Let_def
        option.map_comp comp_def)

lemma frame_failed: "frame c (retry_failed m w c)"
  by (simp add: frame_def retry_failed_def drain_pending_def ec_fetch_def)

lemma frame_succeeded: "frame c (retry_succeeded c)"
  by (simp add: frame_def retry_succeeded_def drain_pending_def ec_fetch_def)

lemma frame_quiet: "frame c d \<Longrightarrow> quiet (ec_body d) (ec_task_id d) = quiet (ec_body c) (ec_task_id c)"
  by (simp add: frame_def)

lemma dispatch_shutdown_flag:
  "pe_shutdown_called (snd (snd (dispatch pk k as kw tid cl p))) = pe_shutdown_called p"
  by (auto simp: dispatch_def process_dispatch_def local_dispatch_def ensure_pool_def
        split: exec_kind.splits option.splits worker_result.splits)

lemma dispatch_outcome_cong:
  "pe_shutdown_called p = pe_shutdown_called q \<Longrightarrow>
   fst (snd (dispatch pk k as kw tid cl p)) = fst (snd (dispatch pk k as kw tid cl q))"
  by (auto simp: dispatch_def process_dispatch_def local_dispatch_def ensure_pool_def
        split: exec_kind.splits option.splits worker_result.splits)

text \<open>How attempt \<open>a\<close> ends.\<close>

definition attempt_outcome :: "exec_ctx \<Rightarrow> int \<Rightarrow> outcome" where
  "attempt_outcome c a =
     fst (snd (dispatch (bd_pickler (ec_body c)) (implicit_kind c) (ec_args c) (ec_kwargs c)
                 (ec_task_id c) (bd_call (ec_body c) (ec_args c) (ec_kwargs c) a) (ec_procs c)))"

lemma frame_attempt_outcome: "frame c d \<Longrightarrow> attempt_outcome d a = attempt_outcome c a"
proof -
  assume f: "frame c d"
  then have "implicit_kind d = implicit_kind c" by (simp add: implicit_kind_def frame_def)
  moreover have "pe_shutdown_called (ec_procs d) = pe_shutdown_called (ec_procs c)"
    using f by (simp add: frame_def)
  ultimately show ?thesis
    using f dispatch_outcome_cong [of "ec_procs d" "ec_procs c"]
    by (simp add: attempt_outcome_def frame_def)
qed

lemma dispatch_endpoint_outcome: "fst (dispatch_endpoint c) = attempt_outcome c (ec_attempt c)"
  by (simp add: dispatch_endpoint_def attempt_outcome_def Let_def case_prod_beta)

lemma frame_dispatch:
  assumes "quiet (ec_body c) (ec_task_id c)"
  shows "frame c (snd (dispatch_endpoint c))"
proof -
  let ?r = "dispatch (bd_pickler (ec_body c)) (implicit_kind c) (ec_args c) (ec_kwargs c)
              (ec_task_id c) (bd_call (ec_body c) (ec_args c) (ec_kwargs c) (ec_attempt c))
              (ec_procs c)"
  let ?c2 = "c\<lparr>ec_running := map_option (dset (ec_task_id c) (implicit_kind c)) (ec_running c),
               ec_store := bd_env (ec_body c) (ec_attempt c) (ec_store c),
               ec_procs := snd (snd ?r)\<rparr>"
  have "frame c ?c2"
    using assms by (simp add: frame_def ec_fetch_def quiet_def dispatch_shutdown_flag)
  moreover have "snd (dispatch_endpoint c) = fold sink_call (fst ?r) ?c2"
    by (simp add: dispatch_endpoint_def Let_def case_prod_beta)
  ultimately show ?thesis by (simp only:) (rule frame_trans [OF _ frame_sinks])
qed

section \<open>The retry policy\<close>

text \<open>
  The attempts' outcomes decide the result, the last error and the last attempt; between two
  attempts there is a sleep that may be cancelled.
\<close>

datatype verdict = Verdict (vd_out: outcome) (vd_error: "string option") (vd_attempt: int)

fun retry_spec ::
  "nat \<Rightarrow> int \<Rightarrow> rat \<Rightarrow> rat \<Rightarrow> (int \<Rightarrow> outcome) \<Rightarrow> (int \<Rightarrow> rat \<Rightarrow> bool) \<Rightarrow> string option \<Rightarrow> int
   \<Rightarrow> verdict" where
  "retry_spec 0 a d bo f sl err la = Verdict Done err la"
| "retry_spec (Suc n) a d bo f sl err la =
     (if a > 0 \<and> sl a d then Verdict Cancelled err a
      else case f a of
             Done \<Rightarrow> Verdict Done None a
           | Cancelled \<Rightarrow> Verdict Cancelled err a
           | Escaped e \<Rightarrow> Verdict (Escaped e) err a
           | Raised m i w \<Rightarrow>
               if i then Verdict Done err a
               else retry_spec n (a + 1) (if a > 0 then d * bo else d) bo f sl (Some m) a)"

lemma attempt_fields [simp]:
  "ec_attempt (drain_pending c) = ec_attempt c" "ec_attempt (retry_failed m w c) = ec_attempt c"
  "ec_attempt (retry_succeeded c) = ec_attempt c" "ec_attempt (retry_enter a c) = ec_attempt c"
  "ec_attempt (retry_sleep a c) = a" "ec_attempt (sink_call l c) = ec_attempt c"
  "ec_last_error (drain_pending c) = ec_last_error c"
  "ec_last_error (retry_failed m w c) = Some m" "ec_last_error (retry_succeeded c) = None"
  "ec_last_error (retry_enter a c) = ec_last_error c"
  "ec_last_error (retry_sleep a c) = ec_last_error c"
  "ec_last_error (sink_call l c) = ec_last_error c"
  by (simp_all add: drain_pending_def retry_failed_def retry_succeeded_def retry_enter_def
        retry_sleep_def sink_call_def tick_def Let_def ec_upd_def)

lemma sinks_fields:
  "ec_attempt (fold sink_call ls c) = ec_attempt c
   \<and> ec_last_error (fold sink_call ls c) = ec_last_error c"
  by (induction ls arbitrary: c) simp_all

lemma dispatch_fields [simp]:
  "ec_attempt (snd (dispatch_endpoint c)) = ec_attempt c"
  "ec_last_error (snd (dispatch_endpoint c)) = ec_last_error c"
  by (simp_all add: dispatch_endpoint_def Let_def case_prod_beta sinks_fields)

lemma frame_attempt:
  assumes "quiet (ec_body c) (ec_task_id c)"
  shows "frame c (snd (dispatch_endpoint (retry_enter a (retry_sleep a c))))"
    "fst (dispatch_endpoint (retry_enter a (retry_sleep a c))) = attempt_outcome c a"
proof -
  have f: "frame c (retry_enter a (retry_sleep a c))"
    using frame_sleep [OF assms] frame_enter frame_trans by metis
  then have "quiet (ec_body (retry_enter a (retry_sleep a c)))
               (ec_task_id (retry_enter a (retry_sleep a c)))"
    using assms frame_quiet by metis
  from frame_dispatch [OF this] f
  show "frame c (snd (dispatch_endpoint (retry_enter a (retry_sleep a c))))"
    using frame_trans by metis
  show "fst (dispatch_endpoint (retry_enter a (retry_sleep a c))) = attempt_outcome c a"
    by (simp add: dispatch_endpoint_outcome frame_attempt_outcome [OF f])
qed

lemma retry_loop_refines:
  assumes "quiet (ec_body c) (ec_task_id c)"
  shows "frame c (snd (retry_loop n a d dispatch_endpoint c))
     \<and> Verdict (fst (retry_loop n a d dispatch_endpoint c))
         (ec_last_error (snd (retry_loop n a d dispatch_endpoint c)))
         (ec_attempt (snd (retry_loop n a d dispatch_endpoint c)))
       = retry_spec n a d (tc_backoff (ec_config c)) (attempt_outcome c)
           (bd_sleep_cancelled (ec_body c)) (ec_last_error c) (ec_attempt c)"
  using assms
proof (induction n arbitrary: a d c)
  case (Suc n)
  let ?e = "dispatch_endpoint (retry_enter a (retry_sleep a c))"
  let ?d = "if a > 0 then d * tc_backoff (ec_config c) else d"
  note f = frame_attempt [OF Suc.prems, of a]
  show ?case
  proof (cases "a > 0 \<and> bd_sleep_cancelled (ec_body c) a d")
    case True
    then show ?thesis using frame_sleep [OF Suc.prems] by simp
  next
    case sl: False
    show ?thesis
    proof (cases "attempt_outcome c a")
      case Done
      then show ?thesis
        using sl f frame_succeeded frame_trans by (auto simp: case_prod_beta Let_def)
    next
      case Cancelled
      then show ?thesis
        using sl f frame_drain frame_trans by (auto simp: case_prod_beta Let_def)
    next
      case (Escaped e)
      then show ?thesis using sl f by (auto simp: case_prod_beta Let_def)
    next
      case (Raised m i w)
      show ?thesis
      proof (cases i)
        case True
        then show ?thesis using Raised sl f by (auto simp: case_prod_beta Let_def)
      next
        case False
        let ?c = "retry_failed m w (snd ?e)"
        have fr: "frame c ?c" using f(1) frame_failed frame_trans by metis
        have eq: "retry_loop (Suc n) a d dispatch_endpoint c
                    = retry_loop n (a + 1) ?d dispatch_endpoint ?c"
          using False Raised sl f(2) by (auto simp: case_prod_beta Let_def)
        have q: "quiet (ec_body ?c) (ec_task_id ?c)"
          using Suc.prems frame_quiet [OF fr] by simp
        have sp: "attempt_outcome ?c = attempt_outcome c" "ec_body ?c = ec_body c"
          "ec_config ?c = ec_config c"
          using frame_attempt_outcome [OF fr] frame_fields [OF fr] by auto
        show ?thesis
          unfolding eq using Suc.IH [OF q, of "a + 1" ?d] fr frame_trans Raised False sl
          by (auto simp: sp)
      qed
    qed
  qed
qed simp

section \<open>Finalisation\<close>

lemma observers_fetch [simp]:
  "ec_fetch (lifecycle_obs e c) = ec_fetch c" "ec_fetch (run_on_success c) = ec_fetch c"
  "ec_fetch (record_key c) = ec_fetch c" "ec_fetch (drain_pending c) = ec_fetch c"
  "ec_fetch (tick c) = ec_fetch c"
  by (auto simp: ec_fetch_def lifecycle_obs_def run_on_success_def record_key_def
        drain_pending_def tick_def split: option.splits)

lemma tick_fields [simp]:
  "ec_last_error (tick c) = ec_last_error c" "ec_last_tb (tick c) = ec_last_tb c"
  "ec_store (tick c) = ec_store c" "ec_config (tick c) = ec_config c"
  "ec_attempt (tick c) = ec_attempt c" "ec_task_id (tick c) = ec_task_id c"
  by (simp_all add: tick_def)

lemma fetch_upd [simp]: "ec_fetch (ec_upd f c) = map_option f (ec_fetch c)"
  by (simp add: ec_fetch_def ec_upd_def)

lemma fetch_enter:
  "ec_fetch (log_enter c)
     = map_option (\<lambda>r. r\<lparr>status := RUNNING, start_time := Some (ec_now c)\<rparr>) (ec_fetch c)"
  by (simp add: log_enter_def Let_def tick_def) (simp add: ec_fetch_def ec_upd_def)

text \<open>The record a finished run leaves.\<close>

definition finalised :: "string option \<Rightarrow> string option \<Rightarrow> datetime \<Rightarrow> task_record \<Rightarrow> task_record" where
  "finalised err tb e r =
     (case err of
        None \<Rightarrow> r\<lparr>status := SUCCESS, end_time := Some e\<rparr>
      | Some m \<Rightarrow> r\<lparr>status := FAILED, end_time := Some e, error := Some m, stacktrace := tb\<rparr>)"

lemma fetch_finish:
  assumes "ec_fetch c = Some r" and "status r = RUNNING"
  shows "ec_fetch (log_finish c) = Some (finalised (ec_last_error c) (ec_last_tb c) (ec_now c) r)"
proof (cases "ec_last_error c")
  case None
  have "ec_fetch (tick c\<lparr>ec_succeeded := True\<rparr>) = ec_fetch c"
    by (simp add: ec_fetch_def tick_def)
  then show ?thesis using None assms(1) by (simp add: log_finish_def Let_def finalised_def)
next
  case (Some e)
  then show ?thesis using assms by (simp add: log_finish_def Let_def finalised_def)
qed

lemma fetch_cancelled:
  assumes "ec_fetch c = Some r" and "status r = RUNNING"
  shows "ec_fetch (log_cancelled c) =
     Some (if st_shutting_down (ec_store c)
           then if tc_requeue_on_interrupt (ec_config c) then r\<lparr>status := PENDING\<rparr> else r
           else r\<lparr>status := CANCELLED, end_time := Some (ec_now c)\<rparr>)"
proof -
  have [simp]: "ec_now (drain_pending c) = ec_now c"
    "ec_store (drain_pending c) = ec_store c" "ec_config (drain_pending c) = ec_config c"
    by (simp_all add: ec_now_def drain_pending_def)
  show ?thesis using assms by (simp add: log_cancelled_def Let_def)
qed

text \<open>How the run of a job ends, from the attempts alone.\<close>

definition job_verdict :: "job \<Rightarrow> body \<Rightarrow> handles \<Rightarrow> pyargs \<times> pykwargs \<Rightarrow> verdict" where
  "job_verdict j b h a =
     retry_spec (nat (tc_retries (jb_config j) + 1)) 0 (tc_delay (jb_config j))
       (tc_backoff (jb_config j)) (attempt_outcome (make_ctx j b h a)) (bd_sleep_cancelled b)
       None 0"

fun ending :: "verdict \<Rightarrow> bool \<Rightarrow> bool \<Rightarrow> task_status" where
  "ending (Verdict Done None n) down requeue = SUCCESS"
| "ending (Verdict Done (Some e) n) down requeue = FAILED"
| "ending (Verdict Cancelled err n) down requeue =
     (if down then if requeue then PENDING else RUNNING else CANCELLED)"
| "ending (Verdict _ err n) down requeue = RUNNING"

definition duplicate :: "job \<Rightarrow> body \<Rightarrow> handles \<Rightarrow> bool" where
  "duplicate j b h \<longleftrightarrow>
     existing_id (make_ctx j b h (jb_args j, jb_kwargs j)) \<notin> {None, Some (jb_task_id j)}"

lemma existing_id_args: "existing_id (make_ctx j b h a) = existing_id (make_ctx j b h a')"
  by (simp add: existing_id_def idem_key_def make_ctx_def cong: option.case_cong)

lemma make_ctx_fields [simp]:
  "ec_task_id (make_ctx j b h a) = jb_task_id j" "ec_body (make_ctx j b h a) = b"
  "ec_config (make_ctx j b h a) = jb_config j" "ec_store (make_ctx j b h a) = hd_store h"
  "ec_last_error (make_ctx j b h a) = None" "ec_attempt (make_ctx j b h a) = 0"
  "ec_fetch (make_ctx j b h a) = store_get (hd_store h) (jb_task_id j)"
  by (simp_all add: make_ctx_def ec_fetch_def)

lemma enter_fields [simp]:
  "ec_task_id (log_enter c) = ec_task_id c" "ec_body (log_enter c) = ec_body c"
  "ec_config (log_enter c) = ec_config c" "ec_last_error (log_enter c) = ec_last_error c"
  "ec_attempt (log_enter c) = ec_attempt c" "ec_args (log_enter c) = ec_args c"
  "ec_kwargs (log_enter c) = ec_kwargs c" "ec_procs (log_enter c) = ec_procs c"
  "ec_executor (log_enter c) = ec_executor c" "ec_func (log_enter c) = ec_func c"
  "ec_record (log_enter c) = ec_record c" "ec_backend (log_enter c) = ec_backend c"
  "ec_on_success (log_enter c) = ec_on_success c" "ec_succeeded (log_enter c) = ec_succeeded c"
  by (simp_all add: log_enter_def Let_def lifecycle_obs_def ec_upd_def tick_def)

lemma enter_outcome: "attempt_outcome (log_enter c) = attempt_outcome c"
  by (rule ext) (simp add: attempt_outcome_def implicit_kind_def)

text \<open>The state the retry loop leaves for the finalisation.\<close>

definition after_retries :: "job \<Rightarrow> body \<Rightarrow> handles \<Rightarrow> pyargs \<times> pykwargs \<Rightarrow> exec_ctx" where
  "after_retries j b h a = snd (retry_middleware dispatch_endpoint (log_enter (make_ctx j b h a)))"

lemma retries_of_job:
  assumes "quiet b (jb_task_id j)"
  shows "frame (log_enter (make_ctx j b h a)) (after_retries j b h a)
     \<and> Verdict (fst (retry_middleware dispatch_endpoint (log_enter (make_ctx j b h a))))
         (ec_last_error (after_retries j b h a)) (ec_attempt (after_retries j b h a))
       = job_verdict j b h a"
  using retry_loop_refines [of "log_enter (make_ctx j b h a)"
      "nat (tc_retries (jb_config j) + 1)" 0 "tc_delay (jb_config j)"] assms
  by (simp add: after_retries_def retry_middleware_def job_verdict_def enter_outcome)

text \<open>The record the run works on: running, with the start time, whatever was logged.\<close>

lemma after_retries_record:
  assumes "quiet b (jb_task_id j)" and "store_get (hd_store h) (jb_task_id j) = Some r"
  obtains r' where "ec_fetch (after_retries j b h a) = Some r'" and "status r' = RUNNING"
    and "task_id r' = task_id r" "end_time r' = end_time r" "error r' = error r"
    "stacktrace r' = stacktrace r" "idempotency_key r' = idempotency_key r"
proof -
  have "map_option strip (ec_fetch (after_retries j b h a))
          = map_option strip (ec_fetch (log_enter (make_ctx j b h a)))"
    using retries_of_job [OF assms(1), of h a] by (simp add: frame_def)
  then have "map_option strip (ec_fetch (after_retries j b h a))
          = Some (strip (r\<lparr>status := RUNNING, start_time := Some (ec_now (make_ctx j b h a))\<rparr>))"
    by (simp add: fetch_enter assms(2))
  then obtain r' where r': "ec_fetch (after_retries j b h a) = Some r'"
    "strip r' = strip (r\<lparr>status := RUNNING, start_time := Some (ec_now (make_ctx j b h a))\<rparr>)"
    by auto
  have sel: "status (strip x) = status x" "task_id (strip x) = task_id x"
    "end_time (strip x) = end_time x" "error (strip x) = error x"
    "stacktrace (strip x) = stacktrace x" "idempotency_key (strip x) = idempotency_key x" for x
    by (simp_all add: strip_def)
  have "f r' = f (r\<lparr>status := RUNNING, start_time := Some (ec_now (make_ctx j b h a))\<rparr>)"
    if "\<And>x. f (strip x) = f x" for f :: "task_record \<Rightarrow> 'z"
    using that r'(2) by metis
  from this [of status] this [of task_id] this [of end_time] this [of error]
    this [of stacktrace] this [of idempotency_key]
  have "status r' = RUNNING" "task_id r' = task_id r" "end_time r' = end_time r"
    "error r' = error r" "stacktrace r' = stacktrace r" "idempotency_key r' = idempotency_key r"
    using sel by auto
  with r'(1) that show ?thesis by blast
qed

text \<open>The whole run, once it is neither a duplicate nor undecipherable.\<close>

lemma pipeline_result:
  assumes "\<not> duplicate j b h"
  shows "pipeline (make_ctx j b h a) =
     (let out = fst (retry_middleware dispatch_endpoint (log_enter (make_ctx j b h a)))
      in (out, case out of
                 Done \<Rightarrow> record_key (log_finish (after_retries j b h a))
               | Cancelled \<Rightarrow> log_cancelled (after_retries j b h a)
               | _ \<Rightarrow> after_retries j b h a))"
proof -
  have "existing_id (make_ctx j b h a) \<in> {None, Some (jb_task_id j)}"
    using assms unfolding duplicate_def existing_id_args [of j b h a "(jb_args j, jb_kwargs j)"]
    by blast
  then show ?thesis
    by (auto simp add: pipeline_unfold idempotency_middleware_def logging_middleware_def
          after_retries_def case_prod_beta Let_def split: outcome.splits)
qed

lemma execute_task_result:
  assumes "actual_args (store_get (hd_store h) (jb_task_id j)) (hd_cipher h) (jb_args j) (jb_kwargs j)
             = Some a"
    and "\<not> duplicate j b h" and "quiet b (jb_task_id j)"
  shows "execute_task j b h =
     (vd_out (job_verdict j b h a),
      release_ctx j
        (case vd_out (job_verdict j b h a) of
           Done \<Rightarrow> record_key (log_finish (after_retries j b h a))
         | Cancelled \<Rightarrow> log_cancelled (after_retries j b h a)
         | _ \<Rightarrow> after_retries j b h a) h)"
proof -
  have "vd_out (job_verdict j b h a)
          = fst (retry_middleware dispatch_endpoint (log_enter (make_ctx j b h a)))"
    using retries_of_job [OF assms(3), of h a] by (metis verdict.sel(1))
  then show ?thesis
    using assms(1) pipeline_result [OF assms(2), of a] by (simp add: execute_task_def Let_def)
qed

lemma release_store [simp]: "hd_store (release_ctx j c h) = ec_store c"
  by (simp add: release_ctx_def)

lemma fetch_store: "ec_task_id c = t \<Longrightarrow> store_get (ec_store c) t = ec_fetch c"
  by (simp add: ec_fetch_def)

lemma task_id_frames [simp]:
  "ec_task_id (record_key c) = ec_task_id c" "ec_task_id (log_finish c) = ec_task_id c"
  "ec_task_id (log_cancelled c) = ec_task_id c"
  by (auto simp: record_key_def log_finish_def log_cancelled_def Let_def lifecycle_obs_def
        run_on_success_def ec_upd_def tick_def drain_pending_def split: option.splits)

lemma down_frames [simp]:
  "st_shutting_down (ec_store (log_cancelled c)) = st_shutting_down (ec_store c)"
  by (auto simp: log_cancelled_def Let_def lifecycle_obs_def
        run_on_success_def ec_upd_def tick_def drain_pending_def split: option.splits)

text \<open>The status a run leaves is a function of the verdict, the shutdown flag and the policy.\<close>

lemma execute_task_status:
  assumes "actual_args (store_get (hd_store h) (jb_task_id j)) (hd_cipher h) (jb_args j) (jb_kwargs j)
             = Some a"
    and "\<not> duplicate j b h" and "quiet b (jb_task_id j)"
    and "store_get (hd_store h) (jb_task_id j) = Some r"
    and "execute_task j b h = (out, h')"
  shows "\<exists>r'. store_get (hd_store h') (jb_task_id j) = Some r'
     \<and> status r' = ending (job_verdict j b h a) (st_shutting_down (hd_store h'))
                     (tc_requeue_on_interrupt (jb_config j))
     \<and> out = vd_out (job_verdict j b h a)
     \<and> error r' = (case job_verdict j b h a of
                     Verdict Done (Some m) n \<Rightarrow> Some m | _ \<Rightarrow> error r)"
proof -
  let ?c = "after_retries j b h a" and ?v = "job_verdict j b h a"
  note v = retries_of_job [OF assms(3), of h a]
  obtain r1 where r1: "ec_fetch ?c = Some r1" "status r1 = RUNNING" "error r1 = error r"
    using after_retries_record [OF assms(3,4), of a] by metis
  have id: "ec_task_id ?c = jb_task_id j" and cfg: "ec_config ?c = jb_config j"
    using v frame_fields(1,2) by (metis enter_fields(1,3) make_ctx_fields(1,3))+
  have res: "out = vd_out ?v"
    "h' = release_ctx j (case vd_out ?v of
             Done \<Rightarrow> record_key (log_finish ?c) | Cancelled \<Rightarrow> log_cancelled ?c | _ \<Rightarrow> ?c) h"
    using execute_task_result [OF assms(1-3)] assms(5) by auto
  have err: "ec_last_error ?c = vd_error ?v" using v by (metis verdict.sel(2))
  obtain o1 e1 n1 where vd: "?v = Verdict o1 e1 n1" by (cases ?v)
  show ?thesis
  proof (cases o1)
    case Done
    then have h: "hd_store h' = ec_store (record_key (log_finish ?c))" using res vd by simp
    then have "store_get (hd_store h') (jb_task_id j)
                 = Some (finalised e1 (ec_last_tb ?c) (ec_now ?c) r1)"
      using fetch_finish [OF r1(1,2)] id vd err by (simp add: fetch_store)
    then show ?thesis
      using vd Done res(1) r1(3) by (cases e1) (auto simp: finalised_def)
  next
    case Cancelled
    then have h: "hd_store h' = ec_store (log_cancelled ?c)" using res vd by simp
    then have "store_get (hd_store h') (jb_task_id j) = ec_fetch (log_cancelled ?c)"
      using id by (simp add: fetch_store)
    then show ?thesis
      using vd Cancelled res(1) r1 h cfg by (simp add: fetch_cancelled [OF r1(1,2)])
  next
    case (Raised m i w)
    then have "hd_store h' = ec_store ?c" using res vd by simp
    then show ?thesis using vd Raised res(1) r1 id by (simp add: fetch_store)
  next
    case (Escaped e)
    then have "hd_store h' = ec_store ?c" using res vd by simp
    then show ?thesis using vd Escaped res(1) r1 id by (simp add: fetch_store)
  qed
qed

end
