(* ===== verification/Execution_Props.thy ===== *)
theory Execution_Props
  imports Execution_Facts
begin

text \<open>
  The properties of a run of \<open>execute_task\<close>: retry until success, exhaustion, cancellation,
  cross-instance idempotency, the delay schedule, and what the code does with an interrupted
  process worker.
\<close>

section \<open>The retry policy, solved\<close>

abbreviation never_cancelled :: "int \<Rightarrow> rat \<Rightarrow> bool" where
  "never_cancelled \<equiv> \<lambda>i e. False"

lemma spec_success:
  assumes "\<forall>i < k. \<exists>m w. f (a + int i) = Raised m False w" and "f (a + int k) = Done" and "k < n"
  shows "retry_spec n a d bo f never_cancelled err la = Verdict Done None (a + int k)"
  using assms
proof (induction k arbitrary: n a d err la)
  case 0
  then show ?case by (cases n) auto
next
  case (Suc k)
  obtain n' where n: "n = Suc n'" using Suc.prems(3) by (cases n) auto
  obtain m w where f0: "f a = Raised m False w" using Suc.prems(1) by auto
  have "\<exists>m w. f ((a + 1) + int i) = Raised m False w" if "i < k" for i
    using Suc.prems(1) [rule_format, of "Suc i"] that by (simp add: algebra_simps)
  moreover have "f ((a + 1) + int k) = Done" using Suc.prems(2) by (simp add: algebra_simps)
  ultimately have "retry_spec n' (a + 1) d' bo f never_cancelled e' l'
                     = Verdict Done None ((a + 1) + int k)" for d' e' l'
    using Suc.IH [of "a + 1" n'] Suc.prems(3) n by simp
  then show ?case using n f0 by (simp add: algebra_simps)
qed

lemma spec_exhausted:
  assumes "\<forall>i < n. \<exists>w. f (a + int i) = Raised (msg (a + int i)) False w" and "0 < n"
  shows "retry_spec n a d bo f never_cancelled err la
           = Verdict Done (Some (msg (a + int n - 1))) (a + int n - 1)"
  using assms
proof (induction n arbitrary: a d err la)
  case (Suc n)
  obtain w where f0: "f a = Raised (msg a) False w" using Suc.prems(1) by fastforce
  show ?case
  proof (cases "n = 0")
    case True
    then show ?thesis using f0 by simp
  next
    case False
    have "\<exists>w. f ((a + 1) + int i) = Raised (msg ((a + 1) + int i)) False w" if "i < n" for i
      using Suc.prems(1) [rule_format, of "Suc i"] that by (simp add: algebra_simps)
    then have "retry_spec n (a + 1) d' bo f never_cancelled e' l'
                 = Verdict Done (Some (msg ((a + 1) + int n - 1))) ((a + 1) + int n - 1)"
      for d' e' l' using Suc.IH [of "a + 1"] False by simp
    then show ?thesis using f0 by (simp add: algebra_simps)
  qed
qed simp

lemma spec_attempt_bound:
  "0 \<le> a \<Longrightarrow> 0 \<le> la \<Longrightarrow> la < a + int n \<Longrightarrow>
   0 \<le> vd_attempt (retry_spec n a d bo f sl err la)
   \<and> vd_attempt (retry_spec n a d bo f sl err la) < a + int n"
proof (induction n arbitrary: a d err la)
  case (Suc n)
  have "0 \<le> vd_attempt (retry_spec n (a + 1) d' bo f sl e' a)
        \<and> vd_attempt (retry_spec n (a + 1) d' bo f sl e' a) < (a + 1) + int n" for d' e'
    using Suc.IH [of "a + 1" a] Suc.prems by simp
  then show ?case using Suc.prems by (auto simp: algebra_simps split: outcome.splits)
qed simp

text \<open>Before attempt \<open>a > 0\<close> the loop sleeps \<open>delay * backoff ^ (a - 1)\<close>.\<close>

lemma spec_sleeps:
  assumes "\<forall>i > 0. sl i (d * bo ^ nat (i - 1)) = sl' i (d * bo ^ nat (i - 1))" and "0 \<le> a"
    and "e = (if a = 0 then d else d * bo ^ nat (a - 1))"
  shows "retry_spec n a e bo f sl err la = retry_spec n a e bo f sl' err la"
  using assms(2,3)
proof (induction n arbitrary: a e err la)
  case (Suc n)
  have "0 < a \<Longrightarrow> sl a e = sl' a e" using assms(1) Suc.prems by auto
  moreover have "(if a > 0 then e * bo else e) = (if a + 1 = 0 then d else d * bo ^ nat (a + 1 - 1))"
  proof (cases "a = 0")
    case False
    then have "nat a = Suc (nat (a - 1))" using Suc.prems(1) by linarith
    then show ?thesis using False Suc.prems by simp
  qed (simp add: Suc.prems(2))
  then have "retry_spec n (a + 1) (if a > 0 then e * bo else e) bo f sl err' a
               = retry_spec n (a + 1) (if a > 0 then e * bo else e) bo f sl' err' a" for err'
    using Suc.IH [of "a + 1" "if a > 0 then e * bo else e"] Suc.prems(1) by simp
  ultimately show ?case by (auto split: outcome.splits)
qed simp

section \<open>Recording the key\<close>

lemma finish_backend:
  assumes "ec_last_error c = None"
    and "\<forall>f \<in> set_option (ec_on_success c). \<forall>t n s db. sq_idem (f t n s db) = sq_idem db"
  shows "map_option sq_idem (ec_backend (log_finish c)) = map_option sq_idem (ec_backend c)
     \<and> ec_succeeded (log_finish c) \<and> ec_record (log_finish c) = ec_record c
     \<and> ec_body (log_finish c) = ec_body c"
  using assms
  by (auto simp: log_finish_def Let_def run_on_success_def lifecycle_obs_def ec_upd_def tick_def
        option.map_comp comp_def split: option.splits intro!: option.map_cong)

lemma record_key_backend:
  assumes "ec_record c = Some r" and "idempotency_key r = Some k" and "k \<noteq> []"
    and "ec_backend c = Some db" and "ec_succeeded c" and "\<not> bd_record_fails (ec_body c)"
  shows "ec_backend (record_key c) = Some (sq_record_idempotency_key k (ec_task_id c) db)"
  using assms by (simp add: record_key_def idem_key_def nonempty_def)

section \<open>A concrete run\<close>

text \<open>An async function with two retries, a stored record with an idempotency key, no failures.\<close>

definition ex_func :: pyfunc where
  "ex_func = \<lparr>fn_id = 1, fn_name = ''send'', fn_qualname = ''send'', fn_coro = True\<rparr>"

definition ex_config :: task_config where
  "ex_config = default_config\<lparr>tc_retries := 2, tc_delay := 1, tc_backoff := 2\<rparr>"

definition ex_record :: "string \<Rightarrow> task_record" where
  "ex_record tid = new_record tid ''send'' [] [] (Some ''k1'') None None ''manual'' None None
                     ''default'' (utc_dt 0)"

definition ex_body :: "(int \<Rightarrow> call_end) \<Rightarrow> body" where
  "ex_body e = \<lparr>bd_call = (\<lambda>as kw a. \<lparr>cl_logs = [], cl_end = e a\<rparr>), bd_env = (\<lambda>a s. s),
      bd_sleep_cancelled = never_cancelled, bd_sleep_env = (\<lambda>a s. s),
      bd_format_exc = (\<lambda>m. m), bd_check_fails = False, bd_record_fails = False,
      bd_pickler = \<lparr>pk_cloudpickle = True, pk_accepts = (\<lambda>as kw. True)\<rparr>\<rparr>"

definition ex_handles :: "store \<Rightarrow> sqlite \<Rightarrow> handles" where
  "ex_handles s db = \<lparr>hd_store = s, hd_backend = Some db, hd_on_success = None, hd_logger = None,
      hd_running = Some [], hd_procs = process_executor_init, hd_cipher = None,
      hd_clock = int, hd_ticks = 0\<rparr>"

definition ex_job :: "string \<Rightarrow> exec_kind option \<Rightarrow> job" where
  "ex_job tid k = \<lparr>jb_func = ex_func, jb_task_id = tid, jb_config = ex_config, jb_args = [],
      jb_kwargs = [], jb_executor = k, jb_backend = True\<rparr>"

definition ex_store :: "string \<Rightarrow> store" where
  "ex_store tid = snd (store_create (ex_record tid) store_init)"

lemmas ex_defs = ex_func_def ex_config_def ex_record_def ex_body_def ex_handles_def ex_job_def
  ex_store_def default_config_def new_record_def

lemma ex_simps [simp]:
  "jb_task_id (ex_job tid k) = tid" "jb_config (ex_job tid k) = ex_config"
  "jb_args (ex_job tid k) = []" "jb_kwargs (ex_job tid k) = []" "jb_backend (ex_job tid k)"
  "hd_store (ex_handles s db) = s" "hd_backend (ex_handles s db) = Some db"
  "hd_on_success (ex_handles s db) = None" "tc_retries ex_config = 2"
  "tc_requeue_on_interrupt ex_config = False"
  "error (ex_record tid) = None" "idempotency_key (ex_record tid) = Some ''k1''"
  "\<not> bd_check_fails (ex_body e)" "\<not> bd_record_fails (ex_body e)"
  by (simp_all add: ex_defs)

lemma ex_quiet: "quiet (ex_body e) tid"
  by (simp add: quiet_def ex_body_def)

lemma ex_never [simp]: "bd_sleep_cancelled (ex_body e) = never_cancelled"
  by (simp add: ex_body_def)

lemma ex_get [simp]: "store_get (ex_store tid) k = (if k = tid then Some (ex_record tid) else None)"
  by (simp add: ex_store_def ex_record_def new_record_def) (simp add: store_get_def store_init_def)

lemma ex_actual:
  "actual_args (store_get (hd_store (ex_handles s db)) (jb_task_id j)) (hd_cipher (ex_handles s db))
     (jb_args j) (jb_kwargs j) = Some (jb_args j, jb_kwargs j)"
  by (simp add: actual_args_def ex_handles_def split: option.splits)

lemma ex_fresh: "\<not> duplicate (ex_job tid k) (ex_body e) (ex_handles (ex_store tid) sqlite_init)"
  by (simp add: duplicate_def existing_id_def idem_key_def make_ctx_def ex_defs nonempty_def
        sq_check_idempotency_key_def sqlite_init_def split: option.splits)

lemma ex_outcome:
  "attempt_outcome (make_ctx (ex_job tid None) (ex_body e) (ex_handles s db) as) a
     = snd (local_dispatch \<lparr>cl_logs = [], cl_end = e a\<rparr>)"
  by (simp add: attempt_outcome_def implicit_kind_def make_ctx_def ex_job_def ex_func_def
        ex_body_def dispatch_def case_prod_beta)

section \<open>Properties\<close>

text \<open>C2: A run whose attempts raise \<open>k\<close> times and then return, with \<open>k\<close> within the configured
  retries, ends with the record \<open>SUCCESS\<close>: earlier errors do not reach the record.\<close>

theorem retry_until_success:
  assumes "actual_args (store_get (hd_store h) (jb_task_id j)) (hd_cipher h) (jb_args j) (jb_kwargs j)
             = Some a"
    and "\<not> duplicate j b h" and "quiet b (jb_task_id j)"
    and "store_get (hd_store h) (jb_task_id j) = Some r"
    and "bd_sleep_cancelled b = never_cancelled"
    and "\<forall>i < k. \<exists>m w. attempt_outcome (make_ctx j b h a) (int i) = Raised m False w"
    and "attempt_outcome (make_ctx j b h a) (int k) = Done" and "int k \<le> tc_retries (jb_config j)"
  shows "fst (execute_task j b h) = Done
     \<and> (case store_get (hd_store (snd (execute_task j b h))) (jb_task_id j) of
          None \<Rightarrow> False | Some r' \<Rightarrow> status r' = SUCCESS \<and> error r' = error r)"
proof -
  have v: "job_verdict j b h a = Verdict Done None (int k)"
    using spec_success [of k "attempt_outcome (make_ctx j b h a)" 0] assms(5-8)
    by (simp add: job_verdict_def)
  obtain out h' where e: "execute_task j b h = (out, h')" by (cases "execute_task j b h")
  from execute_task_status [OF assms(1-4) e] v e show ?thesis by auto
qed

lemma retry_until_success_witness:
  "let r = execute_task (ex_job ''t1'' None)
             (ex_body (\<lambda>a. if a = 0 then CRaise ''OSError'' ''down'' ''tb'' else CReturn))
             (ex_handles (ex_store ''t1'') sqlite_init)
   in fst r = Done
      \<and> (case store_get (hd_store (snd r)) ''t1'' of
           None \<Rightarrow> False | Some r' \<Rightarrow> status r' = SUCCESS \<and> error r' = error (ex_record ''t1''))"
proof -
  let ?b = "ex_body (\<lambda>a. if a = 0 then CRaise ''OSError'' ''down'' ''tb'' else CReturn)"
  from retry_until_success [where j = "ex_job ''t1'' None" and b = ?b and k = 1
      and h = "ex_handles (ex_store ''t1'') sqlite_init" and r = "ex_record ''t1''",
      OF ex_actual ex_fresh ex_quiet]
  show ?thesis by (simp add: ex_outcome local_dispatch_def Let_def)
qed

text \<open>C3: A run whose every attempt raises ends \<open>FAILED\<close> with the message of the last attempt,
  after exactly \<open>retries + 1\<close> attempts.\<close>

theorem retries_exhausted:
  assumes "actual_args (store_get (hd_store h) (jb_task_id j)) (hd_cipher h) (jb_args j) (jb_kwargs j)
             = Some a"
    and "\<not> duplicate j b h" and "quiet b (jb_task_id j)"
    and "store_get (hd_store h) (jb_task_id j) = Some r"
    and "bd_sleep_cancelled b = never_cancelled" and "0 \<le> tc_retries (jb_config j)"
    and "\<forall>i \<le> nat (tc_retries (jb_config j)).
           \<exists>w. attempt_outcome (make_ctx j b h a) (int i) = Raised (msg (int i)) False w"
  shows "vd_attempt (job_verdict j b h a) = tc_retries (jb_config j)
     \<and> (case store_get (hd_store (snd (execute_task j b h))) (jb_task_id j) of
          None \<Rightarrow> False
        | Some r' \<Rightarrow> status r' = FAILED \<and> error r' = Some (msg (tc_retries (jb_config j))))"
proof -
  have n: "int (nat (tc_retries (jb_config j) + 1)) - 1 = tc_retries (jb_config j)"
    using assms(6) by simp
  have v: "job_verdict j b h a
             = Verdict Done (Some (msg (tc_retries (jb_config j)))) (tc_retries (jb_config j))"
    using spec_exhausted [of "nat (tc_retries (jb_config j) + 1)"
        "attempt_outcome (make_ctx j b h a)" 0 msg] assms(5-7) n
    by (simp add: job_verdict_def)
  obtain out h' where e: "execute_task j b h = (out, h')" by (cases "execute_task j b h")
  from execute_task_status [OF assms(1-4) e] v e show ?thesis by auto
qed

lemma retries_exhausted_witness:
  "vd_attempt (job_verdict (ex_job ''t1'' None) (ex_body (\<lambda>a. CRaise ''OSError'' ''down'' ''tb''))
                 (ex_handles (ex_store ''t1'') sqlite_init) ([], [])) = 2
   \<and> (case store_get (hd_store (snd (execute_task (ex_job ''t1'' None)
               (ex_body (\<lambda>a. CRaise ''OSError'' ''down'' ''tb''))
               (ex_handles (ex_store ''t1'') sqlite_init)))) ''t1'' of
        None \<Rightarrow> False | Some r' \<Rightarrow> status r' = FAILED \<and> error r' = Some ''down'')"
proof -
  let ?b = "ex_body (\<lambda>a. CRaise ''OSError'' ''down'' ''tb'')"
  from retries_exhausted [where j = "ex_job ''t1'' None" and b = ?b and msg = "\<lambda>i. ''down''"
      and h = "ex_handles (ex_store ''t1'') sqlite_init" and r = "ex_record ''t1''",
      OF ex_actual ex_fresh ex_quiet]
  show ?thesis by (simp add: ex_outcome local_dispatch_def)
qed

text \<open>A successful run of a task with an idempotency key leaves this task's id under the key in
  the backend, so that other instances skip the key from then on.\<close>

lemma success_records_key:
  assumes "actual_args (store_get (hd_store h) (jb_task_id j)) (hd_cipher h) (jb_args j) (jb_kwargs j)
             = Some a"
    and nd: "\<not> duplicate j b h" and q: "quiet b (jb_task_id j)"
    and r: "store_get (hd_store h) (jb_task_id j) = Some r" "idempotency_key r = Some k" "k \<noteq> []"
    and v: "job_verdict j b h a = Verdict Done None n"
    and bk: "jb_backend j" "hd_backend h = Some db" "\<not> bd_check_fails b" "\<not> bd_record_fails b"
    and fl: "\<forall>f \<in> set_option (hd_on_success h). \<forall>t n s db. sq_idem (f t n s db) = sq_idem db"
  shows "\<exists>db'. hd_backend (snd (execute_task j b h)) = Some db'
           \<and> sq_check_idempotency_key db' k = Some (jb_task_id j)"
proof -
  let ?c = "after_retries j b h a"
  let ?m = "make_ctx j b h a"
  note f = retries_of_job [OF q, of h a]
  have fr: "ec_backend ?c = hd_backend h" "ec_record ?c = Some r" "ec_body ?c = b"
    "ec_task_id ?c = jb_task_id j" "ec_on_success ?c = hd_on_success h"
    using frame_fields [OF conjunct1 [OF f]] bk(1) r(1) by (simp_all add: make_ctx_def)
  have le: "ec_last_error ?c = None" using f v by simp
  have fin: "map_option sq_idem (ec_backend (log_finish ?c)) = Some (sq_idem db)"
    "ec_succeeded (log_finish ?c)" "ec_record (log_finish ?c) = Some r"
    "ec_body (log_finish ?c) = b"
    using finish_backend [OF le] fl fr bk(2) by auto
  then obtain db1 where db1: "ec_backend (log_finish ?c) = Some db1" "sq_idem db1 = sq_idem db"
    by auto
  have "ec_backend (record_key (log_finish ?c))
          = Some (sq_record_idempotency_key k (jb_task_id j) db1)"
    using record_key_backend [OF fin(3) r(2,3) db1(1) fin(2)] fin(4) bk(4) fr(4) by simp
  then have "hd_backend (snd (execute_task j b h))
               = Some (sq_record_idempotency_key k (jb_task_id j) db1)"
    using execute_task_result [OF assms(1) nd q] v bk(1) by (simp add: release_ctx_def)
  moreover have "sq_check_idempotency_key db1 k = sq_check_idempotency_key db k"
    using db1(2) by (simp add: sq_check_idempotency_key_def)
  moreover have "sq_check_idempotency_key db k = None
                 \<or> sq_check_idempotency_key db k = Some (jb_task_id j)"
    using nd r bk by (auto simp: duplicate_def existing_id_def idem_key_def make_ctx_def
        nonempty_def split: option.splits)
  ultimately show ?thesis using idempotency.check_write [of k "jb_task_id j" db1 k] by auto
qed

lemma success_records_key_witness:
  "\<exists>db'. hd_backend (snd (execute_task (ex_job ''t1'' None) (ex_body (\<lambda>a. CReturn))
                   (ex_handles (ex_store ''t1'') sqlite_init))) = Some db'
     \<and> sq_check_idempotency_key db' ''k1'' = Some ''t1''"
proof -
  let ?j = "ex_job ''t1'' None" and ?b = "ex_body (\<lambda>a. CReturn)"
  let ?h = "ex_handles (ex_store ''t1'') sqlite_init"
  have "job_verdict ?j ?b ?h ([], []) = Verdict Done None 0"
    using spec_success [of 0 "attempt_outcome (make_ctx ?j ?b ?h ([], []))" 0]
    by (simp add: job_verdict_def ex_outcome local_dispatch_def)
  with success_records_key [where j = ?j and b = ?b and h = ?h and r = "ex_record ''t1''"
      and k = "''k1''" and n = 0 and db = sqlite_init, OF ex_actual ex_fresh ex_quiet]
  show ?thesis by simp
qed

text \<open>C27: When another task id already holds the idempotency key, the function is never called: the
  result does not depend on the body, the record becomes \<open>SUCCESS\<close> and nothing is logged.\<close>

theorem duplicate_never_runs:
  assumes "actual_args (store_get (hd_store h) (jb_task_id j)) (hd_cipher h) (jb_args j) (jb_kwargs j)
             = Some a"
    and "duplicate j b h" and "bd_check_fails b' = bd_check_fails b"
    and "store_get (hd_store h) (jb_task_id j) = Some r"
  shows "execute_task j b' h = execute_task j b h
     \<and> (case store_get (hd_store (snd (execute_task j b h))) (jb_task_id j) of
          None \<Rightarrow> False | Some r' \<Rightarrow> status r' = SUCCESS \<and> logs r' = logs r \<and> end_time r' = start_time r')"
proof -
  have ex: "existing_id (make_ctx j b'' h a)
              = existing_id (make_ctx j b h (jb_args j, jb_kwargs j))"
    if "bd_check_fails b'' = bd_check_fails b" for b''
    using that by (simp add: existing_id_def idem_key_def make_ctx_def cong: option.case_cong)
  have run: "execute_task j b'' h
               = (Done, release_ctx j (mark_duplicate (make_ctx j b'' h a)) h)"
    if "bd_check_fails b'' = bd_check_fails b" for b''
    using assms(1,2) ex [OF that]
    by (simp add: execute_task_def pipeline_unfold idempotency_middleware_def duplicate_def Let_def)
  have "release_ctx j (mark_duplicate (make_ctx j b' h a)) h
          = release_ctx j (mark_duplicate (make_ctx j b h a)) h"
    by (simp add: release_ctx_def mark_duplicate_def Let_def ec_upd_def tick_def make_ctx_def
          ec_now_def)
  moreover have "store_get (hd_store (snd (execute_task j b h))) (jb_task_id j)
      = map_option (\<lambda>r. r\<lparr>status := SUCCESS, start_time := Some (ec_now (make_ctx j b h a)),
                           end_time := Some (ec_now (make_ctx j b h a))\<rparr>) (Some r)"
    using run [of b] assms(4)
    by (simp add: mark_duplicate_def Let_def) (simp add: ec_upd_def)
  ultimately show ?thesis using run [OF assms(3)] run [of b] by simp
qed

lemma duplicate_never_runs_witness:
  "let db = sq_record_idempotency_key ''k1'' ''t0'' sqlite_init;
       h = ex_handles (ex_store ''t1'') db;
       r = execute_task (ex_job ''t1'' None) (ex_body (\<lambda>a. CReturn)) h
   in execute_task (ex_job ''t1'' None) (ex_body (\<lambda>a. CRaise ''E'' ''m'' ''t'')) h = r
      \<and> (case store_get (hd_store (snd r)) ''t1'' of
           None \<Rightarrow> False
         | Some r' \<Rightarrow> status r' = SUCCESS \<and> logs r' = logs (ex_record ''t1'') \<and> end_time r' = start_time r')"
proof -
  let ?h = "ex_handles (ex_store ''t1'') (sq_record_idempotency_key ''k1'' ''t0'' sqlite_init)"
  have "duplicate (ex_job ''t1'' None) (ex_body (\<lambda>a. CReturn)) ?h"
    by (simp add: duplicate_def existing_id_def idem_key_def make_ctx_def nonempty_def
          idempotency.check_write) (simp add: sq_check_idempotency_key_def sqlite_init_def)
  from duplicate_never_runs [where j = "ex_job ''t1'' None" and h = ?h and r = "ex_record ''t1''"
      and b' = "ex_body (\<lambda>a. CRaise ''E'' ''m'' ''t'')", OF ex_actual this]
  show ?thesis by (simp add: Let_def)
qed

text \<open>C26: A cancelled attempt re-raises, and the record depends on the shutdown flag: \<open>CANCELLED\<close> for a
  user's cancel, \<open>PENDING\<close> at shutdown when the task may be requeued, otherwise still \<open>RUNNING\<close> for
  \<open>flush_pending\<close> to classify.\<close>

theorem cancelled_run:
  assumes "actual_args (store_get (hd_store h) (jb_task_id j)) (hd_cipher h) (jb_args j) (jb_kwargs j)
             = Some a"
    and "\<not> duplicate j b h" and "quiet b (jb_task_id j)"
    and "store_get (hd_store h) (jb_task_id j) = Some r"
    and "vd_out (job_verdict j b h a) = Cancelled"
  shows "fst (execute_task j b h) = Cancelled
     \<and> map_option status (store_get (hd_store (snd (execute_task j b h))) (jb_task_id j))
         = Some (if \<not> st_shutting_down (hd_store (snd (execute_task j b h))) then CANCELLED
                 else if tc_requeue_on_interrupt (jb_config j) then PENDING else RUNNING)"
proof -
  obtain err n where v: "job_verdict j b h a = Verdict Cancelled err n"
    using assms(5) by (cases "job_verdict j b h a") auto
  obtain out h' where e: "execute_task j b h = (out, h')" by (cases "execute_task j b h")
  from execute_task_status [OF assms(1-4) e] v e show ?thesis by auto
qed

lemma cancelled_run_witness:
  "let s = notify_shutdown (ex_store ''t1'');
       r = execute_task (ex_job ''t1'' None) (ex_body (\<lambda>a. CCancelled)) (ex_handles s sqlite_init)
   in fst r = Cancelled
      \<and> map_option status (store_get (hd_store (snd r)) ''t1'')
          = Some (if \<not> st_shutting_down (hd_store (snd r)) then CANCELLED else RUNNING)"
proof -
  let ?h = "ex_handles (notify_shutdown (ex_store ''t1'')) sqlite_init"
  let ?j = "ex_job ''t1'' None" and ?b = "ex_body (\<lambda>a. CCancelled)"
  have g: "store_get (notify_shutdown (ex_store ''t1'')) ''t1'' = Some (ex_record ''t1'')"
    using ex_get [of "''t1''" "''t1''"] by (simp add: notify_shutdown_def store_get_def)
  have "\<not> duplicate ?j ?b ?h"
    by (simp add: duplicate_def existing_id_def idem_key_def make_ctx_def g nonempty_def
          sq_check_idempotency_key_def sqlite_init_def)
  moreover have "vd_out (job_verdict ?j ?b ?h ([], [])) = Cancelled"
    by (simp add: job_verdict_def ex_outcome local_dispatch_def numeral_eq_Suc)
  ultimately show ?thesis
    using cancelled_run [where j = ?j and b = ?b and h = ?h and r = "ex_record ''t1''",
        OF ex_actual _ ex_quiet] g
    by (simp add: Let_def cong: if_cong)
qed

text \<open>A process worker killed by \<open>SIGINT\<close> on its first attempt is finalised as \<open>SUCCESS\<close>, although
  the worker code says the record is left \<open>RUNNING\<close> for the shutdown to classify.\<close>

lemma interrupted_worker_becomes_success:
  assumes "actual_args (store_get (hd_store h) (jb_task_id j)) (hd_cipher h) (jb_args j) (jb_kwargs j)
             = Some (as, kw)"
    and "\<not> duplicate j b h" and "quiet b (jb_task_id j)"
    and "store_get (hd_store h) (jb_task_id j) = Some r"
    and "jb_executor j = Some EProcess" and "\<not> pe_shutdown_called (hd_procs h)"
    and "pk_accepts (bd_pickler b) as kw" and "cl_end (bd_call b as kw 0) = CKeyboard tb"
    and "0 \<le> tc_retries (jb_config j)"
  shows "map_option status (store_get (hd_store (snd (execute_task j b h))) (jb_task_id j))
           = Some SUCCESS"
proof -
  let ?c = "make_ctx j b h (as, kw)"
  have "attempt_outcome ?c 0 = Raised ''KeyboardInterrupt'' True (Some tb)"
    using assms(5-8)
    by (simp add: attempt_outcome_def implicit_kind_def make_ctx_def dispatch_def
          process_dispatch_def ensure_pool_def worker_entrypoint_def split: option.splits)
  moreover obtain n where "nat (tc_retries (jb_config j) + 1) = Suc n"
    using assms(9) by (metis Suc_nat_eq_nat_zadd1 add.commute)
  ultimately have v: "job_verdict j b h (as, kw) = Verdict Done None 0"
    by (simp add: job_verdict_def)
  obtain out h' where e: "execute_task j b h = (out, h')" by (cases "execute_task j b h")
  from execute_task_status [OF assms(1-4) e] v e show ?thesis by auto
qed

lemma interrupted_worker_becomes_success_witness:
  "map_option status
     (store_get (hd_store (snd (execute_task (ex_job ''t1'' (Some EProcess))
        (ex_body (\<lambda>a. CKeyboard ''tb'')) (ex_handles (ex_store ''t1'') sqlite_init)))) ''t1'')
     = Some SUCCESS"
  using interrupted_worker_becomes_success [where j = "ex_job ''t1'' (Some EProcess)"
      and b = "ex_body (\<lambda>a. CKeyboard ''tb'')" and h = "ex_handles (ex_store ''t1'') sqlite_init"
      and r = "ex_record ''t1''" and as = "[]" and kw = "[]" and tb = "''tb''"]
    ex_actual [of "ex_store ''t1''" sqlite_init "ex_job ''t1'' (Some EProcess)"]
    ex_fresh [of "''t1''" "Some EProcess" "\<lambda>a. CKeyboard ''tb''"] ex_quiet
  by (simp add: ex_job_def ex_body_def ex_handles_def process_executor_init_def)

text \<open>The status the record had when the job is dispatched does not matter: a task cancelled while it
  was queued still runs, and two stores that differ only in that status end up the same.\<close>

lemma cancel_while_queued_ignored:
  assumes "store_get (hd_store h) (jb_task_id j) = Some r"
    and "hd_cipher h = None" and "\<not> duplicate j b h" and "quiet b (jb_task_id j)"
    and "attempt_outcome (make_ctx j b h (jb_args j, jb_kwargs j)) 0 = Done"
    and "0 \<le> tc_retries (jb_config j)" and "status r = CANCELLED"
  shows "map_option status (store_get (hd_store (snd (execute_task j b h))) (jb_task_id j))
           = Some SUCCESS"
proof -
  let ?a = "(jb_args j, jb_kwargs j)"
  have ac: "actual_args (store_get (hd_store h) (jb_task_id j)) (hd_cipher h) (jb_args j) (jb_kwargs j)
             = Some ?a"
    using assms(2) by (simp add: actual_args_def split: option.splits)
  obtain n where "nat (tc_retries (jb_config j) + 1) = Suc n"
    using assms(6) by (metis Suc_nat_eq_nat_zadd1 add.commute)
  then have v: "job_verdict j b h ?a = Verdict Done None 0"
    using assms(5) by (simp add: job_verdict_def)
  obtain out h' where e: "execute_task j b h = (out, h')" by (cases "execute_task j b h")
  from execute_task_status [OF ac assms(3,4,1) e] v e show ?thesis by auto
qed

lemma cancel_while_queued_ignored_witness:
  "let s = upd ''t1'' (\<lambda>r. r\<lparr>status := CANCELLED\<rparr>) (ex_store ''t1'')
   in map_option status (store_get (hd_store (snd (execute_task (ex_job ''t1'' None)
        (ex_body (\<lambda>a. CReturn)) (ex_handles s sqlite_init)))) ''t1'') = Some SUCCESS"
proof -
  let ?s = "upd ''t1'' (\<lambda>r. r\<lparr>status := CANCELLED\<rparr>) (ex_store ''t1'')"
  let ?j = "ex_job ''t1'' None" and ?b = "ex_body (\<lambda>a. CReturn)"
  have "\<not> duplicate ?j ?b (ex_handles ?s sqlite_init)"
    by (simp add: duplicate_def existing_id_def idem_key_def make_ctx_def nonempty_def
          sq_check_idempotency_key_def sqlite_init_def)
  with cancel_while_queued_ignored [where j = ?j and b = ?b and h = "ex_handles ?s sqlite_init"
      and r = "(ex_record ''t1'')\<lparr>status := CANCELLED\<rparr>", OF _ _ _ ex_quiet]
  show ?thesis by (simp add: Let_def ex_outcome local_dispatch_def) (simp add: ex_defs)
qed

text \<open>Whatever a run does, its entry is gone from \<open>running_tasks\<close> when it ends.\<close>

lemma running_released:
  assumes "execute_task j b h = (out, h')" and "hd_running h = Some d"
    and "actual_args (store_get (hd_store h) (jb_task_id j)) (hd_cipher h) (jb_args j) (jb_kwargs j)
           \<noteq> None"
  shows "\<forall>d' \<in> set_option (hd_running h'). dget d' (jb_task_id j) = None"
proof -
  obtain c where "h' = release_ctx j c h"
    using assms(1,3) by (auto simp: execute_task_def case_prod_beta Let_def split: option.splits)
  then show ?thesis by (cases "ec_running c") (simp_all add: release_ctx_def)
qed

lemma running_released_witness:
  "case execute_task (ex_job ''t1'' None) (ex_body (\<lambda>a. CReturn))
          (ex_handles (ex_store ''t1'') sqlite_init) of (out, h') \<Rightarrow>
     (\<forall>d' \<in> set_option (hd_running h'). dget d' ''t1'' = None)"
proof -
  let ?h = "ex_handles (ex_store ''t1'') sqlite_init" and ?j = "ex_job ''t1'' None"
  obtain out h' where e: "execute_task ?j (ex_body (\<lambda>a. CReturn)) ?h = (out, h')"
    by (cases "execute_task ?j (ex_body (\<lambda>a. CReturn)) ?h")
  have "hd_running ?h = Some []" by (simp add: ex_handles_def)
  from running_released [OF e this] ex_actual [of "ex_store ''t1''" sqlite_init ?j] e
  show ?thesis by simp
qed

text \<open>The attempts depend on the sleeps only at the exponential schedule: before retry \<open>i\<close> the loop
  sleeps \<open>delay * backoff ^ (i - 1)\<close>, and it never goes beyond attempt \<open>retries\<close>.\<close>

lemma backoff_schedule:
  assumes "\<forall>i > 0. bd_sleep_cancelled b i (tc_delay (jb_config j) * tc_backoff (jb_config j) ^ nat (i - 1))
                   = sl i (tc_delay (jb_config j) * tc_backoff (jb_config j) ^ nat (i - 1))"
    and "0 \<le> tc_retries (jb_config j)"
  shows "job_verdict j (b\<lparr>bd_sleep_cancelled := sl\<rparr>) h a = job_verdict j b h a
     \<and> 0 \<le> vd_attempt (job_verdict j b h a)
     \<and> vd_attempt (job_verdict j b h a) \<le> tc_retries (jb_config j)"
proof -
  have o: "attempt_outcome (make_ctx j (b\<lparr>bd_sleep_cancelled := sl\<rparr>) h a)
             = attempt_outcome (make_ctx j b h a)"
    by (rule ext) (simp add: attempt_outcome_def implicit_kind_def make_ctx_def)
  have "job_verdict j (b\<lparr>bd_sleep_cancelled := sl\<rparr>) h a = job_verdict j b h a"
    unfolding job_verdict_def o using assms(1)
    by (simp add: spec_sleeps [where a = 0 and d = "tc_delay (jb_config j)"
          and sl = "bd_sleep_cancelled b" and sl' = sl])
  moreover have "0 \<le> vd_attempt (job_verdict j b h a)
      \<and> vd_attempt (job_verdict j b h a) < 0 + int (nat (tc_retries (jb_config j) + 1))"
    unfolding job_verdict_def using assms(2) by (intro spec_attempt_bound) auto
  ultimately show ?thesis using assms(2) by simp
qed

lemma backoff_schedule_witness:
  "let b = ex_body (\<lambda>a. CRaise ''E'' ''m'' ''t''); j = ex_job ''t1'' None;
       h = ex_handles (ex_store ''t1'') sqlite_init
   in job_verdict j (b\<lparr>bd_sleep_cancelled := (\<lambda>i e. i > 0 \<and> e \<noteq> 2 ^ nat (i - 1))\<rparr>) h ([], [])
        = job_verdict j b h ([], [])
      \<and> 0 \<le> vd_attempt (job_verdict j b h ([], [])) \<and> vd_attempt (job_verdict j b h ([], [])) \<le> 2"
  using backoff_schedule [where b = "ex_body (\<lambda>a. CRaise ''E'' ''m'' ''t'')" and j = "ex_job ''t1'' None"
      and sl = "\<lambda>i e. i > 0 \<and> e \<noteq> 2 ^ nat (i - 1)"
      and h = "ex_handles (ex_store ''t1'') sqlite_init" and a = "([], [])"]
  by (simp add: Let_def ex_config_def)

end
