(* ===== verification/Snapshot_Props.thy ===== *)
theory Snapshot_Props
  imports Snapshot Execution_Props
begin

text \<open>
  Properties of the snapshot scheduler: what a restart gets back, how shutdown classifies
  unfinished tasks, that a requeue dispatches each pending task once, and retention.
\<close>

section \<open>Shutdown classification\<close>

definition goes_pending :: "registry \<Rightarrow> bool \<Rightarrow> task_record \<Rightarrow> bool" where
  "goes_pending rg flag t \<longleftrightarrow> (if status t = PENDING then flag else requeue_safe rg t)"

definition goes_interrupted :: "registry \<Rightarrow> task_record \<Rightarrow> bool" where
  "goes_interrupted rg t \<longleftrightarrow> status t \<noteq> PENDING \<and> \<not> requeue_safe rg t"

lemma classify_frame [simp]:
  "tm_registry (pa_tm (classify_unfinished t p)) = tm_registry (pa_tm p)"
  "tm_requeue_pending (pa_tm (classify_unfinished t p)) = tm_requeue_pending (pa_tm p)"
  "tm_backend (pa_tm (classify_unfinished t p)) = tm_backend (pa_tm p)"
  by (simp_all add: classify_unfinished_def Let_def tm_upd_def tm_tick_def)

lemma classify_fold_frame [simp]:
  "tm_registry (pa_tm (fold classify_unfinished ts p)) = tm_registry (pa_tm p)"
  "tm_requeue_pending (pa_tm (fold classify_unfinished ts p)) = tm_requeue_pending (pa_tm p)"
  "tm_backend (pa_tm (fold classify_unfinished ts p)) = tm_backend (pa_tm p)"
  by (induction ts arbitrary: p) simp_all

lemma classify_requeue:
  "pa_requeue (fold classify_unfinished ts p) =
     pa_requeue p @ map (\<lambda>t. t\<lparr>status := PENDING\<rparr>)
       (filter (goes_pending (tm_registry (pa_tm p)) (tm_requeue_pending (pa_tm p))) ts)"
proof (induction ts arbitrary: p)
  case (Cons t ts)
  have "pa_requeue (classify_unfinished t p) = pa_requeue p @ map (\<lambda>t. t\<lparr>status := PENDING\<rparr>)
       (filter (goes_pending (tm_registry (pa_tm p)) (tm_requeue_pending (pa_tm p))) [t])"
    by (auto simp: classify_unfinished_def goes_pending_def Let_def)
  then show ?case by (simp add: Cons.IH)
qed simp

lemma classify_interrupt_one:
  "map task_id (pa_interrupt (classify_unfinished t p)) = map task_id (pa_interrupt p) @
     (if goes_interrupted (tm_registry (pa_tm p)) t then [task_id t] else [])"
  by (simp add: classify_unfinished_def goes_interrupted_def Let_def)

lemma classify_interrupt:
  "map task_id (pa_interrupt (fold classify_unfinished ts p)) =
     map task_id (pa_interrupt p) @ map task_id (filter (goes_interrupted (tm_registry (pa_tm p))) ts)"
proof (induction ts arbitrary: p)
  case (Cons t ts)
  show ?case
    using Cons.IH [of "classify_unfinished t p"]
    by (simp only: fold_simps(2) classify_interrupt_one classify_frame) simp
qed simp

lemma classify_interrupt_status:
  "\<forall>t \<in> set (pa_interrupt p). status t = INTERRUPTED \<Longrightarrow>
   \<forall>t \<in> set (pa_interrupt (fold classify_unfinished ts p)). status t = INTERRUPTED"
proof (induction ts arbitrary: p)
  case (Cons t ts)
  have "\<forall>t \<in> set (pa_interrupt (classify_unfinished t p)). status t = INTERRUPTED"
    using Cons.prems by (auto simp: classify_unfinished_def Let_def)
  then show ?case using Cons.IH by simp
qed simp

lemma classify_get_other:
  "k \<notin> task_id ` set ts \<Longrightarrow>
   store_get (tm_store (pa_tm (fold classify_unfinished ts p))) k = store_get (tm_store (pa_tm p)) k"
proof (induction ts arbitrary: p)
  case (Cons t ts)
  then have "store_get (tm_store (pa_tm (classify_unfinished t p))) k
               = store_get (tm_store (pa_tm p)) k"
    by (auto simp: classify_unfinished_def Let_def)
  then show ?case using Cons by simp
qed simp

definition class_status :: "registry \<Rightarrow> task_record \<Rightarrow> task_status" where
  "class_status rg t = (if goes_interrupted rg t then INTERRUPTED else PENDING)"

lemma classify_get_one:
  "store_get (tm_store (pa_tm p)) (task_id t) = Some t \<Longrightarrow>
   map_option status (store_get (tm_store (pa_tm (classify_unfinished t p))) (task_id t))
     = Some (class_status (tm_registry (pa_tm p)) t)"
  by (auto simp: classify_unfinished_def class_status_def goes_interrupted_def Let_def)

lemma classify_get:
  "distinct (map task_id ts) \<Longrightarrow> t \<in> set ts \<Longrightarrow>
   \<forall>t \<in> set ts. store_get (tm_store (pa_tm p)) (task_id t) = Some t \<Longrightarrow>
   map_option status (store_get (tm_store (pa_tm (fold classify_unfinished ts p))) (task_id t))
     = Some (class_status (tm_registry (pa_tm p)) t)"
proof (induction ts arbitrary: p)
  case (Cons u ts)
  show ?case
  proof (cases "t = u")
    case True
    then have "task_id t \<notin> task_id ` set ts" using Cons.prems(1) by auto
    then show ?thesis
      using classify_get_other [of "task_id t" ts "classify_unfinished u p"]
        classify_get_one [of p u] Cons.prems(3) True by simp
  next
    case False
    have "store_get (tm_store (pa_tm (classify_unfinished u p))) (task_id x) = Some x"
      if "x \<in> set ts" for x
    proof -
      have "task_id x \<noteq> task_id u" using that Cons.prems(1) by (metis distinct.simps(2) imageI list.map(2) list.set_map)
      then show ?thesis
        using classify_get_other [of "task_id x" "[u]" p] that Cons.prems(3) by simp
    qed
    then show ?thesis
      using Cons.IH [of "classify_unfinished u p"] Cons.prems False by simp
  qed
qed simp

lemma store_ids_distinct: "store_wf s \<Longrightarrow> distinct (map task_id (store_list s))"
proof -
  assume w: "store_wf s"
  then have "map task_id (store_list s) = dkeys (st_tasks s)"
    by (auto simp: store_list_def store_wf_def)
  then show ?thesis using w by (simp add: store_wf_def)
qed

lemma flush_pending_store:
  "tm_store (snd (flush_pending m))
     = (if filter unfinished (store_list (tm_store m)) = [] then tm_store m
        else tm_store (pa_tm (classify_all m)))"
  by (simp add: flush_pending_def Let_def)

lemma flush_pending_backend:
  assumes "filter unfinished (store_list (tm_store m)) \<noteq> []" and "tm_backend m = Some db"
  shows "tm_backend (snd (flush_pending m)) =
     (let db1 = (if pa_interrupt (classify_all m) = [] then db
                 else snd (sq_save (dt_wall (tm_now (pa_tm (classify_all m))))
                             (pa_interrupt (classify_all m)) db))
      in Some (if pa_requeue (classify_all m) = [] then db1
               else snd (sq_save_pending (pa_requeue (classify_all m)) db1)))"
  using assms by (simp add: flush_pending_def Let_def classify_all_def)

lemma mem_store_list: "store_wf s \<Longrightarrow> store_get s k = Some r \<Longrightarrow> r \<in> set (store_list s)"
  using store_wf_get [of s k r] store_wf_mem [of s r] by simp

section \<open>Requeue\<close>

definition job_of :: "tm \<Rightarrow> task_record \<Rightarrow> job list" where
  "job_of m r =
     (case get_by_name (tm_registry m) (func_name r) of
        None \<Rightarrow> []
      | Some (f, c) \<Rightarrow> [make_job f (task_id r) c (args r) (kwargs r) (resolve_executor f c) m])"

definition requeued_jobs :: "string list \<Rightarrow> sqlite \<Rightarrow> tm \<Rightarrow> task_record list \<Rightarrow> job list" where
  "requeued_jobs completed db m rs =
     concat (map (job_of m)
       (filter (\<lambda>r. task_id r \<notin> set completed \<and> task_id r \<in> set (dkeys (sq_pending db))) rs))"

lemma pending_after_claim:
  "set (dkeys (sq_pending (snd (sq_claim_pending k db)))) = set (dkeys (sq_pending db)) - {k}"
  using in_keys_delete_row [of _ k "sq_pending db"]
  unfolding claim_pending_simps by blast

lemma requeue_one_plain:
  assumes "tm_queues m = []" and "tm_backend m = Some db" and "sqlite_wf db"
  shows "\<exists>m'. requeue_one completed r n m
           = (Inr (n + length (requeued_jobs completed db m [r])), m')
     \<and> tm_queues m' = [] \<and> tm_registry m' = tm_registry m
     \<and> tm_backend m' = Some (if task_id r \<in> set completed then db
                             else snd (sq_claim_pending (task_id r) db))
     \<and> tm_spawned m' = tm_spawned m @ requeued_jobs completed db m [r]"
proof -
  have c: "fst (sq_claim_pending (task_id r) db) = (task_id r \<in> set (dkeys (sq_pending db)))"
    using assms(3) TrueI by (rule pending_claims.claim_result)
  obtain b db' where p: "sq_claim_pending (task_id r) db = (b, db')"
    by (cases "sq_claim_pending (task_id r) db")
  show ?thesis
    using c p assms(1,2)
    by (cases "get_by_name (tm_registry m) (func_name r)")
       (auto simp: requeue_one_def requeued_jobs_def job_of_def make_job_def Let_def)
qed

lemma job_of_cong:
  "tm_registry m' = tm_registry m \<Longrightarrow> (tm_backend m' = None) = (tm_backend m = None) \<Longrightarrow>
   job_of m' r = job_of m r"
  by (simp add: job_of_def make_job_def split: option.splits)

lemma requeue_loop_plain:
  assumes "tm_queues m = []" and "tm_backend m = Some db" and "sqlite_wf db"
    and "distinct (map task_id rs)"
  shows "\<exists>m' db'. requeue_loop completed rs n m
           = (Inr (n + length (requeued_jobs completed db m rs)), m')
     \<and> tm_queues m' = [] \<and> tm_backend m' = Some db' \<and> sqlite_wf db'
     \<and> tm_spawned m' = tm_spawned m @ requeued_jobs completed db m rs"
  using assms
proof (induction rs arbitrary: n m db)
  case Nil
  then show ?case by (simp add: requeued_jobs_def)
next
  case (Cons r rs)
  let ?db1 = "if task_id r \<in> set completed then db else snd (sq_claim_pending (task_id r) db)"
  from requeue_one_plain [OF Cons.prems(1-3), of completed r n] obtain m1 where
    one: "requeue_one completed r n m = (Inr (n + length (requeued_jobs completed db m [r])), m1)"
    and m1: "tm_queues m1 = []" "tm_registry m1 = tm_registry m" "tm_backend m1 = Some ?db1"
      "tm_spawned m1 = tm_spawned m @ requeued_jobs completed db m [r]" by blast
  have wf1: "sqlite_wf ?db1" using Cons.prems(3) by (simp add: sqlite_wf_rest)
  have "job_of m1 x = job_of m x" for x
    using m1(2,3) Cons.prems(2) by (intro job_of_cong) auto
  moreover have "task_id x \<in> set (dkeys (sq_pending ?db1)) \<longleftrightarrow> task_id x \<in> set (dkeys (sq_pending db))"
    if "x \<in> set rs" for x
  proof -
    have "task_id x \<noteq> task_id r"
      using that Cons.prems(4) by (metis distinct.simps(2) imageI list.map(2) list.set_map)
    then show ?thesis using pending_after_claim [of "task_id r" db] by simp
  qed
  ultimately have jobs: "requeued_jobs completed ?db1 m1 rs = requeued_jobs completed db m rs"
    unfolding requeued_jobs_def by (intro arg_cong [where f = concat] map_cong filter_cong) auto
  have split: "requeued_jobs completed db m (r # rs)
                 = requeued_jobs completed db m [r] @ requeued_jobs completed db m rs"
    by (simp add: requeued_jobs_def)
  obtain m' db' where
    "requeue_loop completed rs (n + length (requeued_jobs completed db m [r])) m1
       = (Inr (n + length (requeued_jobs completed db m [r])
               + length (requeued_jobs completed ?db1 m1 rs)), m')"
    "tm_queues m' = []" "tm_backend m' = Some db'" "sqlite_wf db'"
    "tm_spawned m' = tm_spawned m1 @ requeued_jobs completed ?db1 m1 rs"
    using Cons.IH [OF m1(1) m1(3) wf1] Cons.prems(4) by fastforce
  then show ?case using one m1(4) unfolding jobs split by simp
qed

section \<open>A concrete manager\<close>

text \<open>One registered function, a SQLite backend, one running task.\<close>

definition ex_tm :: tm where
  "ex_tm = \<lparr>tm_registry = register ex_func ex_config registry_init, tm_store = store_init,
     tm_backend = Some sqlite_init, tm_requeue_pending = True, tm_retention = Some 1000000,
     tm_retention_counter = 0, tm_retention_every = 1, tm_flush_loop = False, tm_logger = None,
     tm_fernet = None, tm_nonce = 0, tm_uuid = (\<lambda>n. CHR ''u'' # dec n), tm_next_uuid = 0,
     tm_procs = process_executor_init,
     tm_pickler = \<lparr>pk_cloudpickle = True, pk_accepts = (\<lambda>as kw. True)\<rparr>,
     tm_running = [], tm_queue_configs = [], tm_queues = [], tm_priority_queue = [],
     tm_priority_seq = 0, tm_priority_worker = True, tm_spawned = [], tm_starlette = [],
     tm_audit = [], tm_cache = [], tm_cache_ts = 0, tm_merged_ttl = 5000000,
     tm_retry_replaces = True, tm_periodic = None, tm_deferred = [], tm_instance_url = None,
     tm_instance_prefix = [], tm_registry_ttl = 90, tm_heartbeat = 30, tm_instance = None,
     tm_cancels = [], tm_mono = int, tm_clock = int, tm_ticks = 0\<rparr>"

definition mgr :: "string \<Rightarrow> tm" where
  "mgr tid = ex_tm\<lparr>tm_store := snd (store_create ((ex_record tid)\<lparr>status := RUNNING\<rparr>) store_init)\<rparr>"

lemma mgr_get: "store_get (tm_store (mgr tid)) k
     = (if k = tid then Some ((ex_record tid)\<lparr>status := RUNNING\<rparr>) else None)"
  by (simp add: mgr_def ex_record_def new_record_def) (simp add: store_get_def store_init_def)

lemma mgr_wf: "store_wf (tm_store (mgr tid))"
  by (simp add: mgr_def store_wf_create store_wf_init)

section \<open>Properties\<close>



lemma load_pending_ids:
  assumes "sqlite_wf db"
  shows "map task_id (sq_load_pending db) = dkeys (sq_pending db)"
  using assms by (auto simp: sq_load_pending_def pend_to_record_def sqlite_wf_def)


text \<open>A backend with one pending task of the registered function.\<close>

definition ex_pending :: "string \<Rightarrow> sqlite" where
  "ex_pending tid = snd (sq_save_pending [ex_record tid] sqlite_init)"

lemma ex_pending_wf: "sqlite_wf (ex_pending tid)"
  by (simp add: ex_pending_def sqlite_wf_save_pending sqlite_wf_init)


lemma stamp_opt:
  "pred_option dt_ok d \<Longrightarrow> map_option fromisoformat (map_option isoformat d) = d"
  by (cases d) (simp_all add: fromisoformat_isoformat)

lemma row_roundtrip:
  assumes "times_ok r" and "native_call (args r) (kwargs r)" and "source r \<noteq> []" and "queue r \<noteq> []"
    and "encrypted_payload r \<noteq> Some []"
  shows "row_to_record (record_to_row now r) = r\<lparr>idempotency_key := None, tags := []\<rparr>"
proof -
  have t: "fromisoformat (isoformat (created_at r)) = created_at r"
    "map_option fromisoformat (map_option isoformat (start_time r)) = start_time r"
    "map_option fromisoformat (map_option isoformat (end_time r)) = end_time r"
    using assms(1) by (simp_all add: times_ok_def fromisoformat_isoformat stamp_opt del: option.map_comp)
  have a: "json_args (args_json (args r)) = args r"
    "json_kwargs (kwargs_json (kwargs r)) = kwargs r"
    using assms(2) by (auto simp: native_call_def json_args_roundtrip json_kwargs_roundtrip)
  have o: "nonempty (nonempty (encrypted_payload r)) = encrypted_payload r"
    "or_default (source r) ''manual'' = source r" "or_default (queue r) ''default'' = queue r"
    using assms(3-5) by (auto simp: nonempty_def or_default_def split: option.splits)
  show ?thesis using t a o by (cases r) (simp add: row_to_record_def record_to_row_def)
qed



text \<open>Pruning removes from the store exactly the terminal records that ended before the cutoff;
  a pending or running task is never removed.\<close>

lemma prune_exact:
  assumes "store_wf (tm_store m)"
  shows "store_get (tm_store (prune_old_records keep m)) k =
     (case store_get (tm_store m) k of
        None \<Rightarrow> None
      | Some r \<Rightarrow> if expired (add_us (tm_now m) (- keep)) r then None else Some r)
   \<and> (\<forall>r. store_get (tm_store m) k = Some r \<longrightarrow> unfinished r \<longrightarrow>
        store_get (tm_store (prune_old_records keep m)) k = Some r)"
proof -
  have "tm_store (prune_old_records keep m)
          = snd (delete_completed_before (add_us (tm_now m) (- keep)) (tm_store m))"
    by (simp add: prune_old_records_def Let_def case_prod_beta invalidate_cache_def tm_tick_def
          split: option.splits)
  then show ?thesis
    by (auto simp: delete_before_get [OF assms] expired_def terminal_def unfinished_def)
qed

lemma prune_exact_witness:
  "store_get (tm_store (prune_old_records 1 (mgr ''t1''))) ''t1''
     = Some ((ex_record ''t1'')\<lparr>status := RUNNING\<rparr>)"
proof -
  have "store_get (tm_store (mgr ''t1'')) ''t1'' = Some ((ex_record ''t1'')\<lparr>status := RUNNING\<rparr>)"
    "unfinished ((ex_record ''t1'')\<lparr>status := RUNNING\<rparr>)"
    by (simp_all add: mgr_get unfinished_def)
  then show ?thesis using prune_exact [OF mgr_wf, of 1 "''t1''" "''t1''"] by blast
qed

text \<open>Retention disagrees with itself: a cancelled or rejected record whose time has come leaves the
  store but stays in the history table, so the next merged view shows it again.\<close>

lemma prune_leaves_cancelled_rows:
  assumes "store_wf (tm_store m)" and "tm_backend m = Some db"
    and "store_get (tm_store m) k = Some r" and "expired (add_us (tm_now m) (- keep)) r"
    and "sq_get_row db k = Some (record_to_row now r)" and "status r \<in> {CANCELLED, REJECTED}"
    and "sqlite_wf db"
  shows "store_get (tm_store (prune_old_records keep m)) k = None
     \<and> (case tm_backend (prune_old_records keep m) of
          None \<Rightarrow> False | Some db' \<Rightarrow> sq_get_row db' k = Some (record_to_row now r))"
proof -
  let ?c = "add_us (tm_now m) (- keep)"
  have "(k, record_to_row now r) \<in> set (sq_history db)"
    using assms(5) by (simp add: sq_get_row_def map_of_SomeD)
  then have "(k, record_to_row now r)
               \<in> set (filter (\<lambda>(k, r). \<not> row_expired (isoformat ?c) r) (sq_history db))"
    using assms(6) by (auto simp: row_expired_def record_to_row_def)
  moreover have "dwf (filter (\<lambda>(k, r). \<not> row_expired (isoformat ?c) r) (sq_history db))"
    using sqlite_wf_dwf(1) [OF assms(7)] by (rule dwf_filter)
  ultimately have "sq_get_row (snd (sq_delete_before ?c db)) k = Some (record_to_row now r)"
    by (simp add: sq_get_row_def sq_delete_before_def map_of_is_SomeI)
  moreover have "tm_backend (prune_old_records keep m) = Some (snd (sq_delete_before ?c db))"
    using assms(2)
    by (simp add: prune_old_records_def Let_def case_prod_beta invalidate_cache_def)
  ultimately show ?thesis using prune_exact [OF assms(1), of keep k] assms(3,4) by simp
qed

definition ex_cancelled :: task_record where
  "ex_cancelled = (ex_record ''t1'')\<lparr>status := CANCELLED, end_time := Some (utc_dt 0)\<rparr>"

definition ex_prune :: tm where
  "ex_prune = ex_tm\<lparr>tm_store := snd (store_create ex_cancelled store_init),
     tm_backend := Some (snd (sq_save 7 [ex_cancelled] sqlite_init))\<rparr>"

lemma prune_leaves_cancelled_rows_witness:
  "store_get (tm_store (prune_old_records (- 10) ex_prune)) ''t1'' = None
   \<and> (case tm_backend (prune_old_records (- 10) ex_prune) of
        None \<Rightarrow> False
      | Some db' \<Rightarrow> sq_get_row db' ''t1'' = Some (record_to_row (isoformat (naive_dt 7)) ex_cancelled))"
proof (rule prune_leaves_cancelled_rows [where r = ex_cancelled])
  show "store_wf (tm_store ex_prune)"
    by (simp add: ex_prune_def store_wf_create store_wf_init)
  show "tm_backend ex_prune = Some (snd (sq_save 7 [ex_cancelled] sqlite_init))"
    by (simp add: ex_prune_def)
  have id: "task_id ex_cancelled = ''t1''"
    by (simp add: ex_cancelled_def ex_record_def new_record_def)
  then show "store_get (tm_store ex_prune) ''t1'' = Some ex_cancelled"
    by (simp add: ex_prune_def)
  show "expired (add_us (tm_now ex_prune) (- (- 10))) ex_cancelled"
    by (simp add: expired_def terminal_def ex_cancelled_def ex_prune_def ex_tm_def tm_now_def
          utc_dt_def add_us_def replace_tz_def)
  show "sq_get_row (snd (sq_save 7 [ex_cancelled] sqlite_init)) ''t1''
          = Some (record_to_row (isoformat (naive_dt 7)) ex_cancelled)"
    by (simp add: sq_save_def) (simp add: record_to_row_def id)
  show "status ex_cancelled \<in> {CANCELLED, REJECTED}" by (simp add: ex_cancelled_def)
  show "sqlite_wf (snd (sq_save 7 [ex_cancelled] sqlite_init))"
    by (intro sqlite_wf_save sqlite_wf_init)
qed

text \<open>A task of a function registered under another name (\<open>@task(name=...)\<close>) is recorded under the
  function's own name, so a requeue claims it, does not find the function and drops it.\<close>

lemma renamed_task_lost:
  assumes "tc_name c = Some n" and "n \<noteq> []" and "n \<noteq> fn_name f"
    and "tm_registry m = register f c registry_init" and "func_name r = fn_name f"
    and "tm_backend m = Some db" and "sqlite_wf db"
    and "task_id r \<in> set (dkeys (sq_pending db))" and "task_id r \<notin> set completed"
  shows "case requeue_one completed r k m of
           (Inl e, m') \<Rightarrow> False
         | (Inr k', m') \<Rightarrow> k' = k \<and> tm_store m' = tm_store m \<and> tm_spawned m' = tm_spawned m
             \<and> tm_queues m' = tm_queues m
             \<and> (case tm_backend m' of
                  None \<Rightarrow> False | Some db' \<Rightarrow> task_id r \<notin> set (dkeys (sq_pending db')))"
proof -
  have g: "get_by_name (tm_registry m) (func_name r) = None"
    using assms(1-5) by (simp add: get_by_name_def register_def registry_init_def or_str_def)
  have c: "fst (sq_claim_pending (task_id r) db)"
    using pending_claims.claim_result [OF assms(7) TrueI] assms(8) by blast
  have "task_id r \<notin> set (dkeys (sq_pending (snd (sq_claim_pending (task_id r) db))))"
    unfolding pending_after_claim by blast
  then show ?thesis
    using assms(6,9) g c
    by (cases "sq_claim_pending (task_id r) db") (simp add: requeue_one_def Let_def)
qed

lemma renamed_task_lost_witness:
  "case requeue_one [] (ex_record ''t1'') 0
          (ex_tm\<lparr>tm_registry := register ex_func (ex_config\<lparr>tc_name := Some ''mail''\<rparr>) registry_init,
                 tm_backend := Some (ex_pending ''t1'')\<rparr>) of
     (Inl e, m') \<Rightarrow> False
   | (Inr k', m') \<Rightarrow> k' = 0
       \<and> tm_store m' = tm_store (ex_tm\<lparr>tm_registry := register ex_func
             (ex_config\<lparr>tc_name := Some ''mail''\<rparr>) registry_init,
             tm_backend := Some (ex_pending ''t1'')\<rparr>)
       \<and> tm_spawned m' = tm_spawned (ex_tm\<lparr>tm_registry := register ex_func
             (ex_config\<lparr>tc_name := Some ''mail''\<rparr>) registry_init,
             tm_backend := Some (ex_pending ''t1'')\<rparr>)
       \<and> tm_queues m' = tm_queues (ex_tm\<lparr>tm_registry := register ex_func
             (ex_config\<lparr>tc_name := Some ''mail''\<rparr>) registry_init,
             tm_backend := Some (ex_pending ''t1'')\<rparr>)
       \<and> (case tm_backend m' of
            None \<Rightarrow> False
          | Some db' \<Rightarrow> task_id (ex_record ''t1'') \<notin> set (dkeys (sq_pending db')))"
proof -
  have r: "task_id (ex_record ''t1'') = ''t1''" "func_name (ex_record ''t1'') = fn_name ex_func"
    by (simp_all add: ex_record_def new_record_def ex_func_def)
  have p: "dkeys (sq_pending (ex_pending ''t1'')) = [''t1'']"
    by (simp add: ex_pending_def sq_save_pending_def replace_row_def record_to_pend_def ex_record_def
        new_record_def)
  show ?thesis
  proof (rule renamed_task_lost [where c = "ex_config\<lparr>tc_name := Some ''mail''\<rparr>" and n = "''mail''"
        and f = ex_func and db = "ex_pending ''t1''"])
    show "''mail'' \<noteq> fn_name ex_func" by (simp add: ex_func_def)
    show "sqlite_wf (ex_pending ''t1'')" by (rule ex_pending_wf)
    show "task_id (ex_record ''t1'') \<in> set (dkeys (sq_pending (ex_pending ''t1'')))"
      by (simp add: r p)
  qed (simp_all add: r)
qed

end
