(* ===== verification/Periodic_Props.thy ===== *)
theory Periodic_Props
  imports Periodic Snapshot_Props
begin

text \<open>
  Properties of the scheduling loop: a turn ends, a replaced or cancelled one-off never fires, a
  one-off is claimed by exactly one instance, and three behaviours of the code that lose firings.
\<close>

section \<open>A turn ends\<close>

definition count_due :: "datetime \<Rightarrow> periodic \<Rightarrow> nat" where
  "count_due now p = length (filter (\<lambda>i. ps_key p i \<le> instant now) (ps_heap p))"

text \<open>Every recurring schedule moves past the time of the turn.\<close>

definition progressive :: "cron_fun \<Rightarrow> datetime \<Rightarrow> periodic \<Rightarrow> bool" where
  "progressive cron now p \<longleftrightarrow>
     (\<forall>e \<in> set (dvals (ps_objs p)). se_once e = None \<longrightarrow>
        (case compute_next cron e now of Inl _ \<Rightarrow> True | Inr t \<Rightarrow> instant now < instant t))"

lemma obj_upd_fields [simp]:
  "ps_heap (obj_upd i f p) = ps_heap p" "ps_one_offs (obj_upd i f p) = ps_one_offs p"
  "ps_entries (obj_upd i f p) = ps_entries p" "ps_next_obj (obj_upd i f p) = ps_next_obj p"
  by (simp_all add: obj_upd_def split: option.splits)

lemma obj_upd_get:
  "dget (ps_objs (obj_upd i f p)) j
     = (if j = i then map_option f (dget (ps_objs p) i) else dget (ps_objs p) j)"
  by (simp add: obj_upd_def split: option.splits)

lemma ps_key_heap [simp]: "ps_key (p\<lparr>ps_heap := h\<rparr>) = ps_key p"
  "ps_key (p\<lparr>ps_one_offs := o'\<rparr>) = ps_key p" "ps_key (push_obj i p) = ps_key p"
  by (auto simp: ps_key_def push_obj_def fun_eq_iff)

lemma ps_key_upd:
  "dget (ps_objs p) i = Some e \<Longrightarrow>
   ps_key (obj_upd i (\<lambda>e. e\<lparr>se_next_run := t\<rparr>) p) j = (if j = i then instant t else ps_key p j)"
  by (simp add: ps_key_def obj_upd_get)

lemma compute_next_run [simp]: "compute_next cron (e\<lparr>se_next_run := t\<rparr>) now = compute_next cron e now"
  by (simp add: compute_next_def cong: option.case_cong)

lemma progressive_upd:
  assumes "progressive cron now p"
  shows "progressive cron now (obj_upd i (\<lambda>e. e\<lparr>se_next_run := t\<rparr>) p)"
proof (cases "dget (ps_objs p) i")
  case (Some e)
  have e: "e \<in> set (dvals (ps_objs p))" using map_of_SomeD [OF Some] by (auto intro: rev_image_eqI)
  have "set (dvals (dset i (e\<lparr>se_next_run := t\<rparr>) (ps_objs p)))
          \<subseteq> insert (e\<lparr>se_next_run := t\<rparr>) (set (dvals (ps_objs p)))"
    by (rule set_dvals_dset)
  then show ?thesis using assms e Some unfolding progressive_def obj_upd_def
    by (auto simp del: set_map simp: subset_iff)
qed (simp add: obj_upd_def assms)

lemma heappop_mset: "heappop k h = Some (i, h') \<Longrightarrow> mset h = add_mset i (mset h')"
  by (simp add: heappop_def take_min_mset)

lemma due_pop:
  assumes "due now p" and "heappop (ps_key p) (ps_heap p) = Some (i, h)"
  shows "ps_key p i \<le> instant now"
  using assms by (simp add: due_def heap_top_def heappop_def)

lemma count_due_mset: "count_due now p = size (filter_mset (\<lambda>i. ps_key p i \<le> instant now) (mset (ps_heap p)))"
  by (simp add: count_due_def flip: mset_filter)

lemma fire_result:
  assumes "fire cron i e now p m = (Inr p', m')"
  obtains t where "compute_next cron e now = Inr t" "p' = obj_upd i (\<lambda>e. e\<lparr>se_next_run := t\<rparr>) p"
  using assms by (auto simp: fire_def Let_def split: sum.splits prod.splits if_splits)

lemma fire_top_progress:
  assumes "due now p" and "progressive cron now p" and "fire_top cron now p m = (Inr p', m')"
  shows "count_due now p' < count_due now p \<and> progressive cron now p'"
proof (cases "heappop (ps_key p) (ps_heap p)")
  case None
  then show ?thesis using assms(1) by (simp add: due_def heap_top_def heappop_def)
next
  case (Some a)
  obtain i h where ih: "heappop (ps_key p) (ps_heap p) = Some (i, h)" using Some by (cases a) auto
  let ?D = "filter_mset (\<lambda>i. ps_key p i \<le> instant now)"
  have ki: "ps_key p i \<le> instant now" using due_pop [OF assms(1) ih] .
  have cnt: "count_due now p = Suc (size (?D (mset h)))"
    using ki heappop_mset [OF ih] by (simp add: count_due_mset)
  show ?thesis
  proof (cases "dget (ps_objs p) i")
    case None
    then have "p' = p\<lparr>ps_heap := h\<rparr>" using assms(3) ih by (simp add: fire_top_def)
    then show ?thesis using cnt assms(2) by (simp add: count_due_mset progressive_def)
  next
    case e: (Some e)
    show ?thesis
    proof (cases "se_cancelled e")
      case True
      then have "p' = p\<lparr>ps_heap := h\<rparr>" using assms(3) ih e by (simp add: fire_top_def)
      then show ?thesis using cnt assms(2) by (simp add: count_due_mset progressive_def)
    next
      case nc: False
      show ?thesis
      proof (cases "se_once e")
        case None
        then obtain p2 where f: "fire cron i e now (p\<lparr>ps_heap := h\<rparr>) m = (Inr p2, m')"
          and p': "p' = push_obj i p2"
          using assms(3) ih e nc by (auto simp: fire_top_def split: prod.splits sum.splits)
        obtain t where t: "compute_next cron e now = Inr t"
          and p2: "p2 = obj_upd i (\<lambda>e. e\<lparr>se_next_run := t\<rparr>) (p\<lparr>ps_heap := h\<rparr>)"
          using f by (rule fire_result)
        have "e \<in> set (dvals (ps_objs p))"
          using map_of_SomeD [OF e] by (auto intro: rev_image_eqI)
        then have gt: "instant now < instant t" using assms(2) None t by (auto simp: progressive_def)
        have k: "ps_key p2 j = (if j = i then instant t else ps_key p j)" for j
          unfolding p2 using ps_key_upd [of "p\<lparr>ps_heap := h\<rparr>" i e t j] e by simp
        have "filter_mset (\<lambda>j. ps_key p2 j \<le> instant now) (mset h) \<subseteq># ?D (mset h)"
          using k gt ki by (auto intro!: filter_mset_mono_strong)
        then have "size (filter_mset (\<lambda>j. ps_key p2 j \<le> instant now) (mset h)) \<le> size (?D (mset h))"
          by (rule size_mset_mono)
        moreover have "mset (ps_heap p') = add_mset i (mset h)"
          using p' p2 by (simp add: push_obj_def heappush_def)
        ultimately have "count_due now p' < count_due now p"
          using cnt k gt p' by (simp add: count_due_mset)
        moreover have "progressive cron now (p\<lparr>ps_heap := h\<rparr>)"
          using assms(2) by (simp add: progressive_def)
        then have "progressive cron now p2" unfolding p2 by (rule progressive_upd)
        then have "progressive cron now p'" by (simp add: p' push_obj_def progressive_def)
        ultimately show ?thesis by simp
      next
        case (Some so)
        then have "ps_heap p' = h \<and> ps_objs p' = ps_objs p"
          using assms(3) ih e nc by (auto simp: fire_top_def Let_def split: prod.splits sum.splits)
        then show ?thesis using cnt assms(2) by (simp add: count_due_mset progressive_def ps_key_def)
      qed
    qed
  qed
qed

lemma fire_due_enough:
  "progressive cron now p \<Longrightarrow> count_due now p \<le> n \<Longrightarrow> fire_due n cron now p m \<noteq> None"
proof (induction n arbitrary: p m)
  case 0
  have "\<not> due now p"
  proof
    assume d: "due now p"
    then obtain a where a: "heappop (ps_key p) (ps_heap p) = Some a"
      by (auto simp: due_def heap_top_def heappop_def split: option.splits)
    obtain i h where ih: "a = (i, h)" by (cases a)
    have "ps_key p i \<le> instant now" using due_pop [OF d] a ih by simp
    then show False using 0 heappop_mset [of "ps_key p" "ps_heap p" i h] a ih
      by (simp add: count_due_mset)
  qed
  then show ?case by simp
next
  case (Suc n)
  show ?case
  proof (cases "due now p")
    case True
    obtain r m' where t: "fire_top cron now p m = (r, m')" by (cases "fire_top cron now p m")
    show ?thesis
    proof (cases r)
      case (Inl x)
      then show ?thesis using True t by simp
    next
      case (Inr p')
      have "count_due now p' < count_due now p" "progressive cron now p'"
        using fire_top_progress [OF True Suc.prems(1), of m p' m'] t Inr by simp_all
      then show ?thesis using Suc.IH [of p' m'] Suc.prems(2) True t Inr by simp
    qed
  qed simp
qed

section \<open>Tombstones\<close>

text \<open>
  Every live one-off in the heap is the one the table holds for its key. A replaced or cancelled
  entry stays in the heap, marked.
\<close>

definition live_one_off :: "periodic \<Rightarrow> nat \<Rightarrow> string \<Rightarrow> bool" where
  "live_one_off p i k \<longleftrightarrow>
     (case dget (ps_objs p) i of
        None \<Rightarrow> False
      | Some e \<Rightarrow> \<not> se_cancelled e
          \<and> (case se_once e of None \<Rightarrow> False | Some so \<Rightarrow> so_run_key so = k))"

definition armed_ok :: "periodic \<Rightarrow> bool" where
  "armed_ok p \<longleftrightarrow>
     (\<forall>i \<in> set (ps_heap p). i < ps_next_obj p
        \<and> (\<forall>k. live_one_off p i k \<longrightarrow> dget (ps_one_offs p) k = Some i))
     \<and> (\<forall>i \<in> set (dkeys (ps_objs p)). i < ps_next_obj p)
     \<and> (\<forall>i \<in> set (dvals (ps_one_offs p)). i < ps_next_obj p)"

lemma dkeys_set_dset: "fst ` set (dset k v d) = insert k (fst ` set d)"
  by (induction d) auto

lemma live_cancel:
  "live_one_off (cancel_one_off k p) i k' \<longleftrightarrow>
     live_one_off p i k' \<and> dget (ps_one_offs p) k \<noteq> Some i"
  by (auto simp: cancel_one_off_def live_one_off_def obj_upd_def split: option.splits)

lemma cancel_fields [simp]:
  "ps_heap (cancel_one_off k p) = ps_heap p" "ps_next_obj (cancel_one_off k p) = ps_next_obj p"
  "ps_one_offs (cancel_one_off k p) = dpop k (ps_one_offs p)"
  by (auto simp: cancel_one_off_def dget_None_iff delete_id split: option.splits)

lemma keys_obj_upd: "dkeys (ps_objs (obj_upd i f p)) = dkeys (ps_objs p)"
  by (auto simp: obj_upd_def dkeys_dset_present dest: map_of_SomeD split: option.splits
      intro!: dkeys_dset_present rev_image_eqI)

lemma keys_cancel: "dkeys (ps_objs (cancel_one_off k p)) = dkeys (ps_objs p)"
  by (auto simp: cancel_one_off_def keys_obj_upd split: option.splits)

lemma dvals_dpop: "set (dvals (dpop k d)) \<subseteq> set (dvals d)"
  by (induction d) auto

lemma armed_cancel: "armed_ok p \<Longrightarrow> armed_ok (cancel_one_off k p)"
  using dvals_dpop [of k "ps_one_offs p"]
  unfolding armed_ok_def keys_cancel cancel_fields live_cancel by (auto simp del: set_map)

lemma armed_add:
  assumes "armed_ok p"
  shows "armed_ok (snd (add_one_off rg so p))"
proof (cases "get_by_name rg (so_func_name so)")
  case (Some fc)
  obtain f c where fc: "fc = (f, c)" by (cases fc)
  let ?p1 = "cancel_one_off (so_run_key so) p" and ?n = "ps_next_obj p"
  let ?e = "one_off_entry f c so"
  let ?q = "snd (add_one_off rg so p)"
  have ok: "armed_ok ?p1" using assms by (rule armed_cancel)
  have q: "ps_heap ?q = ps_heap p @ [?n]" "ps_next_obj ?q = Suc ?n"
    "ps_one_offs ?q = dset (so_run_key so) ?n (dpop (so_run_key so) (ps_one_offs p))"
    "ps_objs ?q = dset ?n ?e (ps_objs ?p1)"
    using Some fc by (simp_all add: add_one_off_def alloc_def push_obj_def heappush_def Let_def)
  have live: "live_one_off ?q i k \<longleftrightarrow>
      (if i = ?n then k = so_run_key so else live_one_off ?p1 i k)" for i k
    by (auto simp: live_one_off_def q one_off_entry_def)
  have notk: "\<not> live_one_off ?p1 i (so_run_key so)" if "i \<in> set (ps_heap p)" for i
    using assms that live_cancel [of "so_run_key so" p i "so_run_key so"]
    by (auto simp: armed_ok_def)
  have h: "i < ?n \<and> (\<forall>k. live_one_off ?p1 i k \<longrightarrow> dget (dpop (so_run_key so) (ps_one_offs p)) k = Some i)"
    if "i \<in> set (ps_heap p)" for i
    using ok that unfolding armed_ok_def cancel_fields by blast
  have k: "\<forall>i \<in> set (dkeys (ps_objs ?p1)). i < ?n"
    "\<forall>i \<in> set (dvals (dpop (so_run_key so) (ps_one_offs p))). i < ?n"
    using ok unfolding armed_ok_def cancel_fields by blast+
  have "set (dvals (dset (so_run_key so) ?n (dpop (so_run_key so) (ps_one_offs p))))
          \<subseteq> insert ?n (set (dvals (dpop (so_run_key so) (ps_one_offs p))))"
    by (rule set_dvals_dset)
  then have v: "\<forall>i \<in> set (dvals (ps_one_offs ?q)). i < Suc ?n" unfolding q using k(2) by fastforce
  have o: "\<forall>i \<in> set (dkeys (ps_objs ?q)). i < Suc ?n"
    unfolding q using k(1) by (auto simp: dkeys_set_dset less_Suc_eq)
  have "i < Suc ?n \<and> (\<forall>k. live_one_off ?q i k \<longrightarrow> dget (ps_one_offs ?q) k = Some i)"
    if "i \<in> set (ps_heap ?q)" for i
    using that h [of i] notk [of i] unfolding live q by (cases "i = ?n") auto
  then show ?thesis unfolding armed_ok_def q(2) using v o by blast
qed (simp add: add_one_off_def assms)

lemma armed_refill: "armed_ok p \<Longrightarrow> armed_ok (refill rg bk now p)"
proof (cases bk)
  case (Some db)
  have "armed_ok p \<Longrightarrow> armed_ok (fold (refill_one rg) xs p)" for xs
    by (induction xs arbitrary: p) (simp_all add: refill_one_def armed_add)
  then show "armed_ok p \<Longrightarrow> armed_ok (refill rg bk now p)" using Some by (simp add: refill_def)
qed (simp add: refill_def)

lemma armed_heap_subset:
  assumes "armed_ok p" and "set h \<subseteq> set (ps_heap p)"
  shows "armed_ok (p\<lparr>ps_heap := h\<rparr>)"
  using assms unfolding armed_ok_def live_one_off_def by auto

lemma armed_upd_run:
  assumes "armed_ok p"
  shows "armed_ok (obj_upd i (\<lambda>e. e\<lparr>se_next_run := t\<rparr>) p)"
proof -
  have "live_one_off (obj_upd i (\<lambda>e. e\<lparr>se_next_run := t\<rparr>) p) j k = live_one_off p j k" for j k
    by (auto simp: live_one_off_def obj_upd_get split: option.splits)
  then show ?thesis using assms unfolding armed_ok_def keys_obj_upd obj_upd_fields by simp
qed

lemma armed_fire_top:
  assumes "armed_ok p" and "distinct (ps_heap p)" and "fire_top cron now p m = (Inr p', m')"
  shows "armed_ok p' \<and> distinct (ps_heap p')"
proof (cases "heappop (ps_key p) (ps_heap p)")
  case None
  then show ?thesis using assms by (simp add: fire_top_def)
next
  case (Some a)
  obtain i h where ih: "heappop (ps_key p) (ps_heap p) = Some (i, h)" using Some by (cases a) auto
  have ms: "mset (ps_heap p) = add_mset i (mset h)" using heappop_mset [OF ih] .
  have sub: "set (ps_heap p) = insert i (set h)"
    using arg_cong [OF ms, of set_mset] by simp
  have dh: "distinct h" "i \<notin> set h"
  proof -
    have "distinct (i # h)" using ms assms(2) mset_eq_imp_distinct_iff [of "ps_heap p" "i # h"] by simp
    then show "distinct h" "i \<notin> set h" by simp_all
  qed
  let ?p1 = "p\<lparr>ps_heap := h\<rparr>"
  have ok1: "armed_ok ?p1" using assms(1) sub by (intro armed_heap_subset) auto
  show ?thesis
  proof (cases "dget (ps_objs p) i")
    case None
    then show ?thesis using assms(3) ih ok1 dh by (auto simp: fire_top_def)
  next
    case e: (Some e)
    show ?thesis
    proof (cases "se_cancelled e")
      case True
      then show ?thesis using assms(3) ih e ok1 dh by (auto simp: fire_top_def)
    next
      case nc: False
      show ?thesis
      proof (cases "se_once e")
        case None
        then obtain p2 where f: "fire cron i e now ?p1 m = (Inr p2, m')" and p': "p' = push_obj i p2"
          using assms(3) ih e nc by (auto simp: fire_top_def split: prod.splits sum.splits)
        obtain t where p2: "p2 = obj_upd i (\<lambda>e. e\<lparr>se_next_run := t\<rparr>) ?p1"
          using f by (rule fire_result)
        have ok2: "armed_ok p2" unfolding p2 using ok1 by (rule armed_upd_run)
        have nl: "\<not> live_one_off p2 i k" for k
          using e None by (simp add: p2 live_one_off_def obj_upd_get)
        have "i < ps_next_obj p" using assms(1) sub by (auto simp: armed_ok_def)
        then have "armed_ok p'"
          using ok2 nl unfolding p' armed_ok_def push_obj_def live_one_off_def
          by (auto simp: heappush_def p2)
        moreover have "distinct (ps_heap p')" using dh by (simp add: p' p2 push_obj_def heappush_def)
        ultimately show ?thesis by simp
      next
        case (Some so)
        then have p': "p' = ?p1\<lparr>ps_one_offs := dpop (so_run_key so) (ps_one_offs p)\<rparr>"
          using assms(3) ih e nc by (auto simp: fire_top_def Let_def split: prod.splits sum.splits)
        have li: "live_one_off p i (so_run_key so)" using e nc Some by (simp add: live_one_off_def)
        then have own: "dget (ps_one_offs p) (so_run_key so) = Some i"
          using assms(1) sub unfolding armed_ok_def by blast
        have "dget (dpop (so_run_key so) (ps_one_offs p)) k = Some j"
          if "j \<in> set h" "live_one_off p j k" for j k
        proof -
          have jk: "dget (ps_one_offs p) k = Some j" using that assms(1) sub by (auto simp: armed_ok_def)
          then have "k \<noteq> so_run_key so" using own that(1) dh(2) by auto
          then show ?thesis using jk by simp
        qed
        then have "armed_ok p'"
          using ok1 dvals_dpop [of "so_run_key so" "ps_one_offs p"]
          unfolding p' armed_ok_def live_one_off_def by (auto simp del: set_map)
        then show ?thesis using dh p' by simp
      qed
    qed
  qed
qed

section \<open>Reachable schedulers\<close>

inductive ps_reach :: "cron_fun \<Rightarrow> registry \<Rightarrow> periodic \<Rightarrow> bool" for cron rg where
  new: "ps_reach cron rg (new_periodic b now)"
| register: "ps_reach cron rg p \<Longrightarrow> se_once e = None \<Longrightarrow> ps_reach cron rg (append_entry e p)"
| add: "ps_reach cron rg p \<Longrightarrow> se_once e = None \<Longrightarrow> ps_reach cron rg (add_entry e p)"
| arm: "ps_reach cron rg p \<Longrightarrow> ps_reach cron rg (snd (add_one_off rg so p))"
| cancel: "ps_reach cron rg p \<Longrightarrow> ps_reach cron rg (cancel_one_off k p)"
| pull: "ps_reach cron rg p \<Longrightarrow> ps_reach cron rg (refill rg bk now p)"
| start: "ps_reach cron rg p \<Longrightarrow> ps_start cron now p = Inr p' \<Longrightarrow> ps_reach cron rg p'"
| fired: "ps_reach cron rg p \<Longrightarrow> fire_top cron now p m = (Inr p', m') \<Longrightarrow> ps_reach cron rg p'"

text \<open>The registrations are recurring and distinct.\<close>

definition recurring_at :: "periodic \<Rightarrow> nat \<Rightarrow> bool" where
  "recurring_at p i \<longleftrightarrow> (case dget (ps_objs p) i of None \<Rightarrow> False | Some e \<Rightarrow> se_once e = None)"

definition entries_ok :: "periodic \<Rightarrow> bool" where
  "entries_ok p \<longleftrightarrow> distinct (ps_entries p) \<and> (\<forall>i \<in> set (ps_entries p). i < ps_next_obj p \<and> recurring_at p i)"

definition ps_inv :: "periodic \<Rightarrow> bool" where
  "ps_inv p \<longleftrightarrow> armed_ok p \<and> distinct (ps_heap p) \<and> entries_ok p"

lemma recurring_upd: "(\<And>e. se_once (f e) = se_once e) \<Longrightarrow> recurring_at (obj_upd j f p) i = recurring_at p i"
  by (auto simp: recurring_at_def obj_upd_get split: option.splits)

lemma recurring_heap [simp]: "recurring_at (p\<lparr>ps_heap := h\<rparr>) = recurring_at p"
  "recurring_at (p\<lparr>ps_one_offs := o'\<rparr>) = recurring_at p" "recurring_at (push_obj i p) = recurring_at p"
  by (auto simp: recurring_at_def push_obj_def fun_eq_iff)

lemma recurring_not_live: "recurring_at p i \<Longrightarrow> \<not> live_one_off p i k"
  by (auto simp: recurring_at_def live_one_off_def split: option.splits)

lemma entries_cancel: "entries_ok p \<Longrightarrow> entries_ok (cancel_one_off k p)"
  by (auto simp: entries_ok_def cancel_one_off_def recurring_upd split: option.splits)

lemma add_one_off_eq:
  "snd (add_one_off rg so p) =
     (case get_by_name rg (so_func_name so) of
        None \<Rightarrow> p
      | Some fc \<Rightarrow>
          let p1 = cancel_one_off (so_run_key so) p; n = ps_next_obj p
          in p1\<lparr>ps_objs := dset n (one_off_entry (fst fc) (snd fc) so) (ps_objs p1),
                ps_next_obj := Suc n, ps_one_offs := dset (so_run_key so) n (ps_one_offs p1),
                ps_heap := ps_heap p1 @ [n], ps_wake := True\<rparr>)"
  by (auto simp: add_one_off_def alloc_def push_obj_def heappush_def Let_def split: option.splits)

lemma cancel_entries [simp]: "ps_entries (cancel_one_off k p) = ps_entries p"
  by (simp add: cancel_one_off_def split: option.splits)

lemma entries_add_one_off:
  assumes "entries_ok p"
  shows "entries_ok (snd (add_one_off rg so p))"
proof (cases "get_by_name rg (so_func_name so)")
  case (Some fc)
  have "entries_ok (cancel_one_off (so_run_key so) p)" using assms by (rule entries_cancel)
  then show ?thesis
    using Some unfolding add_one_off_eq entries_ok_def
    by (auto simp: recurring_at_def Let_def)
qed (simp add: add_one_off_eq assms)

lemma heap_add_one_off:
  assumes "armed_ok p" and "distinct (ps_heap p)"
  shows "distinct (ps_heap (snd (add_one_off rg so p)))"
  using assms by (auto simp: add_one_off_eq armed_ok_def Let_def split: option.splits)

lemma inv_add_one_off: "ps_inv p \<Longrightarrow> ps_inv (snd (add_one_off rg so p))"
  by (simp add: ps_inv_def armed_add entries_add_one_off heap_add_one_off)

lemma inv_refill: "ps_inv p \<Longrightarrow> ps_inv (refill rg bk now p)"
proof (cases bk)
  case (Some db)
  have "ps_inv p \<Longrightarrow> ps_inv (fold (refill_one rg) xs p)" for xs
    by (induction xs arbitrary: p) (simp_all add: refill_one_def inv_add_one_off)
  then show "ps_inv p \<Longrightarrow> ps_inv (refill rg bk now p)" using Some by (simp add: refill_def)
qed (simp add: refill_def)

lemma inv_append:
  assumes "ps_inv p" and "se_once e = None"
  shows "ps_inv (append_entry e p)" "ps_inv (add_entry e p)"
proof -
  let ?n = "ps_next_obj p" and ?o = "dset (ps_next_obj p) e (ps_objs p)"
  have nn: "?n \<notin> set (ps_heap p)" "?n \<notin> set (ps_entries p)"
    using assms(1) by (auto simp: ps_inv_def armed_ok_def entries_ok_def)
  have k: "\<forall>i \<in> set (dkeys ?o). i < Suc ?n"
    using assms(1) by (auto simp: dkeys_set_dset ps_inv_def armed_ok_def less_Suc_eq)
  have l: "live_one_off (p\<lparr>ps_objs := ?o, ps_next_obj := Suc ?n, ps_entries := es, ps_heap := h, ps_wake := w\<rparr>) i key
             \<longleftrightarrow> i \<noteq> ?n \<and> live_one_off p i key" for es h w i key
    using assms(2) by (auto simp: live_one_off_def)
  have ok: "armed_ok (p\<lparr>ps_objs := ?o, ps_next_obj := Suc ?n, ps_entries := es, ps_heap := h, ps_wake := w\<rparr>)"
    if "set h \<subseteq> insert ?n (set (ps_heap p))" for es h w
  proof -
    have o': "armed_ok p" using assms(1) by (simp add: ps_inv_def)
    have "i < Suc ?n \<and> (\<forall>key. i \<noteq> ?n \<and> live_one_off p i key \<longrightarrow> dget (ps_one_offs p) key = Some i)"
      if "i \<in> set h" for i
      using that \<open>set h \<subseteq> insert ?n (set (ps_heap p))\<close> o' unfolding armed_ok_def
      by (cases "i = ?n") (auto intro: less_SucI)
    moreover have "\<forall>i \<in> set (dvals (ps_one_offs p)). i < Suc ?n"
      using o' unfolding armed_ok_def by (blast intro: less_SucI)
    ultimately show ?thesis unfolding armed_ok_def l using k by (simp del: set_map)
  qed
  have r: "entries_ok (p\<lparr>ps_objs := ?o, ps_next_obj := Suc ?n, ps_entries := ps_entries p @ [?n],
                         ps_heap := h, ps_wake := w\<rparr>)" for h w
    using assms nn(2) by (auto simp: ps_inv_def entries_ok_def recurring_at_def)
  have a: "append_entry e p = p\<lparr>ps_objs := ?o, ps_next_obj := Suc ?n, ps_entries := ps_entries p @ [?n],
              ps_heap := ps_heap p, ps_wake := ps_wake p\<rparr>"
    "add_entry e p = p\<lparr>ps_objs := ?o, ps_next_obj := Suc ?n, ps_entries := ps_entries p @ [?n],
              ps_heap := ps_heap p @ [?n], ps_wake := True\<rparr>"
    by (simp_all add: append_entry_def add_entry_def alloc_def push_obj_def heappush_def)
  have d: "distinct (ps_heap p)" using assms(1) by (simp add: ps_inv_def)
  have h: "set (ps_heap p) \<subseteq> insert ?n (set (ps_heap p))"
    "set (ps_heap p @ [?n]) \<subseteq> insert ?n (set (ps_heap p))" by auto
  show "ps_inv (append_entry e p)"
    unfolding a ps_inv_def by (intro conjI ok [OF h(1)] r) (simp add: d)
  show "ps_inv (add_entry e p)"
    unfolding a ps_inv_def by (intro conjI ok [OF h(2)] r) (simp add: d nn(1))
qed

lemma start_entries_frame:
  "start_entries cron now is p = Inr p' \<Longrightarrow>
   ps_heap p' = ps_heap p \<and> ps_entries p' = ps_entries p \<and> ps_one_offs p' = ps_one_offs p
   \<and> ps_next_obj p' = ps_next_obj p \<and> dkeys (ps_objs p') = dkeys (ps_objs p)
   \<and> (\<forall>i. recurring_at p' i = recurring_at p i)
   \<and> (\<forall>i. i \<notin> set is \<longrightarrow> dget (ps_objs p') i = dget (ps_objs p) i)"
proof (induction "is" arbitrary: p)
  case (Cons i "is")
  then obtain p1 where p1: "start_entry cron now i p = Inr p1" "start_entries cron now is p1 = Inr p'"
    by (auto split: sum.splits)
  have "ps_heap p1 = ps_heap p \<and> ps_entries p1 = ps_entries p \<and> ps_one_offs p1 = ps_one_offs p
   \<and> ps_next_obj p1 = ps_next_obj p \<and> dkeys (ps_objs p1) = dkeys (ps_objs p)
   \<and> (\<forall>j. recurring_at p1 j = recurring_at p j)
   \<and> (\<forall>j. j \<noteq> i \<longrightarrow> dget (ps_objs p1) j = dget (ps_objs p) j)"
    using p1(1) unfolding start_entry_def
    by (auto simp: keys_obj_upd recurring_upd obj_upd_get split: option.splits sum.splits if_splits)
  then show ?case using Cons.IH [OF p1(2)] by auto
qed simp

lemma inv_start:
  assumes "ps_inv p" and "ps_start cron now p = Inr p'"
  shows "ps_inv p'"
proof -
  obtain p1 where s: "start_entries cron now (ps_entries p) p = Inr p1"
    and p': "p' = p1\<lparr>ps_heap := ps_entries p1, ps_running := True, ps_dead := False\<rparr>"
    using assms(2) by (auto simp: ps_start_def split: sum.splits)
  note f = start_entries_frame [OF s]
  have r: "recurring_at p' i = recurring_at p i" for i using f by (simp add: p' recurring_at_def)
  have e: "entries_ok p'"
    using assms(1) f r by (simp add: p' ps_inv_def entries_ok_def)
  have "armed_ok p'"
    unfolding armed_ok_def
    using e f assms(1) recurring_not_live [of p'] by (auto simp: p' entries_ok_def ps_inv_def armed_ok_def)
  then show ?thesis using e f by (simp add: ps_inv_def p' entries_ok_def)
qed

lemma fire_top_entries:
  assumes "entries_ok p" and "fire_top cron now p m = (Inr p', m')"
  shows "entries_ok p'"
proof -
  have sub: "entries_ok (p\<lparr>ps_heap := h\<rparr>)" for h using assms(1) by (simp add: entries_ok_def)
  have one: "entries_ok (p\<lparr>ps_heap := h, ps_one_offs := o'\<rparr>)" for h o'
    using sub [of h] by (simp add: entries_ok_def recurring_at_def)
  have upd: "entries_ok (push_obj i (obj_upd i (\<lambda>e. e\<lparr>se_next_run := t\<rparr>) (p\<lparr>ps_heap := h\<rparr>)))" for i t h
    using sub [of h] by (simp add: entries_ok_def recurring_upd) (simp add: push_obj_def)
  show ?thesis
    using assms sub one upd unfolding fire_top_def
    by (auto simp: Let_def elim!: fire_result split: option.splits prod.splits if_splits sum.splits)
qed

lemma ps_reach_inv: "ps_reach cron rg p \<Longrightarrow> ps_inv p"
proof (induction rule: ps_reach.induct)
  case (new b now)
  show ?case by (simp add: new_periodic_def ps_inv_def armed_ok_def entries_ok_def)
next
  case (cancel p k)
  then show ?case by (simp add: ps_inv_def armed_cancel entries_cancel)
next
  case (fired p now m p' m')
  then show ?case using armed_fire_top fire_top_entries unfolding ps_inv_def by metis
qed (simp_all add: inv_append inv_add_one_off inv_refill inv_start)

section \<open>Concrete schedules\<close>

definition ex_every :: "int \<Rightarrow> sched_entry" where
  "ex_every us = \<lparr>se_func = ex_func, se_config = ex_config, se_every = Some us, se_cron = None,
     se_run_on_startup = True, se_timezone = ''UTC'', se_next_run = utc_dt 0, se_once = None,
     se_cancelled = False\<rparr>"

definition ex_once :: "string \<Rightarrow> scheduled_once" where
  "ex_once k = \<lparr>so_run_key = k, so_func_name = ''send'', so_fire_at = utc_dt 60000000, so_args = [],
     so_kwargs = [], so_encrypted_payload = None, so_queue = [], so_priority = None,
     so_idempotency_key = None, so_tags = [], so_created_at = utc_dt 0\<rparr>"

definition no_cron :: cron_fun where
  "no_cron c z t = t"

definition ex_ps :: "int \<Rightarrow> periodic" where
  "ex_ps us = add_entry (ex_every us) (new_periodic True (utc_dt 0))"

section \<open>Properties\<close>

text \<open>C32: A turn of the scheduling loop ends when every recurring schedule moves past the time of the turn:
  firing as many entries as the heap holds is enough.\<close>

theorem periodic_turn_ends:
  assumes "progressive cron now p"
  shows "fire_due (length (ps_heap p)) cron now p m \<noteq> None"
  using assms by (rule fire_due_enough) (simp add: count_due_def)

lemma periodic_turn_ends_witness:
  "fire_due 1 no_cron (utc_dt 5) (ex_ps 1000000) ex_tm \<noteq> None"
proof -
  have "progressive no_cron (utc_dt 5) (ex_ps 1000000)"
    by (simp add: progressive_def ex_ps_def add_entry_def alloc_def push_obj_def new_periodic_def
        ex_every_def compute_next_def next_every_def add_us_def utc_dt_def instant_def)
  moreover have "length (ps_heap (ex_ps 1000000)) = 1" by code_simp
  ultimately show ?thesis using periodic_turn_ends by metis
qed

text \<open>C33: After a one-off is scheduled under a key, the heap of any reachable scheduler has exactly one live
  entry for that key, the new one; after the key is cancelled it has none. So a replaced or
  cancelled deadline never fires.\<close>

theorem one_off_replaced:
  assumes "ps_reach cron rg p" and "get_by_name rg (so_func_name so) \<noteq> None"
  shows "filter (\<lambda>i. live_one_off (snd (add_one_off rg so p)) i (so_run_key so))
           (ps_heap (snd (add_one_off rg so p))) = [ps_next_obj p]
     \<and> filter (\<lambda>i. live_one_off (cancel_one_off k p) i k) (ps_heap (cancel_one_off k p)) = []"
proof -
  have inv: "armed_ok p" using ps_reach_inv [OF assms(1)] by (simp add: ps_inv_def)
  have dead: "\<not> live_one_off (cancel_one_off k p) i k" if "i \<in> set (ps_heap p)" for i k
    using inv that by (auto simp: live_cancel armed_ok_def)
  obtain f c where fc: "get_by_name rg (so_func_name so) = Some (f, c)" using assms(2) by auto
  let ?q = "snd (add_one_off rg so p)"
  have q: "ps_heap ?q = ps_heap p @ [ps_next_obj p]"
    "ps_objs ?q = dset (ps_next_obj p) (one_off_entry f c so) (ps_objs (cancel_one_off (so_run_key so) p))"
    using fc by (simp_all add: add_one_off_eq Let_def)
  have "ps_next_obj p \<notin> set (ps_heap p)" using inv by (auto simp: armed_ok_def)
  then have "live_one_off ?q i (so_run_key so) = live_one_off (cancel_one_off (so_run_key so) p) i (so_run_key so)"
    if "i \<in> set (ps_heap p)" for i using that by (auto simp: live_one_off_def q)
  then have "filter (\<lambda>i. live_one_off ?q i (so_run_key so)) (ps_heap p) = []"
    using dead by (auto simp: filter_empty_conv)
  moreover have "live_one_off ?q (ps_next_obj p) (so_run_key so)"
    by (simp add: live_one_off_def q one_off_entry_def)
  ultimately show ?thesis using dead by (simp add: q(1) filter_empty_conv)
qed

lemma one_off_replaced_witness:
  "let rg = tm_registry ex_tm; p = snd (add_one_off rg (ex_once ''k'') (ex_ps 1000000))
   in filter (\<lambda>i. live_one_off (snd (add_one_off rg (ex_once ''k'') p)) i ''k'')
        (ps_heap (snd (add_one_off rg (ex_once ''k'') p))) = [2]
      \<and> filter (\<lambda>i. live_one_off (cancel_one_off ''k'' p) i ''k'') (ps_heap (cancel_one_off ''k'' p)) = []"
proof -
  let ?rg = "tm_registry ex_tm"
  let ?p = "snd (add_one_off ?rg (ex_once ''k'') (ex_ps 1000000))"
  have "ps_reach no_cron ?rg ?p"
    unfolding ex_ps_def by (intro ps_reach.intros) (simp add: ex_every_def)
  moreover have "get_by_name ?rg (so_func_name (ex_once ''k'')) \<noteq> None"
    by (simp add: ex_tm_def ex_once_def get_by_name_def register_def registry_init_def or_str_def
        ex_func_def ex_config_def default_config_def)
  moreover have "ps_next_obj ?p = 2" by code_simp
  moreover have "so_run_key (ex_once ''k'') = ''k''" by (simp add: ex_once_def)
  ultimately show ?thesis
    using one_off_replaced [of no_cron ?rg ?p "ex_once ''k''" "''k''"] by (simp add: Let_def)
qed

text \<open>However many instances try to claim a pending one-off, in whatever order the shared database
  serialises them, exactly one wins.\<close>

lemma one_off_claimed_once:
  assumes "sqlite_wf db" and "k \<in> set (dkeys (sq_scheduled db))" and "k \<in> set ks"
  shows "wins k ks (fst (run_claims sq_claim_scheduled ks db)) = 1"
  using assms by (intro scheduled_claims.wins_exactly_once) (simp_all add: list_all_iff)

lemma one_off_claimed_once_witness:
  "wins ''k'' [''j'', ''k'', ''k''] (fst (run_claims sq_claim_scheduled [''j'', ''k'', ''k'']
     (sq_save_scheduled (ex_once ''k'') sqlite_init))) = 1"
proof -
  have "sqlite_wf (sq_save_scheduled (ex_once ''k'') sqlite_init)"
    by (intro sqlite_wf_rest sqlite_wf_init)
  moreover have "''k'' \<in> set (dkeys (sq_scheduled (sq_save_scheduled (ex_once ''k'') sqlite_init)))"
    by (simp add: sq_save_scheduled_def replace_row_def ex_once_def)
  ultimately show ?thesis by (rule one_off_claimed_once) simp
qed

text \<open>The lock of a periodic schedule is exclusive: after one instance acquired it, no attempt in the
  next \<open>ttl\<close> seconds succeeds, whatever locks are tried in between.\<close>

lemma schedule_lock_exclusive:
  assumes "sqlite_wf db" and "fst (sq_acquire_schedule_lock k ttl now db)"
    and "\<forall>(j, ttl', now') \<in> set xs. now' < now + ttl * 1000000"
    and "later < now + ttl * 1000000"
  shows "\<not> fst (sq_acquire_schedule_lock k ttl2 later
       (fold (\<lambda>(j, l, n) t. snd (sq_acquire_schedule_lock j l n t)) xs
          (snd (sq_acquire_schedule_lock k ttl now db))))"
  by (rule schedule_lock.exclusive) (use assms in auto)

lemma schedule_lock_exclusive_witness:
  "\<not> fst (sq_acquire_schedule_lock ''l'' 5 4999999
       (fold (\<lambda>(j, l, n) t. snd (sq_acquire_schedule_lock j l n t)) [(''l'', 5, 1000000)]
          (snd (sq_acquire_schedule_lock ''l'' 5 0 sqlite_init))))"
proof -
  have "fst (sq_acquire_schedule_lock ''l'' 5 0 sqlite_init)"
    by (simp add: sq_acquire_schedule_lock_def insert_or_ignore_def sqlite_init_def)
  from schedule_lock_exclusive [OF sqlite_wf_init this, of "[(''l'', 5, 1000000)]" 4999999 5]
  show ?thesis by simp
qed

text \<open>The lock also shuts out its owner: it lives for a full interval from the moment it was acquired,
  and the next run is due one interval after the start of the turn, so an owner that reaches the
  lock earlier in its turn than last time skips its own firing.\<close>

lemma own_lock_skips_firing:
  assumes "tm_backend m = Some db" and "sqlite_wf db"
    and "acquire_lock e m = (True, m1)" and "tm_backend m2 = tm_backend m1"
    and "dt_wall (tm_now m2) < dt_wall (tm_now m) + lock_ttl e * 1000000"
    and "compute_next cron e now = Inr t"
  shows "case fire cron i e now p m2 of
           (Inl x, m3) \<Rightarrow> False
         | (Inr p', m3) \<Rightarrow> tm_store m3 = tm_store m2 \<and> tm_spawned m3 = tm_spawned m2
                           \<and> tm_queues m3 = tm_queues m2"
proof -
  let ?k = "lock_key e" and ?l = "lock_ttl e"
  have ok: "fst (sq_acquire_schedule_lock ?k ?l (dt_wall (tm_now m)) db)"
    and m1: "tm_backend m1 = Some (snd (sq_acquire_schedule_lock ?k ?l (dt_wall (tm_now m)) db))"
    using assms(1,3) by (auto simp: acquire_lock_def Let_def split: prod.splits)
  have "\<not> fst (sq_acquire_schedule_lock ?k ?l (dt_wall (tm_now m2))
                 (snd (sq_acquire_schedule_lock ?k ?l (dt_wall (tm_now m)) db)))"
    using schedule_lock.exclusive [OF assms(2) TrueI ok, of "[]" "dt_wall (tm_now m2)" ?l] assms(5) by simp
  then show ?thesis
    using assms(4,6) m1 by (auto simp: fire_def acquire_lock_def Let_def split: prod.splits)
qed

lemma own_lock_skips_firing_witness:
  "let e = ex_every 5000000; m1 = snd (acquire_lock e (ex_tm\<lparr>tm_clock := (\<lambda>n. if n = 0 then 10 else 5000009)\<rparr>))
   in case fire no_cron 0 e (utc_dt 5000001) (ex_ps 5000000) m1 of
        (Inl x, m3) \<Rightarrow> False
      | (Inr p', m3) \<Rightarrow> tm_store m3 = tm_store m1 \<and> tm_spawned m3 = tm_spawned m1
                        \<and> tm_queues m3 = tm_queues m1"
proof -
  let ?e = "ex_every 5000000" and ?m = "ex_tm\<lparr>tm_clock := (\<lambda>n. if n = 0 then 10 else 5000009)\<rparr>"
  have a: "acquire_lock ?e ?m = (True, snd (acquire_lock ?e ?m))"
    by (simp add: acquire_lock_def ex_tm_def Let_def case_prod_beta sq_acquire_schedule_lock_def
        insert_or_ignore_def sqlite_init_def)
  have b: "tm_backend ?m = Some sqlite_init" by (simp add: ex_tm_def)
  have n: "dt_wall (tm_now (snd (acquire_lock ?e ?m))) = 5000009" "dt_wall (tm_now ?m) = 10"
    "lock_ttl ?e = 5"
    by (simp_all add: acquire_lock_def ex_tm_def Let_def case_prod_beta tm_now_def tm_tick_def
        utc_dt_def lock_ttl_def ex_every_def)
  have c: "compute_next no_cron ?e (utc_dt 5000001) = Inr (utc_dt 10000001)"
    by (simp add: compute_next_def ex_every_def next_every_def add_us_def utc_dt_def)
  show ?thesis
    using own_lock_skips_firing [OF b sqlite_wf_init a refl _ c, of 0 "ex_ps 5000000"] n
    by (simp add: Let_def)
qed

text \<open>An interval that is not positive never lets the turn end: the entry stays due and is fired for
  ever, so the event loop is stuck.\<close>

lemma zero_interval_never_ends:
  assumes "tm_backend m = None" and "tm_queues m = []" and "ps_heap p = [i]"
    and "dget (ps_objs p) i = Some e" and "\<not> se_cancelled e" and "se_once e = None"
    and "se_every e = Some d" and "d \<le> 0" and "instant (se_next_run e) \<le> instant now"
  shows "fire_due n cron now p m = None"
  using assms
proof (induction n arbitrary: p m e)
  case 0
  then show ?case by (simp add: due_def heap_top_def ps_key_def)
next
  case (Suc n)
  let ?t = "next_every d now"
  let ?p1 = "obj_upd i (\<lambda>e. e\<lparr>se_next_run := ?t\<rparr>) (p\<lparr>ps_heap := []\<rparr>)"
  let ?p2 = "push_obj i ?p1"
  have d: "due now p" using Suc.prems by (simp add: due_def heap_top_def ps_key_def)
  obtain m' where ft: "fire_task e m = (Inr (), m')" "tm_backend m' = None" "tm_queues m' = []"
    using Suc.prems(1,2)
    by (simp add: fire_task_def dispatch_fired_def fresh_uuid_def Let_def tm_create_def)
  have f: "fire_top cron now p m = (Inr ?p2, m')"
    using Suc.prems ft(1)
    by (simp add: fire_top_def heappop_def fire_def compute_next_def acquire_lock_def Let_def)
  have "fire_due n cron now ?p2 m' = None"
  proof (rule Suc.IH [OF ft(2,3)])
    show "ps_heap ?p2 = [i]" by (simp add: push_obj_def heappush_def)
    show "dget (ps_objs ?p2) i = Some (e\<lparr>se_next_run := ?t\<rparr>)"
      using Suc.prems(4) by (simp add: push_obj_def obj_upd_get)
    show "instant (se_next_run (e\<lparr>se_next_run := ?t\<rparr>)) \<le> instant now"
      using Suc.prems(8) by (simp add: next_every_def add_us_def instant_def)
  qed (use Suc.prems in simp_all)
  then show ?case using d f by simp
qed

lemma zero_interval_never_ends_witness:
  "fire_due 1000 no_cron (utc_dt 0) (ex_ps 0) (ex_tm\<lparr>tm_backend := None\<rparr>) = None"
  by (rule zero_interval_never_ends [where i = 0 and e = "ex_every 0" and d = 0])
     (simp_all add: ex_tm_def ex_ps_def add_entry_def alloc_def push_obj_def new_periodic_def
        heappush_def ex_every_def)

end
