(* ===== verification/Wrapper.thy ===== *)
theory Wrapper
  imports Manager_State
begin

text \<open>
  \<^verbatim>\<open>src/fastapi_taskflow/wrapper.py\<close>: \<open>ManagedBackgroundTasks.add_task\<close>, the way a request
  handler enqueues a task. The optional per-call settings are one record.
\<close>

record call_opts =
  co_idempotency_key :: "string option"
  co_tags :: "(string, string) dict option"
  co_eager :: "bool option"
  co_priority :: "int option"
  co_queue :: "string option"

definition no_opts :: call_opts where
  "no_opts = \<lparr>co_idempotency_key = None, co_tags = None, co_eager = None, co_priority = None,
              co_queue = None\<rparr>"

definition config_of :: "registry \<Rightarrow> pyfunc \<Rightarrow> task_config" where
  "config_of rg f = (case get_config rg f of None \<Rightarrow> default_config | Some c \<Rightarrow> c)"

definition opt_first :: "'a option \<Rightarrow> 'a option \<Rightarrow> 'a option" where
  "opt_first a b = (case a of None \<Rightarrow> b | Some x \<Rightarrow> Some x)"

definition known_task :: "call_opts \<Rightarrow> tm \<Rightarrow> task_record option" where
  "known_task o' m =
     (case co_idempotency_key o' of
        None \<Rightarrow> None | Some k \<Rightarrow> find_by_idempotency_key k (tm_store m))"

text \<open>Per-call settings override the decorator's.\<close>

definition chosen_queue :: "call_opts \<Rightarrow> task_config \<Rightarrow> string" where
  "chosen_queue o' c = or_str (co_queue o') (or_str (tc_queue c) ''default'')"

definition chosen_eager :: "call_opts \<Rightarrow> task_config \<Rightarrow> bool" where
  "chosen_eager o' c = (case co_eager o' of None \<Rightarrow> tc_eager c | Some e \<Rightarrow> e)"

definition chosen_priority :: "call_opts \<Rightarrow> task_config \<Rightarrow> int option" where
  "chosen_priority o' c = opt_first (co_priority o') (tc_priority c)"

text \<open>The dispatch at the end of \<open>add_task\<close>.\<close>

definition route ::
  "bool \<Rightarrow> string \<Rightarrow> int option \<Rightarrow> string \<Rightarrow> job \<Rightarrow> tm \<Rightarrow> (py_exc + unit) \<times> tm" where
  "route eager q prio tid j m =
     (if eager then (Inr (), spawn j m)
      else if tm_queues m \<noteq> [] then
        (case tm_enqueue q tid prio j m of
           (Inr u, m') \<Rightarrow> (Inr (), m')
         | (Inl e, m') \<Rightarrow>
             (case e of
                QueueFullError _ \<Rightarrow> (Inl e, tm_upd tid (\<lambda>r. r\<lparr>status := REJECTED\<rparr>) m')
              | _ \<Rightarrow> (Inl e, m')))
      else case prio of
             Some p \<Rightarrow> (Inr (), enqueue_priority tid p j m)
           | None \<Rightarrow> (Inr (), m\<lparr>tm_starlette := tm_starlette m @ [j]\<rparr>))"

text \<open>Encrypting the arguments, creating the record and the closure over them.\<close>

definition store_task ::
  "pyfunc \<Rightarrow> pyargs \<Rightarrow> pykwargs \<Rightarrow> call_opts \<Rightarrow> string \<Rightarrow> tm \<Rightarrow> job \<times> tm" where
  "store_task f as kw o' tid m =
     (let c = config_of (tm_registry m) f;
          k = resolve_executor f c;
          (enc, sas, skw, m1) = seal_args as kw m;
          m2 = tm_create tid (fn_name f) sas skw (co_idempotency_key o') (co_tags o') enc ''manual''
                 (chosen_priority o' c) (Some k) (chosen_queue o' c) m1
      in (make_job f tid c sas skw k m2, m2))"

definition add_task ::
  "pyfunc \<Rightarrow> pyargs \<Rightarrow> pykwargs \<Rightarrow> call_opts \<Rightarrow> tm \<Rightarrow> (py_exc + string) \<times> tm" where
  "add_task f as kw o' m0 =
     (case known_task o' m0 of
        Some r \<Rightarrow> (Inr (task_id r), m0)
      | None \<Rightarrow>
          (let (tid, m) = fresh_uuid m0; c = config_of (tm_registry m) f
           in case validate_args (tm_pickler m) (resolve_executor f c) as kw of
                Inl e \<Rightarrow> (Inl e, m)
              | Inr _ \<Rightarrow>
                  (let (j, m2) = store_task f as kw o' tid m
                   in case route (chosen_eager o' c) (chosen_queue o' c) (chosen_priority o' c)
                             tid j m2 of
                        (Inl e, m3) \<Rightarrow> (Inl e, m3)
                      | (Inr _, m3) \<Rightarrow> (Inr tid, m3))))"

section \<open>Facts\<close>

lemma seal_args_frame:
  "seal_args as kw m = (enc, sas, skw, m') \<Longrightarrow>
   tm_store m' = tm_store m \<and> tm_queues m' = tm_queues m \<and> tm_spawned m' = tm_spawned m
   \<and> tm_starlette m' = tm_starlette m \<and> tm_clock m' = tm_clock m \<and> tm_ticks m' = tm_ticks m
   \<and> tm_registry m' = tm_registry m \<and> tm_fernet m' = tm_fernet m \<and> tm_backend m' = tm_backend m
   \<and> tm_priority_queue m' = tm_priority_queue m"
  by (auto simp: seal_args_def split: option.splits)

lemma route_store:
  "tm_store (snd (route eager q prio tid j m)) =
     (case fst (route eager q prio tid j m) of
        Inl (QueueFullError _) \<Rightarrow> upd tid (\<lambda>r. r\<lparr>status := REJECTED\<rparr>) (tm_store m)
      | _ \<Rightarrow> tm_store m)"
proof -
  have e: "tm_store (snd (tm_enqueue q tid prio j m)) = tm_store m" by simp
  obtain r m' where t: "tm_enqueue q tid prio j m = (r, m')" by (cases "tm_enqueue q tid prio j m")
  then have "tm_store m' = tm_store m" using e by simp
  then show ?thesis
    by (auto simp: route_def t tm_upd_def split: sum.splits py_exc.splits option.splits)
qed

lemma create_frame [simp]:
  "tm_queues (tm_create tid fn as kw ik tg enc src pr ex q m) = tm_queues m"
  "tm_spawned (tm_create tid fn as kw ik tg enc src pr ex q m) = tm_spawned m"
  "tm_starlette (tm_create tid fn as kw ik tg enc src pr ex q m) = tm_starlette m"
  "tm_backend (tm_create tid fn as kw ik tg enc src pr ex q m) = tm_backend m"
  "tm_registry (tm_create tid fn as kw ik tg enc src pr ex q m) = tm_registry m"
  "tm_fernet (tm_create tid fn as kw ik tg enc src pr ex q m) = tm_fernet m"
  "tm_priority_queue (tm_create tid fn as kw ik tg enc src pr ex q m) = tm_priority_queue m"
  by (simp_all add: tm_create_def)

end
