(* ===== verification/Wrapper_Props.thy ===== *)
theory Wrapper_Props
  imports Wrapper Snapshot_Props
begin

text \<open>
  Properties of \<open>add_task\<close>: an accepted task waits in exactly one place, a rejected one in none,
  idempotency keys deduplicate, encrypted arguments come back for the run.
\<close>

section \<open>Where tasks wait\<close>

definition heap_ids :: "job task_queue \<Rightarrow> string multiset" where
  "heap_ids q = image_mset qe_task (mset (tq_heap q))"

definition queued_ids :: "tm \<Rightarrow> string multiset" where
  "queued_ids m = \<Sum>\<^sub># (image_mset heap_ids (mset (dvals (tm_queues m))))"

definition waiting :: "tm \<Rightarrow> string multiset" where
  "waiting m = mset (map jb_task_id (tm_spawned m)) + mset (map jb_task_id (tm_starlette m))
     + image_mset qe_task (mset (tm_priority_queue m)) + queued_ids m"

lemma mset_heappush: "mset (heappush x h) = add_mset x (mset h)"
  using heapq.elems_push [of x h] by simp

lemma heap_ids_enqueue:
  "heap_ids (snd (enqueue t p j q))
     = (if queue_full q then heap_ids q else add_mset t (heap_ids q))"
  by (simp add: enqueue_def heap_ids_def mset_heappush)

lemma mset_dvals_dset:
  "dget d k = Some v \<Longrightarrow> dwf d \<Longrightarrow> mset (dvals (dset k w d)) = add_mset w (mset (dvals d) - {#v#})"
proof (induction d)
  case (Cons p d)
  show ?case
  proof (cases "fst p = k")
    case True
    then show ?thesis using Cons.prems by (cases p) auto
  next
    case False
    then have "dget d k = Some v" using Cons.prems(1) by (cases p) auto
    moreover from this have "v \<in># mset (dvals d)"
      by (auto dest!: map_of_SomeD intro: rev_image_eqI)
    ultimately show ?thesis using Cons False by (cases p) auto
  qed
qed simp

lemma queued_ids_enqueue:
  assumes "dwf (tm_queues m)"
  shows "queued_ids (snd (tm_enqueue n t p j m)) =
     (case fst (tm_enqueue n t p j m) of
        Inr _ \<Rightarrow> add_mset t (queued_ids m) | Inl _ \<Rightarrow> queued_ids m)"
proof (cases "get_queue n m")
  case (Inl e)
  then show ?thesis by (simp add: tm_enqueue_def)
next
  case (Inr k)
  show ?thesis
  proof (cases "dget (tm_queues m) k")
    case None
    then show ?thesis using Inr by (simp add: tm_enqueue_def)
  next
    case (Some q)
    have v: "q \<in># mset (dvals (tm_queues m))"
      using map_of_SomeD [OF Some] by (auto intro: rev_image_eqI)
    let ?q' = "snd (enqueue t p j q)"
    let ?m' = "snd (tm_enqueue n t p j m)"
    have m': "tm_queues ?m' = dset k ?q' (tm_queues m)"
      using Inr Some by (simp add: tm_enqueue_def case_prod_beta)
    have fst: "fst (tm_enqueue n t p j m) = fst (enqueue t p j q)"
      using Inr Some by (simp add: tm_enqueue_def case_prod_beta)
    have "queued_ids ?m'
            = heap_ids ?q' + \<Sum>\<^sub># (image_mset heap_ids (mset (dvals (tm_queues m)) - {#q#}))"
      unfolding queued_ids_def m' mset_dvals_dset [OF Some assms] by simp
    moreover have "queued_ids m
            = heap_ids q + \<Sum>\<^sub># (image_mset heap_ids (mset (dvals (tm_queues m)) - {#q#}))"
      unfolding queued_ids_def using v by (metis insert_DiffM image_mset_add_mset sum_mset.insert)
    ultimately show ?thesis
      unfolding fst heap_ids_enqueue by (simp add: enqueue_def)
  qed
qed

lemma tm_enqueue_frame:
  "tm_spawned (snd (tm_enqueue n t p j m)) = tm_spawned m"
  "tm_starlette (snd (tm_enqueue n t p j m)) = tm_starlette m"
  "tm_priority_queue (snd (tm_enqueue n t p j m)) = tm_priority_queue m"
  by (simp_all add: tm_enqueue_def case_prod_beta split: sum.splits option.splits)

lemma waiting_route:
  assumes "dwf (tm_queues m)" and "jb_task_id j = t"
  shows "waiting (snd (route eager q p t j m)) =
     (case fst (route eager q p t j m) of
        Inr _ \<Rightarrow> add_mset t (waiting m) | Inl _ \<Rightarrow> waiting m)"
proof -
  consider (eager) "eager" | (queue) "\<not> eager" "tm_queues m \<noteq> []"
    | (prio) pr where "\<not> eager" "tm_queues m = []" "p = Some pr"
    | (plain) "\<not> eager" "tm_queues m = []" "p = None"
    by (cases p) auto
  then show ?thesis
  proof cases
    case eager
    then show ?thesis using assms(2) by (simp add: route_def waiting_def spawn_def queued_ids_def)
  next
    case queue
    obtain r m' where e: "tm_enqueue q t p j m = (r, m')" by (cases "tm_enqueue q t p j m")
    have f: "tm_spawned m' = tm_spawned m" "tm_starlette m' = tm_starlette m"
      "tm_priority_queue m' = tm_priority_queue m"
      using tm_enqueue_frame [of q t p j m] e by simp_all
    have qi: "queued_ids m' = (case r of Inr _ \<Rightarrow> add_mset t (queued_ids m) | Inl _ \<Rightarrow> queued_ids m)"
      using queued_ids_enqueue [OF assms(1), of q t p j] e by simp
    have u: "queued_ids (tm_upd t g m') = queued_ids m'"
      "tm_priority_queue (tm_upd t g m') = tm_priority_queue m'"
      "tm_starlette (tm_upd t g m') = tm_starlette m'" for g
      by (simp_all add: queued_ids_def tm_upd_def)
    show ?thesis
      using queue e f qi u
      by (auto simp: route_def waiting_def split: sum.splits py_exc.splits)
  next
    case prio
    then show ?thesis
      by (simp add: route_def waiting_def enqueue_priority_def queued_ids_def mset_heappush)
  next
    case plain
    then show ?thesis using assms(2) by (simp add: route_def waiting_def queued_ids_def)
  qed
qed

lemma route_fernet: "tm_fernet (snd (route eager q p t j m)) = tm_fernet m"
  by (auto simp: route_def spawn_def enqueue_priority_def tm_upd_def tm_enqueue_def case_prod_beta
      split: sum.splits option.splits py_exc.splits)

section \<open>\<open>add_task\<close> unfolded\<close>

lemma uuid_frame [simp]:
  "tm_registry (snd (fresh_uuid m)) = tm_registry m" "tm_queues (snd (fresh_uuid m)) = tm_queues m"
  "tm_pickler (snd (fresh_uuid m)) = tm_pickler m" "tm_fernet (snd (fresh_uuid m)) = tm_fernet m"
  "waiting (snd (fresh_uuid m)) = waiting m" "tm_backend (snd (fresh_uuid m)) = tm_backend m"
  by (simp_all add: fresh_uuid_def waiting_def queued_ids_def)

lemma waiting_frame:
  "waiting (tm_create tid fn as kw ik tg enc src pr ex q m) = waiting m"
  by (simp add: waiting_def queued_ids_def)

lemma waiting_seal: "seal_args as kw m = (enc, sas, skw, m') \<Longrightarrow> waiting m' = waiting m"
  using seal_args_frame [of as kw m enc sas skw m'] by (simp add: waiting_def queued_ids_def)

text \<open>What the validation of the arguments says, and the outcome of routing the stored task.\<close>

definition args_check :: "pyfunc \<Rightarrow> pyargs \<Rightarrow> pykwargs \<Rightarrow> tm \<Rightarrow> py_exc + unit" where
  "args_check f as kw m =
     validate_args (tm_pickler m) (resolve_executor f (config_of (tm_registry m) f)) as kw"

definition new_id :: "tm \<Rightarrow> string" where
  "new_id m = tm_uuid m (tm_next_uuid m)"

definition stored :: "pyfunc \<Rightarrow> pyargs \<Rightarrow> pykwargs \<Rightarrow> call_opts \<Rightarrow> tm \<Rightarrow> tm" where
  "stored f as kw o' m = snd (store_task f as kw o' (new_id m) (snd (fresh_uuid m)))"

definition routed :: "pyfunc \<Rightarrow> pyargs \<Rightarrow> pykwargs \<Rightarrow> call_opts \<Rightarrow> tm \<Rightarrow> (py_exc + unit) \<times> tm" where
  "routed f as kw o' m =
     (let c = config_of (tm_registry m) f
      in route (chosen_eager o' c) (chosen_queue o' c) (chosen_priority o' c) (new_id m)
           (fst (store_task f as kw o' (new_id m) (snd (fresh_uuid m)))) (stored f as kw o' m))"

lemma add_task_refused_args:
  assumes "known_task o' m = None" and "args_check f as kw m = Inl e"
  shows "add_task f as kw o' m = (Inl e, snd (fresh_uuid m))"
  using assms by (simp add: add_task_def args_check_def case_prod_beta Let_def)

lemma add_task_routed:
  assumes "known_task o' m = None" and "args_check f as kw m = Inr ()"
  shows "add_task f as kw o' m =
     (case fst (routed f as kw o' m) of
        Inl e \<Rightarrow> (Inl e, snd (routed f as kw o' m))
      | Inr _ \<Rightarrow> (Inr (new_id m), snd (routed f as kw o' m)))"
proof -
  obtain t n where u: "fresh_uuid m = (t, n)" by (cases "fresh_uuid m")
  have n: "tm_registry n = tm_registry m" "tm_pickler n = tm_pickler m"
    using uuid_frame(1,3) [of m] u by simp_all
  have t: "new_id m = t" using u by (simp add: fresh_uuid_def new_id_def)
  show ?thesis
    using assms
    by (simp add: add_task_def routed_def stored_def args_check_def u n t Let_def case_prod_beta
        split: sum.splits)
qed

lemma stored_store:
  "tm_store (stored f as kw o' m) = snd (store_create
     (let c = config_of (tm_registry m) f; (enc, sas, skw, m1) = seal_args as kw (snd (fresh_uuid m))
      in new_record (new_id m) (fn_name f) sas skw (co_idempotency_key o') (co_tags o') enc
           ''manual'' (chosen_priority o' c) (Some (resolve_executor f c)) (chosen_queue o' c)
           (tm_now m1)) (tm_store m))"
proof -
  obtain enc sas skw m1 where s: "seal_args as kw (snd (fresh_uuid m)) = (enc, sas, skw, m1)"
    by (cases "seal_args as kw (snd (fresh_uuid m))")
  show ?thesis
    using seal_args_frame [OF s] by (simp add: stored_def store_task_def s Let_def tm_create_def)
qed

lemma stored_frame:
  "tm_queues (stored f as kw o' m) = tm_queues m" "waiting (stored f as kw o' m) = waiting m"
  "tm_fernet (stored f as kw o' m) = tm_fernet m"
  "jb_task_id (fst (store_task f as kw o' t n)) = t"
proof -
  obtain enc sas skw m1 where s: "seal_args as kw (snd (fresh_uuid m)) = (enc, sas, skw, m1)"
    by (cases "seal_args as kw (snd (fresh_uuid m))")
  show "tm_queues (stored f as kw o' m) = tm_queues m" "waiting (stored f as kw o' m) = waiting m"
    "tm_fernet (stored f as kw o' m) = tm_fernet m"
    using seal_args_frame [OF s] waiting_seal [OF s]
    by (simp_all add: stored_def store_task_def s Let_def waiting_frame)
  show "jb_task_id (fst (store_task f as kw o' t n)) = t"
    by (simp add: store_task_def case_prod_beta Let_def make_job_def)
qed

lemma routed_store:
  "tm_store (snd (routed f as kw o' m)) =
     (case fst (routed f as kw o' m) of
        Inl (QueueFullError _) \<Rightarrow>
          upd (new_id m) (\<lambda>r. r\<lparr>status := REJECTED\<rparr>) (tm_store (stored f as kw o' m))
      | _ \<Rightarrow> tm_store (stored f as kw o' m))"
  unfolding routed_def Let_def by (rule route_store)

lemma stored_get:
  "map_option status (store_get (tm_store (stored f as kw o' m)) (new_id m)) = Some PENDING"
  unfolding stored_store by (simp add: case_prod_beta Let_def) (simp add: new_record_def)

lemma add_task_accepted:
  assumes "add_task f as kw o' m = (Inr tid, m')" and "known_task o' m = None"
  shows "args_check f as kw m = Inr ()" "tid = new_id m" "m' = snd (routed f as kw o' m)"
    "fst (routed f as kw o' m) = Inr ()" "tm_store m' = tm_store (stored f as kw o' m)"
proof -
  show c: "args_check f as kw m = Inr ()"
    using assms add_task_refused_args [OF assms(2)] by (cases "args_check f as kw m") auto
  show "tid = new_id m" "m' = snd (routed f as kw o' m)" and r: "fst (routed f as kw o' m) = Inr ()"
    using assms(1) add_task_routed [OF assms(2) c] by (auto split: sum.splits)
  then show "tm_store m' = tm_store (stored f as kw o' m)" using routed_store by simp
qed

section \<open>Properties\<close>

text \<open>C5: An accepted task waits in exactly one place (its own loop task, the request's background tasks,
  the priority queue or a named queue); a refused one, and a duplicate key, adds nothing.\<close>

theorem add_task_waits_once:
  assumes "dwf (tm_queues m)"
  shows "waiting (snd (add_task f as kw o' m)) =
     (case fst (add_task f as kw o' m) of
        Inl _ \<Rightarrow> waiting m
      | Inr tid \<Rightarrow> if known_task o' m = None then add_mset tid (waiting m) else waiting m)"
proof (cases "known_task o' m")
  case (Some r)
  then show ?thesis by (simp add: add_task_def)
next
  case None
  show ?thesis
  proof (cases "args_check f as kw m")
    case (Inl e)
    then show ?thesis using add_task_refused_args [OF None] by simp
  next
    case (Inr u)
    then have c: "args_check f as kw m = Inr ()" by simp
    have "waiting (snd (routed f as kw o' m)) =
       (case fst (routed f as kw o' m) of
          Inr _ \<Rightarrow> add_mset (new_id m) (waiting (stored f as kw o' m))
        | Inl _ \<Rightarrow> waiting (stored f as kw o' m))"
      unfolding routed_def Let_def
      by (rule waiting_route) (simp_all add: stored_frame assms)
    then show ?thesis
      using None by (simp add: add_task_routed [OF None c] stored_frame split: sum.splits)
  qed
qed

lemma add_task_waits_once_witness:
  "waiting (snd (add_task ex_func [] [] no_opts ex_tm)) = {#''u0''#}"
proof -
  have "fst (add_task ex_func [] [] no_opts ex_tm) = Inr ''u0''" "known_task no_opts ex_tm = None"
    by code_simp+
  moreover have "waiting ex_tm = {#}" "dwf (tm_queues ex_tm)"
    by (simp_all add: waiting_def queued_ids_def ex_tm_def)
  ultimately show ?thesis using add_task_waits_once [of ex_tm ex_func "[]" "[]" no_opts] by simp
qed

text \<open>The record of an accepted task is stored \<open>PENDING\<close> under the returned id before anything can
  run it; when the target queue is full the record stays, \<open>REJECTED\<close>, and the caller gets the error.\<close>

lemma add_task_record:
  assumes "known_task o' m = None" and "args_check f as kw m = Inr ()"
  shows "case fst (add_task f as kw o' m) of
       Inr tid \<Rightarrow> tid = new_id m
         \<and> map_option status (store_get (tm_store (snd (add_task f as kw o' m))) tid) = Some PENDING
     | Inl (QueueFullError n) \<Rightarrow>
         map_option status (store_get (tm_store (snd (add_task f as kw o' m))) (new_id m))
           = Some REJECTED
     | Inl _ \<Rightarrow> True"
proof (cases "fst (routed f as kw o' m)")
  case (Inr u)
  then show ?thesis
    using routed_store [of f as kw o' m] stored_get
    by (simp add: add_task_routed [OF assms])
next
  case (Inl e)
  then show ?thesis
    using routed_store [of f as kw o' m] stored_get [of f as kw o' m]
    by (cases e) (auto simp: add_task_routed [OF assms])
qed

text \<open>A manager whose default queue holds at most one task.\<close>

definition ex_tm_queues :: tm where
  "ex_tm_queues = ex_tm\<lparr>tm_queues := [(''default'',
     snd (tq_setup (tq_init ''default'' \<lparr>qc_concurrency = Some 1, qc_max_size = Some 0\<rparr>)))]\<rparr>"

lemma add_task_record_witness:
  "map_option status (store_get (tm_store (snd (add_task ex_func [] [] no_opts ex_tm_queues))) ''u0'')
     = Some REJECTED"
proof -
  have "fst (add_task ex_func [] [] no_opts ex_tm_queues) = Inl (QueueFullError ''default'')"
    by code_simp
  moreover have "known_task no_opts ex_tm_queues = None"
    "args_check ex_func [] [] ex_tm_queues = Inr ()" "new_id ex_tm_queues = ''u0''"
    by code_simp+
  ultimately show ?thesis using add_task_record [of no_opts ex_tm_queues ex_func "[]" "[]"] by simp
qed


definition ex_key_opts :: call_opts where
  "ex_key_opts = no_opts\<lparr>co_idempotency_key := Some ''k1''\<rparr>"


text \<open>With an encryption key the stored record holds no argument in the clear, and the run decrypts
  exactly the arguments of the call.\<close>

lemma encrypted_arguments:
  assumes "tm_fernet m = Some ci" and "\<forall>n. ci_open ci (ci_seal ci n (as, kw)) = Some (as, kw)"
    and "known_task o' m = None" and "add_task f as kw o' m = (Inr tid, m')"
  shows "case store_get (tm_store m') tid of
           None \<Rightarrow> False
         | Some r \<Rightarrow> args r = [] \<and> kwargs r = [] \<and> actual_args (Some r) (tm_fernet m') [] [] = Some (as, kw)"
proof -
  note acc = add_task_accepted [OF assms(4,3)]
  have f: "tm_fernet m' = Some ci"
    unfolding acc(3) routed_def Let_def route_fernet stored_frame by (rule assms(1))
  have s: "seal_args as kw (snd (fresh_uuid m))
      = (Some (ci_seal ci (tm_nonce (snd (fresh_uuid m))) (as, kw)), [], [],
         (snd (fresh_uuid m))\<lparr>tm_nonce := Suc (tm_nonce (snd (fresh_uuid m)))\<rparr>)"
    using assms(1) by (simp add: seal_args_def)
  show ?thesis
    unfolding acc(5) f acc(2) stored_store s
    using assms(2) by (simp add: Let_def) (simp add: new_record_def actual_args_def)
qed

definition ex_cipher :: cipher where
  "ex_cipher = \<lparr>ci_seal = (\<lambda>n a. ''token''), ci_open = (\<lambda>s. Some ([VInt 1], []))\<rparr>"

lemma encrypted_arguments_witness:
  "let m = ex_tm\<lparr>tm_fernet := Some ex_cipher\<rparr>; m' = snd (add_task ex_func [VInt 1] [] no_opts m)
   in case store_get (tm_store m') ''u0'' of
        None \<Rightarrow> False
      | Some r \<Rightarrow> args r = [] \<and> kwargs r = [] \<and> actual_args (Some r) (tm_fernet m') [] [] = Some ([VInt 1], [])"
proof -
  let ?m = "ex_tm\<lparr>tm_fernet := Some ex_cipher\<rparr>"
  have "fst (add_task ex_func [VInt 1] [] no_opts ?m) = Inr ''u0''" "known_task no_opts ?m = None"
    by code_simp+
  moreover have "tm_fernet ?m = Some ex_cipher" by simp
  moreover have "\<forall>n. ci_open ex_cipher (ci_seal ex_cipher n ([VInt 1], [])) = Some ([VInt 1], [])"
    by (simp add: ex_cipher_def)
  moreover obtain m' where e: "add_task ex_func [VInt 1] [] no_opts ?m = (Inr ''u0'', m')"
    using calculation(1) by (cases "add_task ex_func [VInt 1] [] no_opts ?m") auto
  ultimately show ?thesis
    using encrypted_arguments [OF _ _ _ e, of ex_cipher] unfolding Let_def e snd_conv by blast
qed

end
