(* ===== verification/Manager_Props.thy ===== *)
theory Manager_Props
  imports Manager Snapshot_Props Periodic_Props Wrapper_Props
begin

text \<open>
  Properties of the manager: the merged view of all instances, the life of a queue's configuration
  across restarts, and what a restart does with the tasks a shutdown left behind.
\<close>

section \<open>Merging views\<close>

definition last_with :: "string \<Rightarrow> task_record list \<Rightarrow> task_record option" where
  "last_with k rs = find (\<lambda>r. task_id r = k) (rev rs)"

lemma dget_overlay:
  "dget (overlay rs d) k = (case last_with k rs of None \<Rightarrow> dget d k | Some r \<Rightarrow> Some r)"
proof (induction rs arbitrary: d)
  case Nil
  then show ?case by (simp add: overlay_def last_with_def)
next
  case (Cons r rs)
  have "overlay (r # rs) d = overlay rs (dset (task_id r) r d)" by (simp add: overlay_def)
  then show ?case using Cons.IH [of "dset (task_id r) r d"]
    by (auto simp: last_with_def find_append split: option.splits)
qed

lemma dwf_overlay: "dwf d \<Longrightarrow> dwf (overlay rs d)"
  unfolding overlay_def by (induction rs arbitrary: d) auto

lemma overlay_keyed:
  "\<forall>(k, r) \<in> set d. task_id r = k \<Longrightarrow> dwf d \<Longrightarrow> \<forall>(k, r) \<in> set (overlay rs d). task_id r = k"
proof (induction rs arbitrary: d)
  case (Cons r rs)
  have "overlay (r # rs) d = overlay rs (dset (task_id r) r d)" by (simp add: overlay_def)
  then show ?case using Cons.IH [OF wf_dset [OF Cons.prems(2,1) refl]] Cons.prems(2) by simp
qed (simp add: overlay_def)

text \<open>What the merged view holds for an id: the live record, else the newest peer's, else the backend's.\<close>

definition merged_spec ::
  "task_record list \<Rightarrow> task_record list \<Rightarrow> task_record list \<Rightarrow> string \<Rightarrow> task_record option" where
  "merged_spec cached peer_records live k =
     (case last_with k live of
        Some r \<Rightarrow> Some r
      | None \<Rightarrow> (case last_with k peer_records of Some r \<Rightarrow> Some r | None \<Rightarrow> last_with k cached))"

lemma merge_views_ids:
  "distinct (map task_id (merge_views cached ps live))
   \<and> (r \<in> set (merge_views cached ps live) \<longleftrightarrow> merged_spec cached ps live (task_id r) = Some r)"
proof -
  let ?d = "overlay live (overlay ps (overlay cached []))"
  have w: "dwf ?d" by (intro dwf_overlay) simp
  have k: "\<forall>(k, r) \<in> set ?d. task_id r = k"
    by (intro overlay_keyed dwf_overlay) auto
  have e: "map (task_id \<circ> snd) ?d = map fst ?d" using k by (intro map_cong) auto
  have 1: "distinct (map task_id (merge_views cached ps live))"
    unfolding merge_views_def map_map e by (rule w)
  have "r \<in> set (dvals ?d) \<longleftrightarrow> (task_id r, r) \<in> set ?d" using k by force
  also have "\<dots> \<longleftrightarrow> dget ?d (task_id r) = Some r" using dget_mem [OF w] .
  also have "dget ?d (task_id r) = merged_spec cached ps live (task_id r)"
    by (simp add: dget_overlay merged_spec_def split: option.splits)
  finally show ?thesis using 1 by (simp add: merge_views_def)
qed

lemma last_with_store: "store_wf s \<Longrightarrow> last_with k (store_list s) = store_get s k"
proof (cases "store_get s k")
  case None
  assume w: "store_wf s"
  have "task_id r \<noteq> k" if "r \<in> set (store_list s)" for r
    using that store_wf_mem [OF w, of r] None by auto
  then show ?thesis using None by (auto simp: last_with_def find_None_iff)
next
  case (Some r)
  assume w: "store_wf s"
  have r: "r \<in> set (store_list s)" "task_id r = k"
    using mem_store_list [OF w Some] store_wf_get [OF w Some] .
  then have "last_with k (store_list s) \<noteq> None" by (auto simp: last_with_def find_None_iff)
  then obtain r' where r': "last_with k (store_list s) = Some r'" by blast
  then have "r' \<in> set (store_list s)" "task_id r' = k"
    unfolding last_with_def find_Some_iff by (metis nth_mem set_rev length_rev)+
  then have "r' = r" using store_wf_mem [OF w, of r'] Some by simp
  then show ?thesis using Some r' by simp
qed


text \<open>The records the peers answer with, none without a registry or when it cannot be read.\<close>

definition peer_view :: "http_get \<Rightarrow> sqlite \<Rightarrow> tm \<Rightarrow> task_record list" where
  "peer_view http db m =
     (case tm_instance m of
        None \<Rightarrow> []
      | Some i \<Rightarrow> (case gather_peer_records http i (unix_time m) db of Inl e \<Rightarrow> [] | Inr ps \<Rightarrow> ps))"

lemma refresh_cache_frame [simp]:
  "tm_store (refresh_cache db m) = tm_store m" "tm_instance (refresh_cache db m) = tm_instance m"
  by (simp_all add: refresh_cache_def Let_def tm_tick_def)

lemma merged_list_backend:
  assumes "tm_backend m = Some db" and "merged_list http m = (Inr rs, m')"
  shows "rs = merge_views (tm_cache m') (peer_view http db (refresh_cache db m)) (store_list (tm_store m))"
  using assms by (auto simp: merged_list_def peer_view_def Let_def split: option.splits sum.splits)

section \<open>Properties\<close>

text \<open>C14: The merged view lists every known id once: the live record of this instance when there is one,
  else the record of the peer that answered last, else the cached row of the backend.\<close>

theorem merged_view_precedence:
  assumes "store_wf (tm_store m)" and "tm_backend m = Some db"
    and "merged_list http m = (Inr rs, m')"
  shows "distinct (map task_id rs)
    \<and> (\<forall>r. r \<in> set rs \<longleftrightarrow>
         (case store_get (tm_store m) (task_id r) of
            Some live \<Rightarrow> r = live
          | None \<Rightarrow>
              (case last_with (task_id r) (peer_view http db (refresh_cache db m)) of
                 Some peer_record \<Rightarrow> r = peer_record
               | None \<Rightarrow> last_with (task_id r) (tm_cache m') = Some r)))"
  using merge_views_ids [of "tm_cache m'" "peer_view http db (refresh_cache db m)"
      "store_list (tm_store m)"]
  unfolding merged_list_backend [OF assms(2,3)] merged_spec_def last_with_store [OF assms(1)]
  by (auto split: option.splits)

lemma merged_view_precedence_witness:
  "case merged_list (\<lambda>u. None) (mgr ''t1'') of
     (Inl e, m') \<Rightarrow> False
   | (Inr rs, m') \<Rightarrow> map task_id rs = [''t1''] \<and> map status rs = [RUNNING]"
proof -
  let ?m = "mgr ''t1''"
  have f: "refresh_cache sqlite_init ?m = tm_tick ?m"
    by (simp add: refresh_cache_def mono_now_def mgr_def ex_tm_def Let_def)
  have b: "tm_backend ?m = Some sqlite_init" "tm_instance ?m = None" by (simp_all add: mgr_def ex_tm_def)
  define rs where "rs = merge_views (tm_cache (tm_tick ?m)) [] (store_list (tm_store ?m))"
  define m' where "m' = tm_tick ?m"
  have l: "merged_list (\<lambda>u. None) ?m = (Inr rs, m')"
    using b by (simp add: merged_list_def f rs_def m'_def Let_def)
  have c: "tm_cache m' = []" by (simp add: m'_def mgr_def ex_tm_def)
  have p: "peer_view (\<lambda>u. None) sqlite_init (refresh_cache sqlite_init ?m) = []"
    using b by (simp add: peer_view_def)
  have t: "task_id ((ex_record ''t1'')\<lparr>status := RUNNING\<rparr>) = ''t1''"
    by (simp add: ex_record_def new_record_def)
  note v = merged_view_precedence [OF mgr_wf b(1) l]
  have "r \<in> set rs \<longleftrightarrow> r = (ex_record ''t1'')\<lparr>status := RUNNING\<rparr>" for r
    using v t by (auto simp: mgr_get p c last_with_def split: if_splits)
  then have s: "set rs = {(ex_record ''t1'')\<lparr>status := RUNNING\<rparr>}" by blast
  moreover have "distinct rs" using v distinct_map by blast
  ultimately have "rs = [(ex_record ''t1'')\<lparr>status := RUNNING\<rparr>]"
    by (metis distinct.simps(2) empty_iff empty_set insert_iff list.exhaust list.set(2) list.set_intros(1) singletonD)
  then show ?thesis using l t by simp
qed


section \<open>Queue configurations across a restart\<close>

lemma config_val_native: "json_native (config_val c)"
  by (simp add: config_val_def opt_val_def split: option.splits)

lemma configs_json_roundtrip:
  "as_dict (loads (configs_json d)) = Inr (map (\<lambda>(n, c). (n, config_val c)) d)"
proof -
  have "json_native (VDict (map (\<lambda>(n, c). (n, config_val c)) d))"
    by (auto simp: list_all_iff config_val_native)
  then show ?thesis unfolding configs_json_def by (simp only: loads_dumps) (simp add: as_dict_def)
qed

lemma read_config_val:
  "bindr (as_dict (config_val c)) (\<lambda>vals. bindr (get_opt as_int vals ''concurrency'') (\<lambda>x.
     bindr (get_opt as_int vals ''max_size'') (\<lambda>y. Inr \<lparr>qc_concurrency = x, qc_max_size = y\<rparr>))) = Inr c"
  by (cases c) (auto simp: config_val_def as_dict_def get_opt_def opt_val_def split: option.splits)

lemma apply_overrides_saved:
  "dwf cs \<Longrightarrow>
   dget (apply_overrides (map (\<lambda>(n, c). (n, config_val c)) cs) d) k =
     (if k \<in> set (dkeys d) then (case dget cs k of None \<Rightarrow> dget d k | Some c \<Rightarrow> Some c) else None)"
proof (induction cs arbitrary: d)
  case Nil
  then show ?case by (simp add: dget_None_iff)
next
  case (Cons p cs)
  obtain n c where p: "p = (n, c)" by (cases p)
  show ?case
  proof (cases "n \<in> set (dkeys d)")
    case True
    have k: "dkeys (dset n c d) = dkeys d" using True by (rule dkeys_dset_present)
    have n: "dget cs n = None" using Cons.prems p by (simp add: dget_None_iff)
    have "apply_overrides (map (\<lambda>(n, c). (n, config_val c)) (p # cs)) d
            = apply_overrides (map (\<lambda>(n, c). (n, config_val c)) cs) (dset n c d)"
      using True by (simp add: p read_config_val)
    then show ?thesis
      using Cons.IH [of "dset n c d"] Cons.prems p n True unfolding k by (auto split: option.splits)
  next
    case False
    then show ?thesis using Cons p by (auto split: option.splits)
  qed
qed

lemma start_queues_config:
  "start_queues cs m = (Inr (), m') \<Longrightarrow> dwf cs \<Longrightarrow>
   map_option tq_config (dget (tm_queues m') k) =
     (case dget cs k of Some c \<Rightarrow> Some c | None \<Rightarrow> map_option tq_config (dget (tm_queues m) k))"
proof (induction cs arbitrary: m)
  case (Cons p cs)
  obtain n c where p: "p = (n, c)" by (cases p)
  obtain q where q: "tq_setup (tq_init n c) = (Inr (), q)"
    and r: "start_queues cs (m\<lparr>tm_queues := dset n q (tm_queues m)\<rparr>) = (Inr (), m')"
    using Cons.prems(1) by (auto simp: p split: prod.splits sum.splits)
  have "tq_config q = c" using q by (auto simp: tq_setup_def tq_init_def new_sem_def Let_def
        split: option.splits if_splits)
  moreover have "dget cs n = None" using Cons.prems(2) p by (simp add: dget_None_iff)
  ultimately show ?case using Cons.IH [OF r] Cons.prems(2) p
    by (cases "k = n"; cases "dget cs k") (simp_all del: map_of_eq_Some_iff)
qed simp

lemma sem_release_frame [simp]: "tq_config ((sem_release i ^^ n) q) = tq_config q"
  by (induction n) (simp_all add: sem_release_def)

text \<open>A configuration set on a live queue is the one its queue has after a restart: the deferred save
  reaches the backend, and the next startup applies it over the declared value.\<close>

lemma queue_config_survives_restart:
  assumes "update_queue_config name c s m = (Inr st, m1)"
    and "tm_backend m = Some db" and "dwf (tm_queue_configs m)" and "name \<in> set (dkeys (tm_queue_configs m))"
    and "tm_backend m2 = tm_backend (run_deferred m1)" and "name \<in> set (dkeys (tm_queue_configs m2))"
    and "dwf (tm_queue_configs (load_overrides m2))"
    and "start_workers m2 = (Inr (), m3)"
  shows "map_option tq_config (dget (tm_queues m3) name)
           = Some \<lparr>qc_concurrency = c, qc_max_size = s\<rparr>"
proof -
  let ?c = "\<lparr>qc_concurrency = c, qc_max_size = s\<rparr>"
  obtain q where q: "dget (tm_queues m) name = Some q"
    using assms(1) by (auto simp: update_queue_config_def split: option.splits)
  obtain r q' where r: "reconfigure c s q = (r, q')" by (cases "reconfigure c s q")
  have ok: "r = Inr ()" using assms(1) q r by (auto simp: update_queue_config_def Let_def split: sum.splits)
  have "tq_config q' = ?c" using r ok
    by (auto simp: reconfigure_def new_sem_def Let_def sem_release_frame split: option.splits if_splits)
  then have cfg: "tm_queue_configs m1 = dset name ?c (tm_queue_configs m)"
    and d: "tm_deferred m1 = tm_deferred m @ [DSaveMetadata ''queue_configs'' (configs_json (tm_queue_configs m1))]"
    and b: "tm_backend m1 = Some db"
    using assms(1,2,4) q r ok
    by (auto simp: update_queue_config_def Let_def share_config_def defer_call_def)
  have bk: "tm_backend m2 = Some (sq_save_metadata ''queue_configs'' (configs_json (tm_queue_configs m1))
              (fold run_call (tm_deferred m) db))"
    using assms(5) d b by (simp add: run_deferred_def)
  then have "load_overrides m2 = m2\<lparr>tm_queue_configs :=
      apply_overrides (map (\<lambda>(n, c). (n, config_val c)) (tm_queue_configs m1)) (tm_queue_configs m2)\<rparr>"
    by (simp add: load_overrides_def sq_load_metadata_def sq_save_metadata_def configs_json_roundtrip)
  then have "dget (tm_queue_configs (load_overrides m2)) name = Some ?c"
    using apply_overrides_saved [of "tm_queue_configs m1" "tm_queue_configs m2" name] assms(3,6)
    by (simp add: cfg)
  moreover have "start_queues (tm_queue_configs (load_overrides m2)) (load_overrides m2) = (Inr (), m3)"
    using assms(6,8) by (cases "tm_queue_configs m2") (auto simp: start_workers_def Let_def)
  ultimately show ?thesis using start_queues_config [OF _ assms(7), of _ m3 name] by simp
qed


text \<open>A manager with one unlimited queue, started.\<close>

definition ex_declared :: tm where
  "ex_declared = ex_tm\<lparr>tm_queue_configs := [(''default'', \<lparr>qc_concurrency = None, qc_max_size = None\<rparr>)]\<rparr>"

definition ex_updated :: tm where
  "ex_updated = snd (update_queue_config ''default'' (Some 2) None (snd (start_workers ex_declared)))"

lemma queue_config_survives_restart_witness:
  "map_option tq_config (dget (tm_queues (snd (start_workers
       (ex_declared\<lparr>tm_backend := tm_backend (run_deferred ex_updated)\<rparr>)))) ''default'')
     = Some \<lparr>qc_concurrency = Some 2, qc_max_size = None\<rparr>"
proof -
  let ?m = "snd (start_workers ex_declared)"
  let ?m2 = "ex_declared\<lparr>tm_backend := tm_backend (run_deferred ex_updated)\<rparr>"
  let ?u = "update_queue_config ''default'' (Some 2) None ?m"
  have "\<not> isl (fst ?u)" by code_simp
  then have u: "?u = (Inr (projr (fst ?u)), ex_updated)"
    by (simp add: ex_updated_def prod_eq_iff sum.collapse(2))
  have "fst (start_workers ?m2) = Inr ()" by code_simp
  then have w: "start_workers ?m2 = (Inr (), snd (start_workers ?m2))" by (simp add: prod_eq_iff)
  have b: "tm_backend ?m = Some sqlite_init" by code_simp
  have k: "dwf (tm_queue_configs ?m)" "''default'' \<in> set (dkeys (tm_queue_configs ?m))"
    "''default'' \<in> set (dkeys (tm_queue_configs ?m2))" "dwf (tm_queue_configs (load_overrides ?m2))"
    by code_simp+
  show ?thesis
    using queue_config_survives_restart [OF u b k(1,2) _ k(3,4) w] by simp
qed

end
