(* ===== verification/Restart_Props.thy ===== *)
theory Restart_Props
  imports Manager_Props
begin

text \<open>
  What a restart does: \<open>shutdown\<close> of one process followed by \<open>startup\<close> of the next on the same backend.
\<close>

section \<open>What shutdown leaves in the backend\<close>

lemma saved_keys:
  "set (dkeys (sq_history (fold put_row rows db))) = set (dkeys (sq_history db)) \<union> hr_task_id ` set rows"
proof (induction rows arbitrary: db)
  case (Cons r rows)
  have "set (dkeys (sq_history (put_row r db))) = insert (hr_task_id r) (set (dkeys (sq_history db)))"
    by (auto simp: put_row_def set_replace_row image_iff)
  then show ?case using Cons by simp
qed simp

lemma sq_save_keys:
  "set (dkeys (sq_history (snd (sq_save now rs db)))) = set (dkeys (sq_history db)) \<union> task_id ` set rs"
proof -
  have "hr_task_id (record_to_row t r) = task_id r" for t r by (simp add: record_to_row_def)
  then show ?thesis unfolding sq_save_def snd_conv saved_keys by (simp add: image_image)
qed

lemma sq_save_frame [simp]:
  "sq_pending (snd (sq_save now rs db)) = sq_pending db"
  unfolding sq_save_def snd_conv
proof -
  show "sq_pending (fold put_row (map (record_to_row (isoformat (naive_dt now))) rs) db) = sq_pending db"
    by (induction rs arbitrary: db) (simp_all add: put_row_def)
qed

lemma snap_flush_cases:
  "snd (snap_flush m) = m \<or>
   (\<exists>db. tm_backend m = Some db \<and> snd (snap_flush m) =
      tm_tick (m\<lparr>tm_backend := Some (snd (sq_save (dt_wall (tm_now m))
         (filter (\<lambda>t. status t \<in> {SUCCESS, FAILED, CANCELLED, INTERRUPTED, REJECTED})
            (store_list (tm_store m))) db))\<rparr>))"
  by (auto simp: snap_flush_def Let_def case_prod_beta split: option.splits)

lemma snap_flush_frame:
  "tm_store (snd (snap_flush m)) = tm_store m" "tm_registry (snd (snap_flush m)) = tm_registry m"
  "tm_requeue_pending (snd (snap_flush m)) = tm_requeue_pending m"
  using snap_flush_cases [of m] by auto

text \<open>The backend after the flush holds no row of an unfinished task it did not hold before.\<close>

lemma snap_flush_backend:
  assumes "tm_backend m = Some db" and "sqlite_wf db" and "store_wf (tm_store m)"
    and "store_get (tm_store m) k = Some r" and "unfinished r" and "k \<notin> set (dkeys (sq_history db))"
  obtains db' where "tm_backend (snd (snap_flush m)) = Some db'" "sqlite_wf db'"
    "k \<notin> set (dkeys (sq_history db'))"
proof -
  let ?done = "filter (\<lambda>t. status t \<in> {SUCCESS, FAILED, CANCELLED, INTERRUPTED, REJECTED})
            (store_list (tm_store m))"
  have "k \<notin> task_id ` set ?done"
  proof
    assume "k \<in> task_id ` set ?done"
    then obtain t where t: "t \<in> set ?done" "task_id t = k" by blast
    then have "t = r" using store_wf_mem [OF assms(3), of t] assms(4) by simp
    then show False using t(1) assms(5) by (auto simp: unfinished_def)
  qed
  then have "k \<notin> set (dkeys (sq_history (snd (sq_save (dt_wall (tm_now m)) ?done db))))"
    unfolding sq_save_keys using assms(6) by blast
  then show thesis
    using that snap_flush_cases [of m] assms(1,2,6) sqlite_wf_save [OF assms(2)] by auto
qed

lemma classify_all_requeue:
  "pa_requeue (classify_all m) = map (\<lambda>t. t\<lparr>status := PENDING\<rparr>)
     (filter (goes_pending (tm_registry m) (tm_requeue_pending m))
        (filter unfinished (store_list (tm_store m))))"
  by (simp add: classify_all_def classify_requeue)

lemma classify_all_interrupt:
  "map task_id (pa_interrupt (classify_all m)) =
     map task_id (filter (goes_interrupted (tm_registry m)) (filter unfinished (store_list (tm_store m))))"
  by (simp add: classify_all_def classify_interrupt del: filter_filter)

lemma flush_pending_saves:
  assumes "store_wf (tm_store m)" and "tm_backend m = Some db" and "sqlite_wf db"
    and "store_get (tm_store m) k = Some r" and "status r = PENDING" and "tm_requeue_pending m"
    and "k \<notin> set (dkeys (sq_history db))"
  obtains db' where "tm_backend (snd (flush_pending m)) = Some db'" "sqlite_wf db'"
    "k \<notin> set (dkeys (sq_history db'))"
    "sq_load_pending db' = map (\<lambda>r. pend_to_record (record_to_pend r)) (pa_requeue (classify_all m))"
    "r \<in> set (pa_requeue (classify_all m))" "distinct (map task_id (pa_requeue (classify_all m)))"
proof -
  let ?ts = "filter unfinished (store_list (tm_store m))"
  let ?p = "classify_all m"
  have k: "task_id r = k" using store_wf_get [OF assms(1,4)] .
  have r: "r \<in> set ?ts" using mem_store_list [OF assms(1,4)] assms(5) by (simp add: unfinished_def)
  then have ne: "?ts \<noteq> []" by (metis empty_iff empty_set)
  have pend: "r\<lparr>status := PENDING\<rparr> = r" using assms(5) by simp
  have g: "goes_pending (tm_registry m) (tm_requeue_pending m) r"
    using assms(5,6) by (simp add: goes_pending_def)
  have rq: "r \<in> set (pa_requeue ?p)"
    unfolding classify_all_requeue using r g pend by (force simp: image_iff)
  have d: "distinct (map task_id (pa_requeue ?p))"
    using store_ids_distinct [OF assms(1)]
    by (simp add: classify_all_requeue comp_def distinct_map_filter)
  have "k \<notin> task_id ` set (pa_interrupt ?p)"
  proof
    assume "k \<in> task_id ` set (pa_interrupt ?p)"
    then have "k \<in> set (map task_id (pa_interrupt ?p))" by simp
    then obtain t where t: "t \<in> set ?ts" "goes_interrupted (tm_registry m) t" "task_id t = k"
      unfolding classify_all_interrupt by auto
    then have "t = r" using store_wf_mem [OF assms(1), of t] assms(4) by simp
    then show False using t(2) assms(5) by (simp add: goes_interrupted_def)
  qed
  define db1 where "db1 = (if pa_interrupt ?p = [] then db
     else snd (sq_save (dt_wall (tm_now (pa_tm ?p))) (pa_interrupt ?p) db))"
  have w: "sqlite_wf db1" using assms(3) by (simp add: db1_def sqlite_wf_save)
  have h: "k \<notin> set (dkeys (sq_history db1))"
    using \<open>k \<notin> task_id ` set (pa_interrupt ?p)\<close> assms(7)
    unfolding db1_def by (simp add: sq_save_keys del: set_map)
  have "pa_requeue ?p \<noteq> []" using rq by auto
  then have "tm_backend (snd (flush_pending m)) = Some (snd (sq_save_pending (pa_requeue ?p) db1))"
    using flush_pending_backend [OF ne assms(2)] by (simp add: Let_def db1_def)
  moreover have "sqlite_wf (snd (sq_save_pending (pa_requeue ?p) db1))" using w by (rule sqlite_wf_save_pending)
  moreover have "k \<notin> set (dkeys (sq_history (snd (sq_save_pending (pa_requeue ?p) db1))))"
    using h by (simp add: sq_save_pending_def)
  ultimately show thesis using that load_saved_pending [OF d] rq d by blast
qed


lemma notify_shutdown_store [simp]:
  "store_get (notify_shutdown s) k = store_get s k" "store_wf (notify_shutdown s) = store_wf s"
  by (simp_all add: notify_shutdown_def store_get_def store_wf_def)

lemma shutdown_backend:
  assumes "tm_instance m = None" and "shutdown m = (Inr (), m1)" and "tm_backend m \<noteq> None"
  shows "\<exists>m0. tm_backend m1 = tm_backend (snd (flush_pending (snd (snap_flush m0))))
     \<and> tm_store m0 = notify_shutdown (tm_store m) \<and> tm_backend m0 = tm_backend m
     \<and> tm_registry m0 = tm_registry m \<and> tm_requeue_pending m0 = tm_requeue_pending m"
proof -
  let ?m1 = "stop_workers (m\<lparr>tm_store := notify_shutdown (tm_store m)\<rparr>)"
  let ?m0 = "?m1\<lparr>tm_periodic := map_option ps_stop (tm_periodic ?m1), tm_flush_loop := False\<rparr>"
  have f: "tm_instance ?m1 = None" "tm_backend ?m1 = tm_backend m" "tm_registry ?m1 = tm_registry m"
    "tm_requeue_pending ?m1 = tm_requeue_pending m" "tm_store ?m1 = notify_shutdown (tm_store m)"
    using assms(1) by (simp_all add: stop_workers_def)
  then have "tm_backend m1 = tm_backend (snd (flush_pending (snd (snap_flush ?m0))))"
    using assms(2,3) by (auto simp: shutdown_def Let_def stop_instance_def stop_snapshots_def)
  then show ?thesis using f by (intro exI [of _ ?m0]) simp
qed

section \<open>What startup makes of it\<close>

lemma requeued_one:
  assumes "distinct (map task_id rs)" and "r \<in> set rs" and "task_id r \<notin> set completed"
    and "task_id r \<in> set (dkeys (sq_pending db))"
  shows "filter (\<lambda>j. jb_task_id j = task_id r) (requeued_jobs completed db m rs) = job_of m r"
proof -
  have j: "jb_task_id j = task_id x" if "j \<in> set (job_of m x)" for x j
    using that by (auto simp: job_of_def make_job_def split: option.splits)
  have e: "filter (\<lambda>j. jb_task_id j = task_id r) (job_of m x) = (if task_id x = task_id r then job_of m x else [])"
    for x by (auto simp: filter_empty_conv j intro!: filter_True)
  have none: "task_id r \<notin> task_id ` set xs \<Longrightarrow>
      filter (\<lambda>j. jb_task_id j = task_id r) (requeued_jobs completed db m xs) = []" for xs
    by (induction xs) (auto simp: requeued_jobs_def e)
  show ?thesis using assms
  proof (induction rs)
    case (Cons x rs)
    have s: "requeued_jobs completed db m (x # rs)
               = requeued_jobs completed db m [x] @ requeued_jobs completed db m rs"
      by (simp add: requeued_jobs_def)
    show ?case
    proof (cases "x = r")
      case True
      then have "task_id r \<notin> task_id ` set rs" using Cons.prems(1) by auto
      then show ?thesis using s none True Cons.prems(3,4) by (simp add: requeued_jobs_def e)
    next
      case False
      then have r: "r \<in> set rs" using Cons.prems(2) by simp
      then have "task_id x \<noteq> task_id r"
        using Cons.prems(1) by (metis distinct.simps(2) imageI list.map(2) list.set_map)
      then show ?thesis using s Cons r by (simp add: requeued_jobs_def e)
    qed
  qed simp
qed

lemma set_completed_ids: "set (sq_completed_ids ids db) \<subseteq> set (dkeys (sq_history db))"
  by (auto simp: sq_completed_ids_def)

lemma start_queues_frame:
  "start_queues cs m = (r, m') \<Longrightarrow>
   tm_spawned m' = tm_spawned m \<and>
   ((\<forall>q \<in> set (dvals (tm_queues m)). tq_heap q = []) \<longrightarrow> (\<forall>q \<in> set (dvals (tm_queues m')). tq_heap q = []))"
proof (induction cs arbitrary: m)
  case (Cons p cs)
  obtain n c where p: "p = (n, c)" by (cases p)
  show ?case
  proof (cases "tq_setup (tq_init n c :: job task_queue)")
    case (Pair x q)
    have h: "tq_heap q = []" using Pair
      by (auto simp: tq_setup_def tq_init_def new_sem_def Let_def split: option.splits if_splits)
    show ?thesis
    proof (cases x)
      case (Inl e)
      then show ?thesis using Cons.prems p Pair by auto
    next
      case (Inr u)
      then have "start_queues cs (m\<lparr>tm_queues := dset n q (tm_queues m)\<rparr>) = (r, m')"
        using Cons.prems p Pair by simp
      from Cons.IH [OF this] show ?thesis
        using set_dvals_dset [of n q "tm_queues m"] h by (auto simp del: set_map)
    qed
  qed
qed simp

lemma start_workers_frame:
  assumes "start_workers m = (r, m')" and "tm_queues m = []"
  shows "tm_spawned m' = tm_spawned m \<and> (\<forall>q \<in> set (dvals (tm_queues m')). tq_heap q = [])"
proof -
  have l: "tm_spawned (load_overrides m) = tm_spawned m" "tm_queues (load_overrides m) = tm_queues m"
    by (simp_all add: load_overrides_def split: option.splits sum.splits)
  show ?thesis
  proof (cases "tm_queue_configs m = []")
    case True
    then show ?thesis using assms by (auto simp: start_workers_def)
  next
    case False
    then have "start_queues (tm_queue_configs (load_overrides m)) (load_overrides m) = (r, m')"
      using assms(1) by (simp add: start_workers_def Let_def)
    from start_queues_frame [OF this] show ?thesis using assms(2) l by simp
  qed
qed

lemma start_periodic_frame:
  "start_periodic cron m = (r, m') \<Longrightarrow> tm_spawned m' = tm_spawned m \<and> tm_queues m' = tm_queues m"
  by (auto simp: start_periodic_def set_periodic_def split: option.splits sum.splits)

lemma start_instance_frame:
  "start_instance m = (r, m') \<Longrightarrow> tm_spawned m' = tm_spawned m \<and> tm_queues m' = tm_queues m"
  by (auto simp: start_instance_def fresh_uuid_def Let_def split: option.splits sum.splits)

lemma then_do_Inr: "then_do x f = (Inr u, m') \<Longrightarrow> \<exists>m. x = (Inr (), m) \<and> f m = (Inr u, m')"
  by (auto simp: then_do_def split: prod.splits sum.splits)

lemma startup_spawned:
  assumes "startup cron m = (Inr (), m3)" and "tm_queues (snd (start_snapshots m)) = []"
  shows "fst (start_snapshots m) = Inr () \<and> tm_spawned m3 = tm_spawned (snd (start_snapshots m))
    \<and> (\<forall>q \<in> set (dvals (tm_queues m3)). tq_heap q = [])"
proof -
  from then_do_Inr [OF assms(1) [unfolded startup_def]] obtain c where c:
    "then_do (then_do (start_snapshots m) (start_periodic cron)) start_instance = (Inr (), c)"
    "start_workers c = (Inr (), m3)" by blast
  from then_do_Inr [OF c(1)] obtain b where b: "then_do (start_snapshots m) (start_periodic cron) = (Inr (), b)"
    "start_instance b = (Inr (), c)" by blast
  from then_do_Inr [OF b(1)] obtain a where a: "start_snapshots m = (Inr (), a)"
    "start_periodic cron a = (Inr (), b)" by blast
  note s = a b(2) c(2)
  show ?thesis
    using start_periodic_frame [OF s(2)] start_instance_frame [OF s(3)] start_workers_frame [OF s(4)]
      s(1) assms(2) by simp
qed

lemma start_snapshots_spawned:
  assumes "sqlite_wf db" and "tm_backend m = Some db" and "tm_queues m = []" and "tm_requeue_pending m"
  shows "tm_queues (snd (start_snapshots m)) = [] \<and>
    tm_spawned (snd (start_snapshots m)) = tm_spawned m @
      requeued_jobs (sq_completed_ids (map task_id (sq_load_pending db)) db) db m (sq_load_pending db)"
proof -
  let ?rs = "sq_load_pending db" and ?c = "sq_completed_ids (map task_id (sq_load_pending db)) db"
  let ?m1 = "snd (snap_load m)"
  have f: "tm_queues ?m1 = []" "tm_backend ?m1 = Some db" "tm_spawned ?m1 = tm_spawned m"
    "tm_registry ?m1 = tm_registry m" "tm_requeue_pending ?m1"
    using assms by (simp_all add: snap_load_def)
  have j: "requeued_jobs ?c db ?m1 ?rs = requeued_jobs ?c db m ?rs"
    using job_of_cong [of ?m1 m] f assms(2) by (simp add: requeued_jobs_def cong: map_cong)
  show ?thesis
  proof (cases "?rs = []")
    case True
    then have "requeue ?m1 = (Inr 0, ?m1)" using f by (simp add: requeue_def)
    then show ?thesis using True f assms(2)
      by (simp add: start_snapshots_def Let_def requeued_jobs_def)
  next
    case False
    have d: "distinct (map task_id ?rs)"
      using load_pending_ids [OF assms(1)] sqlite_wf_dwf(2) [OF assms(1)] by simp
    obtain m' db' where l: "requeue_loop ?c ?rs 0 ?m1 = (Inr (0 + length (requeued_jobs ?c db ?m1 ?rs)), m')"
      "tm_queues m' = []" "tm_spawned m' = tm_spawned ?m1 @ requeued_jobs ?c db ?m1 ?rs"
      using requeue_loop_plain [OF f(1,2) assms(1) d, of ?c 0] by blast
    have "requeue ?m1 = (Inr (length (requeued_jobs ?c db ?m1 ?rs)), clear_pending m')"
      using l(1) f(2) False by (simp add: requeue_def Let_def)
    then have "start_snapshots m = (Inr (), (clear_pending m')\<lparr>tm_flush_loop := True\<rparr>)"
      using f(5) assms(2) by (simp add: start_snapshots_def Let_def)
    then show ?thesis using l(2,3) f(3) j by (simp add: clear_pending_def)
  qed
qed

section \<open>Properties\<close>


text \<open>One waiting task, the process shut down, the next one started on what is left.\<close>

definition ex_waiting :: tm where
  "ex_waiting = ex_tm\<lparr>tm_store := snd (store_create (ex_record ''t1'') store_init)\<rparr>"

definition ex_next :: tm where
  "ex_next = ex_tm\<lparr>tm_backend := tm_backend (snd (shutdown ex_waiting))\<rparr>"


end
