(* ===== verification/Router_Props.thy ===== *)
theory Router_Props
  imports Router Restart_Props "HOL-Library.Sublist"
begin

text \<open>
  Properties of the HTTP operations (\<^verbatim>\<open>src/fastapi_taskflow/router.py\<close>): what a retry dispatches and
  what it keeps of the original, the accounting of bulk retries, cancellation and the deletion of
  history.
\<close>

section \<open>What the reading steps leave alone\<close>

lemma waiting_tick [simp]: "waiting (tm_tick m) = waiting m"
  by (simp add: waiting_def queued_ids_def tm_tick_def)

lemma waiting_spawn [simp]: "waiting (spawn j m) = add_mset (jb_task_id j) (waiting m)"
  by (simp add: waiting_def queued_ids_def spawn_def)

lemma refresh_cache_keeps:
  "tm_queues (refresh_cache db m) = tm_queues m" "waiting (refresh_cache db m) = waiting m"
  "tm_registry (refresh_cache db m) = tm_registry m"
  "tm_retry_replaces (refresh_cache db m) = tm_retry_replaces m"
  "tm_backend (refresh_cache db m) = tm_backend m"
  by (simp_all add: refresh_cache_def Let_def tm_tick_def waiting_def queued_ids_def)

lemma merged_list_keeps:
  assumes "merged_list http m = (x, m')"
  shows "tm_store m' = tm_store m" "tm_queues m' = tm_queues m" "waiting m' = waiting m"
    "tm_backend m' = tm_backend m"
proof -
  have "m' = m \<or> (\<exists>db. m' = refresh_cache db m \<or> m' = tm_tick (refresh_cache db m))"
    using assms by (auto simp: merged_list_def Let_def split: option.splits sum.splits)
  then show "tm_store m' = tm_store m" "tm_queues m' = tm_queues m" "waiting m' = waiting m"
    "tm_backend m' = tm_backend m"
    by (auto simp: refresh_cache_keeps)
qed

lemma find_record_keeps:
  assumes "find_record http tid m = (x, m')"
  shows "tm_store m' = tm_store m" "tm_queues m' = tm_queues m" "waiting m' = waiting m"
proof -
  have "m' = m \<or> (\<exists>y. merged_list http m = (y, m'))"
    using assms by (auto simp: find_record_def split: option.splits if_splits prod.splits sum.splits)
  then show "tm_store m' = tm_store m" "tm_queues m' = tm_queues m" "waiting m' = waiting m"
    using merged_list_keeps by blast+
qed

lemma audit_keeps [simp]:
  "tm_store (audit a t u d m) = tm_store m" "waiting (audit a t u d m) = waiting m"
  "tm_queues (audit a t u d m) = tm_queues m" "tm_deferred (audit a t u d m) = tm_deferred m"
  "tm_backend (audit a t u d m) = tm_backend m"
  by (simp_all add: audit_def audit_append_def fresh_uuid_def Let_def tm_tick_def waiting_def queued_ids_def)

lemma drop_originals_keeps [simp]:
  "waiting (drop_originals ids m) = waiting m" "tm_queues (drop_originals ids m) = tm_queues m"
  by (simp_all add: drop_originals_def defer_call_def waiting_def queued_ids_def Let_def)

lemma get_fold_delete:
  "store_get (fold (\<lambda>i s. snd (store_delete i s)) ids s) k
     = (if k \<in> set ids then None else store_get s k)"
  by (induction ids arbitrary: s) auto

lemma get_drop_originals [simp]:
  "store_get (tm_store (drop_originals ids m)) k
     = (if tm_retry_replaces m \<and> k \<in> set ids then None else store_get (tm_store m) k)"
  by (auto simp: drop_originals_def defer_call_def Let_def get_fold_delete)

section \<open>Dispatching a retry\<close>

text \<open>The record a retry creates for \<open>r\<close>.\<close>

definition retry_record :: "task_record \<Rightarrow> pyfunc \<Rightarrow> task_config \<Rightarrow> tm \<Rightarrow> task_record" where
  "retry_record r f c m =
     new_record (new_id m) (fn_name f) (args r) (kwargs r) None (Some (tags r)) None ''manual'' None
       (Some (resolve_executor f c)) (or_default (queue r) ''default'') (tm_now m)"

definition retry_stored :: "task_record \<Rightarrow> pyfunc \<Rightarrow> task_config \<Rightarrow> tm \<Rightarrow> tm" where
  "retry_stored r f c m =
     tm_create (new_id m) (fn_name f) (args r) (kwargs r) None (Some (tags r)) None ''manual'' None
       (Some (resolve_executor f c)) (or_default (queue r) ''default'') (snd (fresh_uuid m))"

definition retry_job :: "task_record \<Rightarrow> pyfunc \<Rightarrow> task_config \<Rightarrow> tm \<Rightarrow> job" where
  "retry_job r f c m = make_job f (new_id m) c (args r) (kwargs r) (resolve_executor f c) m"

lemma retry_stored_simps [simp]:
  "tm_queues (retry_stored r f c m) = tm_queues m" "waiting (retry_stored r f c m) = waiting m"
  "tm_spawned (retry_stored r f c m) = tm_spawned m"
  "store_get (tm_store (retry_stored r f c m)) k
     = (if k = new_id m then Some (retry_record r f c m) else store_get (tm_store m) k)"
  by (simp_all add: retry_stored_def waiting_frame retry_record_def tm_now_def)
     (simp_all add: fresh_uuid_def)

lemma redispatch_eq:
  "redispatch r f c m =
     (if tm_queues m = [] then (Inr (new_id m), spawn (retry_job r f c m) (retry_stored r f c m))
      else let x = tm_enqueue (or_default (queue r) ''default'') (new_id m) (priority r)
                     (retry_job r f c m) (retry_stored r f c m)
           in (case fst x of Inl e \<Rightarrow> Inl e | Inr _ \<Rightarrow> Inr (new_id m), snd x))"
proof -
  have u: "fresh_uuid m = (new_id m, snd (fresh_uuid m))" by (simp add: fresh_uuid_def new_id_def)
  have j: "make_job f (new_id m) c (args r) (kwargs r) (resolve_executor f c) (retry_stored r f c m)
             = retry_job r f c m"
    by (simp add: retry_job_def make_job_def retry_stored_def)
  show ?thesis
    unfolding redispatch_def
    by (subst u) (auto simp: Let_def retry_stored_def [symmetric] j split: prod.splits sum.splits)
qed

lemma redispatch_store:
  "store_get (tm_store (snd (redispatch r f c m))) k
     = (if k = new_id m then Some (retry_record r f c m) else store_get (tm_store m) k)"
  by (simp add: redispatch_eq Let_def)

lemma dwf_tm_enqueue: "dwf (tm_queues m) \<Longrightarrow> dwf (tm_queues (snd (tm_enqueue n t p j m)))"
  by (auto simp: tm_enqueue_def case_prod_beta split: sum.splits option.splits)

lemma redispatch_waiting:
  assumes "dwf (tm_queues m)"
  shows "waiting (snd (redispatch r f c m)) =
           (case fst (redispatch r f c m) of Inr _ \<Rightarrow> add_mset (new_id m) (waiting m) | Inl _ \<Rightarrow> waiting m)"
proof (cases "tm_queues m = []")
  case True
  then show ?thesis by (simp add: redispatch_eq retry_job_def make_job_def)
next
  case False
  let ?m = "retry_stored r f c m"
  let ?x = "tm_enqueue (or_default (queue r) ''default'') (new_id m) (priority r) (retry_job r f c m) ?m"
  have "waiting (snd ?x) = (case fst ?x of Inr _ \<Rightarrow> add_mset (new_id m) (waiting ?m) | Inl _ \<Rightarrow> waiting ?m)"
    using queued_ids_enqueue [of ?m] assms by (simp add: waiting_def tm_enqueue_frame split: sum.splits)
  then show ?thesis using False by (simp add: redispatch_eq Let_def split: sum.splits)
qed

lemma redispatch_rest:
  "dwf (tm_queues m) \<Longrightarrow> dwf (tm_queues (snd (redispatch r f c m)))"
  "fst (redispatch r f c m) = Inr nid \<Longrightarrow> nid = new_id m"
  by (auto simp: redispatch_eq Let_def dwf_tm_enqueue split: sum.splits if_splits)

lemma redispatch_replaces:
  "tm_retry_replaces (snd (redispatch r f c m)) = tm_retry_replaces m"
  by (auto simp: redispatch_eq Let_def retry_stored_def spawn_def tm_create_def fresh_uuid_def tm_tick_def
      tm_enqueue_def case_prod_beta split: sum.splits option.splits)

section \<open>Bulk retries\<close>

text \<open>
  What one pass over a list of ids has done, from accumulator \<open>a\<close> to \<open>b\<close>: every id was either
  skipped or dispatched, the dispatched ones in order, and exactly the new ids joined those waiting.
\<close>

definition retry_pass :: "string list \<Rightarrow> retry_acc \<Rightarrow> tm \<Rightarrow> retry_acc \<Rightarrow> tm \<Rightarrow> bool" where
  "retry_pass ids a m b m' \<longleftrightarrow>
     dwf (tm_queues m') \<and>
     (\<exists>rs. ra_results b = ra_results a @ rs \<and> subseq (map fst rs) ids
        \<and> ra_skipped b + length rs = ra_skipped a + length ids
        \<and> waiting m' = waiting m + mset (map snd rs))"

lemma retry_pass_skip:
  "dwf (tm_queues m) \<Longrightarrow> ra_results b = ra_results a \<Longrightarrow> ra_skipped b = Suc (ra_skipped a) \<Longrightarrow>
   dwf (tm_queues m') \<Longrightarrow> waiting m' = waiting m \<Longrightarrow> retry_pass [t] a m b m'"
  unfolding retry_pass_def by (intro conjI exI [of _ "[]"]) simp_all

lemma retry_pass_trans:
  assumes "retry_pass xs a m b m1" and "retry_pass ys b m1 c m2"
  shows "retry_pass (xs @ ys) a m c m2"
proof -
  obtain r where r: "ra_results b = ra_results a @ r" "subseq (map fst r) xs"
    "ra_skipped b + length r = ra_skipped a + length xs" "waiting m1 = waiting m + mset (map snd r)"
    using assms(1) unfolding retry_pass_def by blast
  obtain q where q: "ra_results c = ra_results b @ q" "subseq (map fst q) ys"
    "ra_skipped c + length q = ra_skipped b + length ys" "waiting m2 = waiting m1 + mset (map snd q)"
    using assms(2) unfolding retry_pass_def by blast
  have "subseq (map fst (r @ q)) (xs @ ys)" using list_emb_append_mono [OF r(2) q(2)] by simp
  then show ?thesis
    using r q assms(2) unfolding retry_pass_def by (intro conjI exI [of _ "r @ q"]) simp_all
qed

lemma retry_known_pass:
  assumes "retry_known r t a m = (Inr b, m')" and "dwf (tm_queues m)"
  shows "retry_pass [t] a m b m'"
proof (cases "get_by_name (tm_registry m) (func_name r)")
  case None
  then have "b = a\<lparr>ra_skipped := Suc (ra_skipped a)\<rparr>" "m' = m"
    using assms(1) by (auto simp: retry_known_def)
  then show ?thesis using assms(2) by (intro retry_pass_skip) simp_all
next
  case (Some p)
  obtain f c where p: "p = (f, c)" by (cases p)
  obtain nid where d: "redispatch r f c m = (Inr nid, m')"
    "b = a\<lparr>ra_results := ra_results a @ [(t, nid)]\<rparr>"
    using assms(1) Some p by (auto simp: retry_known_def split: prod.splits sum.splits)
  have "nid = new_id m" using redispatch_rest(2) [of r f c m nid] d(1) by simp
  then show ?thesis
    using d(2) redispatch_waiting [OF assms(2), of r f c] redispatch_rest(1) [OF assms(2), of r f c] d(1)
    unfolding retry_pass_def by (intro conjI exI [of _ "[(t, nid)]"]) simp_all
qed

lemma bulk_lookup_keeps:
  assumes "bulk_lookup http t a m = (Inr (x, b), m')"
  shows "ra_results b = ra_results a" "ra_skipped b = ra_skipped a" "tm_queues m' = tm_queues m"
    "waiting m' = waiting m"
proof -
  have "b = a \<and> m' = m \<or> (\<exists>rs y. b = a\<lparr>ra_map := rs\<rparr> \<and> merged_list http m = (y, m'))"
    using assms
    by (auto simp: bulk_lookup_def split: option.split_asm if_split_asm prod.split_asm sum.split_asm)
  then show "ra_results b = ra_results a" "ra_skipped b = ra_skipped a" "tm_queues m' = tm_queues m"
    "waiting m' = waiting m"
    using merged_list_keeps(2,3) by auto
qed

lemma retry_pass_cong:
  "retry_pass ids a m b m' \<Longrightarrow> ra_results a' = ra_results a \<Longrightarrow> ra_skipped a' = ra_skipped a \<Longrightarrow>
   waiting m0 = waiting m \<Longrightarrow> retry_pass ids a' m0 b m'"
  unfolding retry_pass_def by simp

lemma bulk_one_pass:
  assumes "bulk_one http t a m = (Inr b, m')" and "dwf (tm_queues m)"
  shows "retry_pass [t] a m b m'"
proof -
  obtain x a1 m1 where l: "bulk_lookup http t a m = (Inr (x, a1), m1)"
    using assms(1) by (auto simp: bulk_one_def split: prod.splits sum.splits option.splits)
  note k = bulk_lookup_keeps [OF l]
  have w: "dwf (tm_queues m1)" using k(3) assms(2) by simp
  have skip: "retry_pass [t] a m (a1\<lparr>ra_skipped := Suc (ra_skipped a1)\<rparr>) m1"
    using k w assms(2) by (intro retry_pass_skip) simp_all
  show ?thesis
  proof (cases x)
    case None
    then have "b = a1\<lparr>ra_skipped := Suc (ra_skipped a1)\<rparr>" "m' = m1"
      using assms(1) unfolding bulk_one_def l by simp_all
    then show ?thesis using skip by simp
  next
    case (Some r)
    show ?thesis
    proof (cases "retryable (status r)")
      case True
      then have "retry_known r t a1 m1 = (Inr b, m')" using assms(1) Some unfolding bulk_one_def l by simp
      from retry_known_pass [OF this w] show ?thesis
        by (rule retry_pass_cong) (simp_all add: k)
    next
      case False
      then have "b = a1\<lparr>ra_skipped := Suc (ra_skipped a1)\<rparr>" "m' = m1"
        using assms(1) Some unfolding bulk_one_def l by simp_all
      then show ?thesis using skip by simp
    qed
  qed
qed

lemma bulk_loop_pass:
  "bulk_loop http ids a m = (Inr b, m') \<Longrightarrow> dwf (tm_queues m) \<Longrightarrow> retry_pass ids a m b m'"
proof (induction ids arbitrary: a m)
  case Nil
  then show ?case by (auto simp: retry_pass_def)
next
  case (Cons t ids)
  obtain a1 m1 where o: "bulk_one http t a m = (Inr a1, m1)" "bulk_loop http ids a1 m1 = (Inr b, m')"
    using Cons.prems(1) by (auto split: prod.splits sum.splits)
  note p = bulk_one_pass [OF o(1) Cons.prems(2)]
  have "dwf (tm_queues m1)" using p by (simp add: retry_pass_def)
  then show ?case using retry_pass_trans [OF p Cons.IH [OF o(2)]] by simp
qed

lemma retry_each_pass:
  "retry_each rs a m = (Inr b, m') \<Longrightarrow> dwf (tm_queues m) \<Longrightarrow> retry_pass (map task_id rs) a m b m'"
proof (induction rs arbitrary: a m)
  case Nil
  then show ?case by (auto simp: retry_pass_def)
next
  case (Cons r rs)
  obtain a1 m1 where o: "retry_known r (task_id r) a m = (Inr a1, m1)" "retry_each rs a1 m1 = (Inr b, m')"
    using Cons.prems(1) by (auto split: prod.splits sum.splits)
  note p = retry_known_pass [OF o(1) Cons.prems(2)]
  have "dwf (tm_queues m1)" using p by (simp add: retry_pass_def)
  then show ?case using retry_pass_trans [OF p Cons.IH [OF o(2)]] by simp
qed

section \<open>Properties\<close>


text \<open>C21: A bulk retry accounts for every id it is given: it answers with the dispatched ones in order, each
  with the id of its new task, counts the others as skipped, and exactly the new ids are now waiting.\<close>

theorem bulk_retry_accounts:
  assumes "bulk_retry http ids actor m = (Inr v, m')" and "dwf (tm_queues m)"
  shows "\<exists>rs. v = VDict [(''dispatched'', VInt (int (length rs))),
                  (''skipped'', VInt (int (length ids) - int (length rs))),
                  (''results'', VList (map (\<lambda>(o', n). VDict [(''original_task_id'', VStr o'),
                                                             (''new_task_id'', VStr n)]) rs))]
     \<and> subseq (map fst rs) ids \<and> waiting m' = waiting m + mset (map snd rs)"
proof -
  obtain a m1 where a: "bulk_loop http ids empty_acc m = (Inr a, m1)" "v = retry_reply a"
    "waiting m' = waiting m1"
    using assms(1) by (auto simp: bulk_retry_def split: prod.splits sum.splits)
  obtain rs where rs: "ra_results a = rs" "subseq (map fst rs) ids"
    "ra_skipped a + length rs = length ids" "waiting m1 = waiting m + mset (map snd rs)"
    using bulk_loop_pass [OF a(1) assms(2)] by (auto simp: retry_pass_def empty_acc_def)
  have "int (ra_skipped a) = int (length ids) - int (length rs)" using rs(3) by linarith
  then show ?thesis using a(2,3) rs by (intro exI [of _ rs]) (simp add: retry_reply_def)
qed



text \<open>A retried task has lost its encrypted arguments: the new record carries no payload, so its run
  gets no argument at all, whatever the original was called with.\<close>

lemma retry_loses_sealed_arguments:
  assumes "store_get (tm_store m) tid = Some r" and "retryable (status r)"
    and "get_by_name (tm_registry m) (func_name r) = Some (f, c)" and "tm_queues m = []"
    and "new_id m \<noteq> tid" and "tm_fernet m = Some ci"
    and "encrypted_payload r = Some p" and "ci_open ci p = Some (as, kw)"
    and "args r = []" and "kwargs r = []"
  shows "actual_args (Some r) (tm_fernet m) (args r) (kwargs r) = Some (as, kw)
    \<and> (\<exists>j. tm_spawned (snd (retry_task http tid actor m)) = tm_spawned m @ [j] \<and> jb_task_id j = new_id m
         \<and> actual_args (store_get (tm_store (snd (retry_task http tid actor m))) (new_id m))
             (tm_fernet (snd (retry_task http tid actor m))) (jb_args j) (jb_kwargs j) = Some ([], []))"
proof -
  have f: "find_record http tid m = (Inr (Some r), m)" using assms(1) by (simp add: find_record_def)
  let ?m1 = "spawn (retry_job r f c m) (retry_stored r f c m)"
  have d: "redispatch r f c m = (Inr (new_id m), ?m1)" using assms(4) by (simp add: redispatch_eq)
  have s: "tm_spawned (snd (retry_task http tid actor m)) = tm_spawned m @ [retry_job r f c m]"
    using f d assms(2,3)
    by (simp add: retry_task_def Let_def audit_def audit_append_def fresh_uuid_def drop_originals_def
        defer_call_def)
  have "store_get (tm_store (snd (retry_task http tid actor m))) (new_id m) = Some (retry_record r f c m)"
    using f d assms(2,3,5) by (simp add: retry_task_def Let_def)
  then have "actual_args (store_get (tm_store (snd (retry_task http tid actor m))) (new_id m)) x [] [] = Some ([], [])"
    for x by (simp add: actual_args_def retry_record_def new_record_def split: option.splits)
  moreover have "actual_args (Some r) (tm_fernet m) (args r) (kwargs r) = Some (as, kw)"
    using assms(6-8) by (simp add: actual_args_def)
  ultimately show ?thesis
    unfolding s using assms(9,10) by (intro conjI exI [of _ "retry_job r f c m"])
      (simp_all add: retry_job_def make_job_def)
qed

section \<open>Concrete requests\<close>

text \<open>One failed task, no queue.\<close>

definition ex_failed :: "string option \<Rightarrow> tm" where
  "ex_failed p = ex_tm\<lparr>tm_store := snd (store_create
     ((ex_record ''t1'')\<lparr>status := FAILED, encrypted_payload := p\<rparr>) store_init), tm_fernet := Some ex_cipher\<rparr>"

lemma ex_failed_get:
  "store_get (tm_store (ex_failed p)) ''t1'' = Some ((ex_record ''t1'')\<lparr>status := FAILED, encrypted_payload := p\<rparr>)"
  by (simp add: ex_failed_def ex_record_def new_record_def)

lemma dec_0: "dec 0 = ''0''"
  by code_simp

lemma ex_failed_rest:
  "tm_queues (ex_failed p) = []" "new_id (ex_failed p) = ''u0''" "tm_fernet (ex_failed p) = Some ex_cipher"
  "tm_backend (ex_failed p) = Some sqlite_init" "waiting (ex_failed p) = {#}"
  "get_by_name (tm_registry (ex_failed p)) ''send'' = Some (ex_func, ex_config\<lparr>tc_name := None\<rparr>)"
  "args (ex_record t) = []" "kwargs (ex_record t) = []" "func_name (ex_record t) = ''send''"
  by (simp_all add: ex_failed_def ex_tm_def new_id_def dec_0 waiting_def queued_ids_def
      get_by_name_def register_def registry_init_def or_str_def ex_func_def ex_config_def
      default_config_def ex_record_def new_record_def)

abbreviation no_http :: http_get where
  "no_http \<equiv> \<lambda>url. None"


lemma bulk_retry_accounts_witness:
  "\<exists>rs. fst (bulk_retry no_http [''t1'', ''t2''] ''me'' (ex_failed None))
      = Inr (VDict [(''dispatched'', VInt (int (length rs))),
                  (''skipped'', VInt (int 2 - int (length rs))),
                  (''results'', VList (map (\<lambda>(o', n). VDict [(''original_task_id'', VStr o'),
                                                             (''new_task_id'', VStr n)]) rs))])
    \<and> subseq (map fst rs) [''t1'', ''t2'']
    \<and> waiting (snd (bulk_retry no_http [''t1'', ''t2''] ''me'' (ex_failed None))) = mset (map snd rs)"
proof -
  let ?x = "bulk_retry no_http [''t1'', ''t2''] ''me'' (ex_failed None)"
  have "\<not> isl (fst ?x)" by code_simp
  then have "?x = (Inr (projr (fst ?x)), snd ?x)" by (simp add: prod_eq_iff)
  from bulk_retry_accounts [OF this] show ?thesis
    using \<open>\<not> isl (fst ?x)\<close> by (simp add: ex_failed_rest) (metis sum.collapse(2))
qed


text \<open>A task that ended at midnight, two days later.\<close>

definition ex_ended :: task_record where
  "ex_ended = (ex_record ''t1'')\<lparr>status := SUCCESS, end_time := Some (utc_dt 0)\<rparr>"

definition ex_old :: tm where
  "ex_old = ex_tm\<lparr>tm_store := snd (store_create ex_ended store_init),
     tm_backend := Some (snd (sq_save 7 [ex_ended] sqlite_init)), tm_clock := (\<lambda>n. 2 * day_us)\<rparr>"


lemma retry_loses_sealed_arguments_witness:
  "\<exists>j. tm_spawned (snd (retry_task no_http ''t1'' ''me'' (ex_failed (Some ''token'')))) = [j]
     \<and> actual_args (store_get (tm_store (snd (retry_task no_http ''t1'' ''me'' (ex_failed (Some ''token''))))) ''u0'')
         (tm_fernet (snd (retry_task no_http ''t1'' ''me'' (ex_failed (Some ''token''))))) (jb_args j) (jb_kwargs j)
       = Some ([], [])"
proof -
  let ?r = "(ex_record ''t1'')\<lparr>status := FAILED, encrypted_payload := Some ''token''\<rparr>"
  have r: "retryable (status ?r)" "ci_open ex_cipher ''token'' = Some ([VInt 1], [])"
    "tm_spawned (ex_failed (Some ''token'')) = []"
    by (simp_all add: retryable_def ex_cipher_def ex_failed_def ex_tm_def)
  from retry_loses_sealed_arguments [OF ex_failed_get r(1), of _ _ ex_cipher "''token''" "[VInt 1]" "[]" no_http "''me''"]
  show ?thesis by (auto simp: ex_failed_rest r)
qed

end
