(* ===== verification/System.thy ===== *)
theory System
  imports Router_Props
begin

text \<open>
  The whole program as a transition system: one manager, every operation a caller, a background task
  or an HTTP client can start, the runs of the jobs that wait, and the other instances that share its
  backend. \<open>tm_wf\<close> is the well-formedness every reachable state has.
\<close>

section \<open>Well-formed managers\<close>

text \<open>
  Ids are unique and every record, row and queue is filed under its own name.
\<close>

definition queues_wf :: "(string, job task_queue) dict \<Rightarrow> bool" where
  "queues_wf d \<longleftrightarrow> dwf d \<and> (\<forall>(k, q) \<in> set d. tq_name q = k)"

definition tm_wf :: "tm \<Rightarrow> bool" where
  "tm_wf m \<longleftrightarrow> store_wf (tm_store m) \<and> pred_option sqlite_wf (tm_backend m)
     \<and> queues_wf (tm_queues m) \<and> dwf (tm_running m)"

text \<open>A task body may do anything to the store that the store's own operations can do.\<close>

definition body_ok :: "body \<Rightarrow> bool" where
  "body_ok b \<longleftrightarrow> (\<forall>a s. store_wf s \<longrightarrow> store_wf (bd_env b a s) \<and> store_wf (bd_sleep_env b a s))"

section \<open>The transition relation\<close>

inductive tm_step :: "tm \<Rightarrow> tm \<Rightarrow> bool" where
  task: "tm_step m (snd (task_decorator o' f m))"
| schedule: "tm_step m (snd (schedule_decorator s c f m))"
| once: "tm_step m (snd (schedule_once f as kw run_at k oo m))"
| cancel_once: "tm_step m (snd (cancel_scheduled k m))"
| add: "tm_step m (snd (add_task f as kw o' m))"
| startup: "tm_step m (snd (startup cron m))"
| shutdown: "tm_step m (snd (shutdown m))"
| snapshot: "tm_step m (snapshot_turn m)"
| deferred: "tm_step m (run_deferred m)"
| periodic: "periodic_turn fuel cron m = Some m' \<Longrightarrow> tm_step m m'"
| priority: "priority_worker_step m = Some m' \<Longrightarrow> tm_step m m'"
| run_spawned: "tm_spawned m = xs @ j # ys \<Longrightarrow> body_ok b \<Longrightarrow>
     tm_step m (snd (run_job j b (m\<lparr>tm_spawned := xs @ ys\<rparr>)))"
| run_starlette: "tm_starlette m = xs @ j # ys \<Longrightarrow> body_ok b \<Longrightarrow>
     tm_step m (snd (run_job j b (m\<lparr>tm_starlette := xs @ ys\<rparr>)))"
| drain: "dget (tm_queues m) k = Some q \<Longrightarrow> drainer_step q = Some q' \<Longrightarrow>
     tm_step m (m\<lparr>tm_queues := dset k q' (tm_queues m)\<rparr>)"
| run_slot: "dget (tm_queues m) k = Some q \<Longrightarrow> e \<in> set (tq_running q) \<Longrightarrow> body_ok b \<Longrightarrow>
     tm_step m (snd (run_job (qe_wrapped e) b (m\<lparr>tm_queues := dset k (finish_slot e q) (tm_queues m)\<rparr>)))"
| merged: "tm_step m (snd (merged_list http m))"
| queue_route: "tm_step m (snd (update_queue name c s actor m))"
| retry: "tm_step m (snd (retry_task http tid actor m))"
| bulk: "tm_step m (snd (bulk_retry http ids actor m))"
| retry_failed: "tm_step m (snd (retry_failed_route http since fn actor m))"
| cancel: "tm_step m (snd (cancel_task finished tid actor m))"
| history: "tm_step m (snd (delete_history n u m))"
| beat: "tm_instance m = Some i \<Longrightarrow> tm_backend m = Some db \<Longrightarrow> heartbeat i (unix_time m) db = Inr db' \<Longrightarrow>
     tm_step m (tm_tick (m\<lparr>tm_backend := Some db'\<rparr>))"
| peer: "tm_backend m = Some db \<Longrightarrow> sqlite_wf db' \<Longrightarrow> tm_step m (m\<lparr>tm_backend := Some db'\<rparr>)"

text \<open>States a freshly created manager reaches; the backend may hold whatever earlier processes left.\<close>

definition fresh_tm :: "tm \<Rightarrow> bool" where
  "fresh_tm m \<longleftrightarrow> tm_store m = store_init \<and> pred_option sqlite_wf (tm_backend m)
     \<and> tm_queues m = [] \<and> tm_running m = []"

inductive tm_reach :: "tm \<Rightarrow> bool" where
  fresh: "fresh_tm m \<Longrightarrow> tm_reach m"
| step: "tm_reach m \<Longrightarrow> tm_step m m' \<Longrightarrow> tm_reach m'"

section \<open>The building blocks keep it\<close>

named_theorems wf "steps that keep a manager well-formed"

lemma tm_wf_cong:
  "tm_store m' = tm_store m \<Longrightarrow> tm_backend m' = tm_backend m \<Longrightarrow> tm_queues m' = tm_queues m \<Longrightarrow>
   tm_running m' = tm_running m \<Longrightarrow> tm_wf m' = tm_wf m"
  by (simp add: tm_wf_def)

lemma tm_wf_same [simp]:
  "tm_wf (tm_tick m) = tm_wf m" "tm_wf (spawn j m) = tm_wf m" "tm_wf (snd (fresh_uuid m)) = tm_wf m"
  "tm_wf (enqueue_priority t p j m) = tm_wf m" "tm_wf (defer_call d m) = tm_wf m"
  "tm_wf (audit a t u dd m) = tm_wf m" "tm_wf (set_periodic pp m) = tm_wf m"
  "tm_wf (invalidate_cache m) = tm_wf m" "tm_wf (refresh_cache db m) = tm_wf m"
  by (simp_all add: tm_wf_def tm_tick_def spawn_def fresh_uuid_def enqueue_priority_def defer_call_def
      audit_def audit_append_def set_periodic_def invalidate_cache_def refresh_cache_def Let_def)

lemma tm_wf_fields [simp]:
  "tm_wf (m\<lparr>tm_registry := a\<rparr>) = tm_wf m" "tm_wf (m\<lparr>tm_requeue_pending := b\<rparr>) = tm_wf m"
  "tm_wf (m\<lparr>tm_spawned := c\<rparr>) = tm_wf m" "tm_wf (m\<lparr>tm_starlette := d\<rparr>) = tm_wf m"
  "tm_wf (m\<lparr>tm_priority_queue := e\<rparr>) = tm_wf m" "tm_wf (m\<lparr>tm_queue_configs := f\<rparr>) = tm_wf m"
  "tm_wf (m\<lparr>tm_periodic := g\<rparr>) = tm_wf m" "tm_wf (m\<lparr>tm_instance := h\<rparr>) = tm_wf m"
  "tm_wf (m\<lparr>tm_flush_loop := i\<rparr>) = tm_wf m" "tm_wf (m\<lparr>tm_deferred := k\<rparr>) = tm_wf m"
  "tm_wf (m\<lparr>tm_retention_counter := l\<rparr>) = tm_wf m" "tm_wf (m\<lparr>tm_logger := n\<rparr>) = tm_wf m"
  "tm_wf (m\<lparr>tm_procs := p\<rparr>) = tm_wf m" "tm_wf (m\<lparr>tm_priority_worker := q\<rparr>) = tm_wf m"
  "tm_wf (m\<lparr>tm_cancels := r\<rparr>) = tm_wf m" "tm_wf (m\<lparr>tm_next_uuid := s\<rparr>) = tm_wf m"
  by (simp_all add: tm_wf_def)

lemma tm_wf_parts:
  assumes "tm_wf m"
  shows "store_wf (tm_store m)" "tm_backend m = Some db \<Longrightarrow> sqlite_wf db" "dwf (tm_queues m)"
    "dwf (tm_running m)"
  using assms by (auto simp: tm_wf_def queues_wf_def)

lemma tm_wf_store [wf]: "tm_wf m \<Longrightarrow> store_wf s \<Longrightarrow> tm_wf (m\<lparr>tm_store := s\<rparr>)"
  by (simp add: tm_wf_def)

lemma tm_wf_backend [wf]: "tm_wf m \<Longrightarrow> pred_option sqlite_wf b \<Longrightarrow> tm_wf (m\<lparr>tm_backend := b\<rparr>)"
  by (simp add: tm_wf_def)

lemma tm_wf_queues [wf]: "tm_wf m \<Longrightarrow> queues_wf d \<Longrightarrow> tm_wf (m\<lparr>tm_queues := d\<rparr>)"
  by (simp add: tm_wf_def)

lemma tm_wf_create [wf]: "tm_wf m \<Longrightarrow> tm_wf (tm_create tid fn as kw ik tg enc src pr ex q m)"
  using tm_wf_store [of m] by (simp add: tm_create_def store_wf_create tm_wf_parts)

lemma tm_wf_upd [wf]: "tm_wf m \<Longrightarrow> (\<And>r. task_id (f r) = task_id r) \<Longrightarrow> tm_wf (tm_upd tid f m)"
  using tm_wf_store [of m] by (simp add: tm_upd_def store_wf_update tm_wf_parts)

lemma queues_wf_dset: "queues_wf d \<Longrightarrow> tq_name q = k \<Longrightarrow> queues_wf (dset k q d)"
proof -
  assume a: "queues_wf d" "tq_name q = k"
  have "\<forall>p \<in> set (dset k q d). p \<in> set d \<or> p = (k, q)" by (induction d) auto
  then show "queues_wf (dset k q d)" using a by (fastforce simp: queues_wf_def)
qed

lemma queues_wf_name: "queues_wf d \<Longrightarrow> dget d k = Some q \<Longrightarrow> tq_name q = k"
  by (auto simp: queues_wf_def dest: map_of_SomeD)

lemma enqueue_name: "tq_name (snd (enqueue t p j q)) = tq_name q"
  by (simp add: enqueue_def)

lemma tm_wf_enqueue [wf]: "tm_wf m \<Longrightarrow> tm_wf (snd (tm_enqueue n t p j m))"
  by (auto simp: tm_enqueue_def case_prod_beta enqueue_name tm_wf_def
      intro!: queues_wf_dset dest: queues_wf_name split: sum.split option.split)

lemma drainer_step_name: "drainer_step q = Some q' \<Longrightarrow> tq_name q' = tq_name q"
  by (auto simp: drainer_step_def start_slot_def split: drainer.splits if_splits option.splits)

lemma finish_slot_name: "tq_name (finish_slot e q) = tq_name q"
  by (simp add: finish_slot_def sem_release_def Let_def split: option.splits)

lemma sem_releases_name: "tq_name ((sem_release i ^^ n) q) = tq_name q"
  by (induction n) (simp_all add: sem_release_def)

lemma reconfigure_name: "tq_name (snd (reconfigure c s q)) = tq_name q"
  by (auto simp: reconfigure_def Let_def new_sem_def sem_releases_name split: option.splits)

lemma pred_map: "pred_option P b \<Longrightarrow> (\<And>x. P x \<Longrightarrow> P (f x)) \<Longrightarrow> pred_option P (map_option f b)"
  by (cases b) simp_all

lemma sqlite_wf_flush: "sqlite_wf db \<Longrightarrow> sqlite_wf (flush_one t n s db)"
  by (simp add: flush_one_def sqlite_wf_save split: option.splits)

lemma tm_wf_backend_map [wf]:
  "tm_wf m \<Longrightarrow> (\<And>db. sqlite_wf db \<Longrightarrow> sqlite_wf (f db)) \<Longrightarrow> tm_wf (m\<lparr>tm_backend := map_option f (tm_backend m)\<rparr>)"
  by (simp add: tm_wf_def pred_map)

section \<open>A run keeps it\<close>

definition ctx_ok :: "exec_ctx \<Rightarrow> bool" where
  "ctx_ok c \<longleftrightarrow> store_wf (ec_store c) \<and> pred_option sqlite_wf (ec_backend c)
     \<and> pred_option dwf (ec_running c) \<and> ec_on_success c \<in> {None, Some flush_one} \<and> body_ok (ec_body c)"

lemma ctx_ok_simps [simp]:
  "ctx_ok (tick c) = ctx_ok c" "ctx_ok (c\<lparr>ec_attempt := a\<rparr>) = ctx_ok c"
  "ctx_ok (c\<lparr>ec_attempt_start := t\<rparr>) = ctx_ok c" "ctx_ok (c\<lparr>ec_task_start := t\<rparr>) = ctx_ok c"
  "ctx_ok (c\<lparr>ec_sink := s\<rparr>) = ctx_ok c" "ctx_ok (c\<lparr>ec_succeeded := s\<rparr>) = ctx_ok c"
  "ctx_ok (c\<lparr>ec_pending_log := l\<rparr>) = ctx_ok c" "ctx_ok (c\<lparr>ec_logger := g\<rparr>) = ctx_ok c"
  "ctx_ok (c\<lparr>ec_last_error := e\<rparr>) = ctx_ok c" "ctx_ok (c\<lparr>ec_last_tb := e\<rparr>) = ctx_ok c"
  "ctx_ok (c\<lparr>ec_procs := p\<rparr>) = ctx_ok c" "ctx_ok (drain_pending c) = ctx_ok c"
  "ctx_ok (lifecycle_obs v c) = ctx_ok c"
  by (simp_all add: ctx_ok_def tick_def drain_pending_def lifecycle_obs_def)

lemma ctx_ok_upd: "ctx_ok c \<Longrightarrow> (\<And>r. task_id (f r) = task_id r) \<Longrightarrow> ctx_ok (ec_upd f c)"
  by (simp add: ctx_ok_def ec_upd_def store_wf_update)

lemma ctx_ok_store: "ctx_ok c \<Longrightarrow> store_wf s \<Longrightarrow> ctx_ok (c\<lparr>ec_store := s\<rparr>)"
  by (simp add: ctx_ok_def)

lemma ctx_ok_parts: "ctx_ok c \<Longrightarrow> store_wf (ec_store c)" "ctx_ok c \<Longrightarrow> body_ok (ec_body c)"
  by (simp_all add: ctx_ok_def)

lemma ctx_ok_sink: "ctx_ok c \<Longrightarrow> ctx_ok (sink_call l c)"
proof -
  assume c: "ctx_ok c"
  have "ctx_ok ((tick c)\<lparr>ec_store := append_log i x (ec_store c)\<rparr>)" for i x
    using c by (intro ctx_ok_store) (simp_all add: store_wf_append_log ctx_ok_parts)
  then show "ctx_ok (sink_call l c)" using c by (simp add: sink_call_def Let_def)
qed

lemma ctx_ok_sinks: "ctx_ok c \<Longrightarrow> ctx_ok (fold sink_call ls c)"
  by (induction ls arbitrary: c) (simp_all add: ctx_ok_sink)

lemma ctx_ok_endpoint: "ctx_ok c \<Longrightarrow> ctx_ok (snd (dispatch_endpoint c))"
proof -
  assume c: "ctx_ok c"
  have r: "pred_option dwf (map_option (dset i k) r) = pred_option dwf r" if "pred_option dwf r" for i k
    and r :: "(string, exec_kind) dict option"
    using that by (cases r) simp_all
  have e: "store_wf (bd_env (ec_body c) a (ec_store c))" for a
    using c by (simp add: ctx_ok_def body_ok_def)
  then show "ctx_ok (snd (dispatch_endpoint c))"
    using c by (simp add: dispatch_endpoint_def Let_def case_prod_beta)
      (intro ctx_ok_sinks, simp add: ctx_ok_def r)
qed

lemma ctx_ok_sleep: "ctx_ok c \<Longrightarrow> ctx_ok (retry_sleep a c)"
  by (auto simp: retry_sleep_def body_ok_def ctx_ok_def)

lemma ctx_ok_enter: "ctx_ok c \<Longrightarrow> ctx_ok (retry_enter a c)"
  by (auto simp: retry_enter_def Let_def intro!: ctx_ok_store store_wf_append_log ctx_ok_upd
      intro: ctx_ok_parts(1) [OF ctx_ok_upd])

lemma ctx_ok_retry:
  assumes "\<And>c. ctx_ok c \<Longrightarrow> ctx_ok (snd (next c))"
  shows "ctx_ok c \<Longrightarrow> ctx_ok (snd (retry_loop n a d next c))"
proof (induction n arbitrary: a d c)
  case (Suc n)
  obtain out c1 where e: "next (retry_enter a (retry_sleep a c)) = (out, c1)" by (cases "next (retry_enter a (retry_sleep a c))")
  have "ctx_ok c1" using assms [OF ctx_ok_enter [OF ctx_ok_sleep [OF Suc.prems]]] e by (metis snd_conv)
  then show ?case
    using Suc.prems Suc.IH e
    by (auto simp: ctx_ok_sleep retry_succeeded_def retry_failed_def split: outcome.splits)
qed simp

lemma ctx_ok_on_success: "ctx_ok c \<Longrightarrow> ctx_ok (run_on_success c)"
  by (auto simp: run_on_success_def ctx_ok_def tick_def sqlite_wf_flush
      intro!: pred_map split: option.splits)

lemma ctx_ok_logging:
  assumes "\<And>c. ctx_ok c \<Longrightarrow> ctx_ok (snd (next c))" and "ctx_ok c"
  shows "ctx_ok (snd (logging_middleware next c))"
proof -
  have "ctx_ok (log_enter c)"
    using assms(2) by (simp add: log_enter_def Let_def) (intro ctx_ok_upd; simp)
  then have "ctx_ok (snd (next (log_enter c)))" by (rule assms(1))
  moreover have "ctx_ok (log_finish d)" "ctx_ok (log_cancelled d)" if "ctx_ok d" for d
    using that
    by (auto simp: log_finish_def log_cancelled_def Let_def intro!: ctx_ok_on_success ctx_ok_upd
        split: option.splits)
  ultimately show ?thesis by (auto simp: logging_middleware_def case_prod_beta split: outcome.splits)
qed

lemma ctx_ok_idempotency:
  assumes "\<And>c. ctx_ok c \<Longrightarrow> ctx_ok (snd (next c))" and "ctx_ok c"
  shows "ctx_ok (snd (idempotency_middleware next c))"
proof -
  have "ctx_ok (record_key d)" if "ctx_ok d" for d
    using that by (auto simp: record_key_def ctx_ok_def sqlite_wf_rest pred_option_def split: option.splits)
  moreover have "ctx_ok (mark_duplicate c)"
    using assms(2) by (simp add: mark_duplicate_def Let_def ctx_ok_upd)
  ultimately show ?thesis
    using assms by (auto simp: idempotency_middleware_def case_prod_beta split: outcome.splits)
qed

lemma ctx_ok_pipeline: "ctx_ok c \<Longrightarrow> ctx_ok (snd (pipeline c))"
  unfolding pipeline_unfold
  by (intro ctx_ok_idempotency ctx_ok_logging)
    (simp_all add: retry_middleware_def ctx_ok_retry ctx_ok_endpoint)

lemma tm_wf_run [wf]:
  assumes "tm_wf m" and "body_ok b"
  shows "tm_wf (snd (run_job j b m))"
proof (cases "actual_args (store_get (tm_store m) (jb_task_id j)) (tm_fernet m) (jb_args j) (jb_kwargs j)")
  case None
  then have "snd (run_job j b m) = put_handles (handles_of m) m"
    by (simp add: run_job_def execute_task_def handles_of_def)
  then show ?thesis using assms(1) by (simp add: tm_wf_def put_handles_def handles_of_def)
next
  case (Some a)
  let ?c = "make_ctx j b (handles_of m) a"
  have "ctx_ok ?c" using assms by (auto simp: ctx_ok_def make_ctx_def handles_of_def tm_wf_def)
  then have c: "ctx_ok (snd (pipeline ?c))" by (rule ctx_ok_pipeline)
  have "snd (run_job j b m) = put_handles (release_ctx j (snd (pipeline ?c)) (handles_of m)) m"
    using Some by (simp add: run_job_def execute_task_def handles_of_def Let_def case_prod_beta)
  then show ?thesis
    using c assms(1)
    by (auto simp: tm_wf_def put_handles_def release_ctx_def ctx_ok_def handles_of_def queues_wf_def
        split: option.splits)
qed

section \<open>Every operation keeps it\<close>

lemma tm_wf_seal [wf]: "seal_args as kw m = (e, a, k, m') \<Longrightarrow> tm_wf m \<Longrightarrow> tm_wf m'"
  by (auto simp: seal_args_def tm_wf_def split: option.splits)

lemma tm_wf_route [wf]: "tm_wf m \<Longrightarrow> tm_wf (snd (route eager q p t j m))"
proof -
  assume w: "tm_wf m"
  obtain r m' where e: "tm_enqueue q t p j m = (r, m')" by (cases "tm_enqueue q t p j m")
  have "tm_wf m'" using tm_wf_enqueue [OF w, of q t p j] e by simp
  then show ?thesis
    using w e by (auto simp: route_def intro!: tm_wf_upd split: sum.split option.split py_exc.split)
qed

lemma tm_wf_add_task: "tm_wf m \<Longrightarrow> tm_wf (snd (add_task f as kw o' m))"
proof -
  assume w: "tm_wf m"
  have s: "tm_wf (snd (store_task f as kw o' t m1))" if "tm_wf m1" for t m1
  proof -
    obtain e a k m2 where q: "seal_args as kw m1 = (e, a, k, m2)" by (metis prod_cases4)
    show ?thesis using tm_wf_seal [OF q that] by (simp add: store_task_def q Let_def tm_wf_create)
  qed
  let ?m = "snd (fresh_uuid m)"
  have "tm_wf (snd (store_task f as kw o' (new_id m) ?m))" using s w by simp
  from tm_wf_route [OF this] show ?thesis
    using w by (auto simp: add_task_def fresh_uuid_def new_id_def Let_def case_prod_beta
        split: option.split sum.split)
qed

lemma tm_wf_dispatch [wf]: "tm_wf m \<Longrightarrow> tm_wf (snd (dispatch_fired f c t as kw k q p m))"
  by (simp add: dispatch_fired_def tm_wf_enqueue)

lemma tm_wf_lock [wf]: "tm_wf m \<Longrightarrow> tm_wf (snd (acquire_lock e m))"
  by (auto simp: acquire_lock_def case_prod_beta sqlite_wf_rest tm_wf_parts intro!: tm_wf_backend
      split: option.splits)

lemma tm_wf_fire_task [wf]: "tm_wf m \<Longrightarrow> tm_wf (snd (fire_task e m))"
  by (simp add: fire_task_def case_prod_beta Let_def tm_wf_dispatch tm_wf_create)

lemma tm_wf_fire [wf]: "tm_wf m \<Longrightarrow> tm_wf (snd (fire cron i e now p m))"
proof -
  assume w: "tm_wf m"
  have "tm_wf (snd (acquire_lock e m))" "tm_wf (snd (fire_task e (snd (acquire_lock e m))))"
    using w by (simp_all add: tm_wf_lock tm_wf_fire_task)
  then show ?thesis using w by (auto simp: fire_def Let_def case_prod_beta split: sum.splits prod.splits)
qed

lemma tm_wf_fire_once [wf]: "tm_wf m \<Longrightarrow> tm_wf (snd (fire_once so m))"
proof -
  assume w: "tm_wf m"
  have "tm_wf (snd (claim_one_off so m))"
    using w by (auto simp: claim_one_off_def sq_claim_scheduled_def case_prod_beta sqlite_wf_rest tm_wf_parts
        intro!: tm_wf_backend split: option.splits)
  then show ?thesis
    using w by (auto simp: fire_once_def Let_def case_prod_beta intro!: tm_wf_dispatch tm_wf_create
        split: option.split)
qed

lemma tm_wf_fire_top [wf]: "tm_wf m \<Longrightarrow> tm_wf (snd (fire_top cron now p m))"
proof -
  assume w: "tm_wf m"
  have f: "tm_wf m'" if "fire cron i e now p' m = (x, m')" for i e p' x m'
    using tm_wf_fire [OF w, of cron i e now p'] that by simp
  have g: "tm_wf m'" if "fire_once so m = (x, m')" for so x m'
    using tm_wf_fire_once [OF w, of so] that by simp
  show ?thesis
    using w by (auto simp: fire_top_def Let_def split: option.split prod.split sum.split dest: f g)
qed

lemma tm_wf_fire_due: "tm_wf m \<Longrightarrow> fire_due n cron now p m = Some (x, m') \<Longrightarrow> tm_wf m'"
proof (induction n arbitrary: p m)
  case (Suc n)
  obtain r m1 where e: "fire_top cron now p m = (r, m1)" by (cases "fire_top cron now p m")
  have "tm_wf m1" using tm_wf_fire_top [OF Suc.prems(1), of cron now p] e by simp
  then show ?case using Suc e by (auto split: if_splits sum.splits)
qed (auto split: if_splits)

lemma tm_wf_periodic: "tm_wf m \<Longrightarrow> periodic_turn fuel cron m = Some m' \<Longrightarrow> tm_wf m'"
  by (auto simp: periodic_turn_def Let_def split: option.splits if_splits sum.splits
      dest!: tm_wf_fire_due [rotated])

lemma tm_wf_flush [wf]: "tm_wf m \<Longrightarrow> tm_wf (snd (snap_flush m))"
  using snap_flush_cases [of m] tm_wf_backend [of m] by (auto simp: sqlite_wf_save tm_wf_parts)

lemma tm_wf_prune [wf]: "tm_wf m \<Longrightarrow> tm_wf (prune_old_records keep m)"
proof -
  assume w: "tm_wf m"
  obtain n s where e: "delete_completed_before (add_us (tm_now m) (- keep)) (tm_store m) = (n, s)"
    by (cases "delete_completed_before (add_us (tm_now m) (- keep)) (tm_store m)")
  have "store_wf s"
    using store_wf_delete_before [OF tm_wf_parts(1) [OF w], of "add_us (tm_now m) (- keep)"] e by simp
  then have "tm_wf (m\<lparr>tm_store := s\<rparr>)" by (rule tm_wf_store [OF w])
  then show ?thesis using w
    by (auto simp: prune_old_records_def Let_def e case_prod_beta sqlite_wf_rest tm_wf_parts
        intro!: tm_wf_backend split: option.split)
qed

lemma tm_wf_turn: "tm_wf m \<Longrightarrow> tm_wf (snapshot_turn m)"
  by (auto simp: snapshot_turn_def Let_def tm_wf_flush intro!: tm_wf_prune split: option.split)

lemma sqlite_wf_calls: "sqlite_wf db \<Longrightarrow> sqlite_wf (fold run_call cs db)"
proof (induction cs arbitrary: db)
  case (Cons c cs)
  then have "sqlite_wf (run_call c db)" by (cases c) (simp_all add: sqlite_wf_rest)
  then show ?case using Cons by simp
qed simp

lemma tm_wf_deferred: "tm_wf m \<Longrightarrow> tm_wf (run_deferred m)"
  by (simp add: run_deferred_def tm_wf_backend_map sqlite_wf_calls)

lemma tm_wf_task: "tm_wf m \<Longrightarrow> tm_wf (snd (task_decorator o' f m))"
  by (simp add: task_decorator_def Let_def split: sum.split)

lemma tm_wf_schedule: "tm_wf m \<Longrightarrow> tm_wf (snd (schedule_decorator s c f m))"
  by (simp add: schedule_decorator_def Let_def split: sum.split option.split)

lemma tm_wf_once: "tm_wf m \<Longrightarrow> tm_wf (snd (schedule_once f as kw run_at k oo m))"
proof -
  assume w: "tm_wf m"
  obtain e a kk m1 where q: "seal_args as kw m = (e, a, kk, m1)" by (metis prod_cases4)
  have m1: "tm_wf m1" by (rule tm_wf_seal [OF q w])
  have "tm_wf ((tm_tick m1)\<lparr>tm_backend := map_option (sq_save_scheduled so) (tm_backend m1)\<rparr>)" for so
    using m1 tm_wf_backend_map [of "tm_tick m1" "sq_save_scheduled so"] by (simp add: sqlite_wf_rest)
  then show ?thesis
    using w by (simp add: schedule_once_def q Let_def split: sum.split option.split)
qed

lemma tm_wf_cancel_once: "tm_wf m \<Longrightarrow> tm_wf (snd (cancel_scheduled k m))"
  by (auto simp: cancel_scheduled_def require_scheduled_once_def case_prod_beta Let_def sqlite_wf_rest tm_wf_parts
      intro!: tm_wf_backend split: option.split sum.split)

lemma tm_wf_requeue_one: "tm_wf m \<Longrightarrow> tm_wf (snd (requeue_one c r n m))"
proof -
  assume w: "tm_wf m"
  have b: "tm_wf (m\<lparr>tm_backend := Some (snd (sq_claim_pending t db))\<rparr>)" if "tm_backend m = Some db" for t db
    using w that by (intro tm_wf_backend) (simp_all add: sqlite_wf_rest tm_wf_parts)
  have u: "tm_wf (tm_upd k (executor_update f)
             (m\<lparr>tm_backend := Some (snd (sq_claim_pending t db)), tm_store := restore r (tm_store m)\<rparr>))"
    if "tm_backend m = Some db" for k f t db
  proof -
    have "tm_wf ((m\<lparr>tm_backend := Some (snd (sq_claim_pending t db))\<rparr>)\<lparr>tm_store := restore r (tm_store m)\<rparr>)"
      using w by (intro tm_wf_store b that) (simp add: store_wf_restore tm_wf_parts)
    then show ?thesis by (intro tm_wf_upd) simp_all
  qed
  show ?thesis
    using w by (auto simp: requeue_one_def Let_def case_prod_beta b u tm_wf_enqueue split: option.split sum.split)
qed

lemma tm_wf_requeue_loop: "tm_wf m \<Longrightarrow> tm_wf (snd (requeue_loop c rs n m))"
proof (induction rs arbitrary: n m)
  case (Cons r rs)
  obtain x m' where e: "requeue_one c r n m = (x, m')" by (cases "requeue_one c r n m")
  have "tm_wf m'" using tm_wf_requeue_one [OF Cons.prems, of c r n] e by simp
  then show ?case using Cons.IH e by (simp split: sum.split)
qed simp

lemma tm_wf_requeue: "tm_wf m \<Longrightarrow> tm_wf (snd (requeue m))"
proof -
  assume w: "tm_wf m"
  have e: "tm_wf m'" if "requeue_loop c rs n m = (x, m')" for c rs n x m'
    using tm_wf_requeue_loop [OF w, of c rs n] that by simp
  show ?thesis
    using w by (auto simp: requeue_def Let_def clear_pending_def sqlite_wf_rest intro!: tm_wf_backend_map dest: e
        split: option.split prod.split sum.split)
qed

lemma tm_wf_load: "tm_wf m \<Longrightarrow> tm_wf (snd (snap_load m))"
proof -
  assume w: "tm_wf m"
  have "store_wf (fold restore rs s)" if "store_wf s" for rs s
    using that by (induction rs arbitrary: s) (simp_all add: store_wf_restore)
  then show ?thesis using w by (auto simp: snap_load_def tm_wf_parts intro!: tm_wf_store split: option.split)
qed

lemma then_do_wf: "tm_wf (snd x) \<Longrightarrow> (\<And>m. tm_wf m \<Longrightarrow> tm_wf (snd (f m))) \<Longrightarrow> tm_wf (snd (then_do x f))"
  by (auto simp: then_do_def split: prod.splits sum.splits)

lemma tm_wf_start_queues: "tm_wf m \<Longrightarrow> tm_wf (snd (start_queues cs m))"
proof (induction cs arbitrary: m)
  case (Cons p cs)
  obtain n c where p: "p = (n, c)" by (cases p)
  obtain x q where e: "tq_setup (tq_init n c :: job task_queue) = (x, q)"
    by (cases "tq_setup (tq_init n c :: job task_queue)")
  have "tq_name q = n" using e
    by (auto simp: tq_setup_def tq_init_def new_sem_def Let_def split: option.splits if_splits)
  then have "tm_wf (m\<lparr>tm_queues := dset n q (tm_queues m)\<rparr>)"
    using Cons.prems by (intro tm_wf_queues queues_wf_dset) (simp_all add: tm_wf_def)
  then show ?case using Cons p e by (simp split: sum.split)
qed simp

lemma tm_wf_instance:
  "tm_wf m \<Longrightarrow> tm_wf (snd (start_instance m))" "tm_wf m \<Longrightarrow> tm_wf (snd (stop_instance m))"
proof -
  assume w: "tm_wf m"
  have s: "sqlite_wf (save_entries d db)" if "sqlite_wf db" for d db
    using that by (simp add: save_entries_def sqlite_wf_rest)
  have i: "sqlite_wf db'" if "instance_start i t db = Inr (i', db')" "sqlite_wf db" for i t db i' db'
    using that s by (auto simp: instance_start_def write_entry_def bindr_def split: sum.splits)
  have j: "sqlite_wf db'" if "instance_stop i db = Inr (i', db')" "sqlite_wf db" for i db i' db'
    using that s by (auto simp: instance_stop_def remove_entry_def bindr_def split: sum.splits)
  show "tm_wf (snd (start_instance m))"
    using w by (auto simp: start_instance_def fresh_uuid_def Let_def tm_wf_parts intro!: tm_wf_backend
        dest: i split: option.split sum.split)
  show "tm_wf (snd (stop_instance m))"
    using w by (auto simp: stop_instance_def tm_wf_parts intro!: tm_wf_backend dest: j split: option.split sum.split)
qed

lemma tm_wf_startup: "tm_wf m \<Longrightarrow> tm_wf (snd (startup cron m))"
proof -
  assume w: "tm_wf m"
  have a: "tm_wf (snd (start_snapshots m))"
  proof -
    have l: "tm_wf (snd (snap_load m))" by (rule tm_wf_load [OF w])
    have r: "tm_wf m'" if "requeue (snd (snap_load m)) = (x, m')" for x m'
      using tm_wf_requeue [OF l] that by simp
    show ?thesis using w l
      by (auto simp: start_snapshots_def Let_def intro!: then_do_wf dest: r split: prod.split sum.split)
  qed
  have b: "tm_wf (snd (start_periodic cron n))" if "tm_wf n" for n
    using that by (simp add: start_periodic_def split: option.split sum.split)
  have c: "tm_wf (snd (start_workers n))" if "tm_wf n" for n
  proof -
    have "tm_wf (load_overrides n)" using that by (simp add: load_overrides_def split: option.split sum.split)
    then show ?thesis using that by (simp add: start_workers_def Let_def tm_wf_start_queues)
  qed
  show ?thesis unfolding startup_def by (intro then_do_wf a b c tm_wf_instance)
qed

lemma tm_wf_classify: "tm_wf m \<Longrightarrow> tm_wf (pa_tm (classify_all m))"
proof -
  have "tm_wf (pa_tm p) \<Longrightarrow> tm_wf (pa_tm (fold classify_unfinished ts p))" for ts p
  proof (induction ts arbitrary: p)
    case (Cons t ts)
    then have "tm_wf (pa_tm (classify_unfinished t p))"
      by (simp add: classify_unfinished_def Let_def tm_wf_upd)
    then show ?case using Cons by simp
  qed simp
  then show "tm_wf m \<Longrightarrow> tm_wf (pa_tm (classify_all m))" by (simp add: classify_all_def)
qed

lemma tm_wf_flush_pending: "tm_wf m \<Longrightarrow> tm_wf (snd (flush_pending m))"
proof -
  assume w: "tm_wf m"
  let ?p = "classify_all m"
  have p: "tm_wf (pa_tm ?p)" by (rule tm_wf_classify [OF w])
  have s: "tm_wf (m1\<lparr>tm_backend := map_option (\<lambda>db. snd (sq_save n rs db)) (tm_backend m1)\<rparr>)"
    "tm_wf (m1\<lparr>tm_backend := map_option (\<lambda>db. snd (sq_save_pending rs db)) (tm_backend m1)\<rparr>)"
    if "tm_wf m1" for m1 n rs
    using that by (auto intro!: tm_wf_backend_map simp: sqlite_wf_save sqlite_wf_save_pending)
  define m1 where "m1 = (if pa_interrupt ?p = [] then pa_tm ?p
     else tm_tick ((pa_tm ?p)\<lparr>tm_backend :=
            map_option (\<lambda>db. snd (sq_save (dt_wall (tm_now (pa_tm ?p))) (pa_interrupt ?p) db))
              (tm_backend (pa_tm ?p))\<rparr>))"
  have "tm_wf m1" using p s(1) by (simp add: m1_def)
  then show ?thesis
    using w s(2) by (simp add: flush_pending_def Let_def m1_def [symmetric])
qed

lemma tm_wf_shutdown: "tm_wf m \<Longrightarrow> tm_wf (snd (shutdown m))"
proof -
  assume w: "tm_wf m"
  have "tm_wf (stop_workers n)" if "tm_wf n" for n
    using that tm_wf_queues [of n "[]"] by (simp add: stop_workers_def queues_wf_def)
  then have a: "tm_wf (stop_workers (m\<lparr>tm_store := notify_shutdown (tm_store m)\<rparr>))"
    using w by (simp add: tm_wf_store tm_wf_parts)
  have b: "tm_wf (stop_snapshots n)" if "tm_wf n" for n
    using that by (simp add: stop_snapshots_def tm_wf_flush_pending tm_wf_flush)
  show ?thesis
    unfolding shutdown_def Let_def
    by (rule then_do_wf, rule tm_wf_instance(2)) (simp_all add: a b)
qed

lemma tm_wf_merged: "tm_wf m \<Longrightarrow> merged_list http m = (x, m') \<Longrightarrow> tm_wf m'"
  by (auto simp: merged_list_def Let_def split: option.splits sum.splits)

lemma tm_wf_find: "tm_wf m \<Longrightarrow> find_record http tid m = (x, m') \<Longrightarrow> tm_wf m'"
  by (auto simp: find_record_def dest: tm_wf_merged split: option.splits if_splits prod.splits sum.splits)

lemma tm_wf_redispatch: "tm_wf m \<Longrightarrow> tm_wf (snd (redispatch r f c m))"
  by (simp add: redispatch_eq Let_def retry_stored_def tm_wf_create tm_wf_enqueue)

lemma tm_wf_drop: "tm_wf m \<Longrightarrow> tm_wf (drop_originals ids m)"
proof -
  assume w: "tm_wf m"
  have "store_wf (fold (\<lambda>i s. snd (store_delete i s)) ids s)" if "store_wf s" for ids s
    using that by (induction ids arbitrary: s) (simp_all add: store_wf_delete)
  then have "tm_wf (m\<lparr>tm_store := fold (\<lambda>i s. snd (store_delete i s)) ids (tm_store m)\<rparr>)"
    using w by (intro tm_wf_store) (simp_all add: tm_wf_parts)
  then show ?thesis using w by (simp add: drop_originals_def Let_def)
qed

lemma tm_wf_retry: "tm_wf m \<Longrightarrow> tm_wf (snd (retry_task http tid actor m))"
proof -
  assume w: "tm_wf m"
  have d: "tm_wf m'" if "redispatch r f c m1 = (x, m')" "tm_wf m1" for r f c m1 x m'
    using tm_wf_redispatch [OF that(2), of r f c] that(1) by simp
  obtain x m1 where f: "find_record http tid m = (x, m1)" by (cases "find_record http tid m")
  have m1: "tm_wf m1" by (rule tm_wf_find [OF w f])
  show ?thesis
    using m1 by (auto simp: retry_task_def f Let_def intro!: tm_wf_drop dest: d
        split: sum.split option.split prod.split)
qed

lemma tm_wf_known: "tm_wf m \<Longrightarrow> retry_known r t a m = (x, m') \<Longrightarrow> tm_wf m'"
proof -
  assume w: "tm_wf m" and e: "retry_known r t a m = (x, m')"
  have d: "tm_wf m'" if "redispatch r f c m = (x, m')" for r f c x m'
    using tm_wf_redispatch [OF w, of r f c] that by simp
  show "tm_wf m'" using w e by (auto simp: retry_known_def dest: d split: option.splits prod.splits sum.splits)
qed

lemma tm_wf_bulk_one: "tm_wf m \<Longrightarrow> tm_wf (snd (bulk_one http t a m))"
proof -
  assume w: "tm_wf m"
  obtain x m1 where l: "bulk_lookup http t a m = (x, m1)" by (cases "bulk_lookup http t a m")
  have m1: "tm_wf m1"
    using l w by (auto simp: bulk_lookup_def dest: tm_wf_merged
        split: option.split_asm if_split_asm prod.split_asm sum.split_asm)
  have k: "tm_wf (snd (retry_known r t b m1))" for r b
    using tm_wf_known [OF m1] by (cases "retry_known r t b m1") simp
  show ?thesis unfolding bulk_one_def l
    using m1 k by (auto split: sum.split option.split prod.split)
qed

lemma tm_wf_bulk_loop: "tm_wf m \<Longrightarrow> tm_wf (snd (bulk_loop http ids a m))"
proof (induction ids arbitrary: a m)
  case (Cons t ids)
  obtain x m1 where e: "bulk_one http t a m = (x, m1)" by (cases "bulk_one http t a m")
  have "tm_wf m1" using tm_wf_bulk_one [OF Cons.prems, of http t a] e by simp
  then show ?case using Cons.IH e by (simp split: sum.split)
qed simp

lemma tm_wf_bulk: "tm_wf m \<Longrightarrow> tm_wf (snd (bulk_retry http ids actor m))"
proof -
  assume w: "tm_wf m"
  obtain x m1 where e: "bulk_loop http ids empty_acc m = (x, m1)" by (cases "bulk_loop http ids empty_acc m")
  have "tm_wf m1" using tm_wf_bulk_loop [OF w, of http ids empty_acc] e by simp
  then show ?thesis using e by (simp add: bulk_retry_def tm_wf_drop split: sum.split)
qed

lemma tm_wf_each: "tm_wf m \<Longrightarrow> retry_each rs a m = (x, m') \<Longrightarrow> tm_wf m'"
proof (induction rs arbitrary: a m)
  case (Cons r rs)
  obtain y m1 where e: "retry_known r (task_id r) a m = (y, m1)" by (cases "retry_known r (task_id r) a m")
  show ?case using Cons.IH [OF tm_wf_known [OF Cons.prems(1) e]] Cons.prems(2) e tm_wf_known [OF Cons.prems(1) e]
    by (auto split: sum.splits)
qed simp

lemma tm_wf_retry_failed: "tm_wf m \<Longrightarrow> tm_wf (snd (retry_failed_route http since fn actor m))"
proof -
  assume w: "tm_wf m"
  define m0 where "m0 = (if since = ''all'' \<or> parse_window since = None then m else tm_tick m)"
  have m0: "tm_wf m0" using w by (simp add: m0_def)
  show ?thesis
    unfolding retry_failed_route_def Let_def m0_def [symmetric]
    using m0 by (auto simp: tm_wf_drop dest: tm_wf_merged tm_wf_each
        intro!: tm_wf_drop split: sum.split prod.split)
qed

lemma tm_wf_cancel: "tm_wf m \<Longrightarrow> tm_wf (snd (cancel_task finished tid actor m))"
proof -
  assume w: "tm_wf m"
  have u: "tm_wf (tm_upd tid f n)" if "tm_wf n" "\<And>r. task_id (f r) = task_id r" for f n
    using that by (rule tm_wf_upd)
  have b: "tm_wf ((tm_tick n)\<lparr>tm_backend := Some (flush_one tid t s db)\<rparr>)"
    if "tm_wf n" "tm_backend n = Some db" for n t s db
    using that by (intro tm_wf_backend) (simp_all add: sqlite_wf_flush tm_wf_parts)
  show ?thesis
    using w by (auto simp: cancel_task_def Let_def intro!: b u split: option.split)
qed

lemma tm_wf_history: "tm_wf m \<Longrightarrow> tm_wf (snd (delete_history n u m))"
proof -
  assume w: "tm_wf m"
  have s: "tm_wf ((tm_tick m)\<lparr>tm_store := snd (delete_completed_before c (tm_store m))\<rparr>)" for c
    using w by (intro tm_wf_store) (simp_all add: store_wf_delete_before tm_wf_parts)
  have b: "tm_wf (n\<lparr>tm_backend := Some (snd (sq_delete_before c db))\<rparr>)"
    if "tm_wf n" "tm_backend n = Some db" for n c db
    using that by (intro tm_wf_backend) (simp_all add: sqlite_wf_rest tm_wf_parts)
  show ?thesis
    using w s by (auto simp: delete_history_def Let_def case_prod_beta intro!: b split: option.split sum.split)
qed

lemma tm_wf_queue_route: "tm_wf m \<Longrightarrow> tm_wf (snd (update_queue name c s actor m))"
proof -
  assume w: "tm_wf m"
  have "tm_wf (snd (update_queue_config name c s m))"
  proof (cases "dget (tm_queues m) name")
    case (Some q)
    have "tm_wf (m\<lparr>tm_queues := dset name (snd (reconfigure c s q)) (tm_queues m)\<rparr>)"
      using w Some queues_wf_name [of "tm_queues m" name q]
      by (intro tm_wf_queues queues_wf_dset) (simp_all add: tm_wf_def reconfigure_name)
    then show ?thesis using Some by (simp add: update_queue_config_def Let_def case_prod_beta split: sum.split)
  qed (use w in \<open>simp add: update_queue_config_def\<close>)
  then have u: "tm_wf m'" if "update_queue_config name c s m = (x, m')" for x m' using that by simp
  show ?thesis using w by (auto simp: update_queue_def dest: u split: prod.split sum.split)
qed

lemma tm_wf_drain:
  "tm_wf m \<Longrightarrow> dget (tm_queues m) k = Some q \<Longrightarrow> tq_name q' = tq_name q \<Longrightarrow>
   tm_wf (m\<lparr>tm_queues := dset k q' (tm_queues m)\<rparr>)"
  using queues_wf_name [of "tm_queues m" k q]
  by (intro tm_wf_queues queues_wf_dset) (simp_all add: tm_wf_def)

lemma sqlite_wf_beat: "heartbeat i t db = Inr db' \<Longrightarrow> sqlite_wf db \<Longrightarrow> sqlite_wf db'"
  by (auto simp: heartbeat_def write_entry_def bindr_def save_entries_def sqlite_wf_rest
      split: if_splits sum.splits)

lemma tm_wf_worker: "tm_wf m \<Longrightarrow> priority_worker_step m = Some m' \<Longrightarrow> tm_wf m'"
  by (auto simp: priority_worker_step_def split: if_splits option.splits)

lemma tm_step_wf: "tm_step m m' \<Longrightarrow> tm_wf m \<Longrightarrow> tm_wf m'"
proof (induction rule: tm_step.induct)
  case (run_slot m k q e b)
  have "tm_wf (m\<lparr>tm_queues := dset k (finish_slot e q) (tm_queues m)\<rparr>)"
    by (rule tm_wf_drain [OF run_slot.prems run_slot.hyps(1)]) (rule finish_slot_name)
  then show ?case using run_slot.hyps(3) by (rule tm_wf_run)
next
  case (drain m k q q')
  then show ?case by (intro tm_wf_drain) (simp_all add: drainer_step_name)
next
  case (beat m i db db')
  have "tm_wf (m\<lparr>tm_backend := Some db'\<rparr>)"
    using beat by (intro tm_wf_backend) (simp_all add: sqlite_wf_beat [OF beat.hyps(3)] tm_wf_parts)
  then show ?case by simp
next
  case (merged m http)
  then show ?case using tm_wf_merged [of m http] by (cases "merged_list http m") simp
next
  case (periodic fuel cron m m')
  then show ?case by (intro tm_wf_periodic [of m fuel cron m'])
next
  case (priority m m')
  then show ?case by (intro tm_wf_worker [of m m'])
next
  case (run_spawned m xs j ys b)
  then show ?case by (intro tm_wf_run) simp_all
next
  case (run_starlette m xs j ys b)
  then show ?case by (intro tm_wf_run) simp_all
next
  case (peer m db db')
  then show ?case by (intro tm_wf_backend) simp_all
qed (erule tm_wf_task tm_wf_schedule tm_wf_once tm_wf_cancel_once tm_wf_add_task tm_wf_startup
    tm_wf_shutdown tm_wf_turn tm_wf_deferred tm_wf_queue_route tm_wf_retry tm_wf_bulk tm_wf_retry_failed
    tm_wf_cancel tm_wf_history)+

lemma tm_reach_wf: "tm_reach m \<Longrightarrow> tm_wf m"
proof (induction rule: tm_reach.induct)
  case (fresh m)
  then show ?case by (simp add: fresh_tm_def tm_wf_def store_wf_init queues_wf_def)
qed (rule tm_step_wf)

section \<open>Properties\<close>

text \<open>C1: In every state the program can reach, whatever operations, runs, background turns and other
  instances interleave, each task id occurs once in the store, every record is filed under its own id,
  the tables of the backend have unique keys with every row under its own, and every queue is filed
  under its name.\<close>

theorem reachable_well_formed:
  assumes "tm_reach m"
  shows "distinct (map task_id (store_list (tm_store m)))
    \<and> (\<forall>k r. store_get (tm_store m) k = Some r \<longrightarrow> task_id r = k)
    \<and> (\<forall>db. tm_backend m = Some db \<longrightarrow> sqlite_wf db)
    \<and> distinct (dkeys (tm_queues m)) \<and> (\<forall>k q. dget (tm_queues m) k = Some q \<longrightarrow> tq_name q = k)"
proof -
  have w: "tm_wf m" using assms by (rule tm_reach_wf)
  have q: "queues_wf (tm_queues m)" using w by (simp add: tm_wf_def)
  show ?thesis
    using store_ids_distinct [OF tm_wf_parts(1) [OF w]] store_wf_get [OF tm_wf_parts(1) [OF w]]
      tm_wf_parts(2,3) [OF w] queues_wf_name [OF q] by blast
qed

text \<open>A manager that starts and takes one task.\<close>

lemma reachable_well_formed_witness:
  "tm_reach (snd (add_task ex_func [] [] no_opts ex_tm))
   \<and> store_list (tm_store (snd (add_task ex_func [] [] no_opts ex_tm))) \<noteq> []
   \<and> distinct (map task_id (store_list (tm_store (snd (add_task ex_func [] [] no_opts ex_tm)))))"
proof -
  have "fresh_tm ex_tm" by (simp add: fresh_tm_def ex_tm_def sqlite_wf_init)
  then have r: "tm_reach (snd (add_task ex_func [] [] no_opts ex_tm))"
    by (rule tm_reach.step [OF tm_reach.fresh tm_step.add])
  have "store_list (tm_store (snd (add_task ex_func [] [] no_opts ex_tm))) \<noteq> []" by code_simp
  then show ?thesis using r reachable_well_formed [OF r] by blast
qed

end
