(* ===== verification/Sql_Backends.thy ===== *)
theory Sql_Backends
  imports Sqlite_Backend
begin

text \<open>
  \<^verbatim>\<open>src/fastapi_taskflow/backends/postgres.py\<close> and \<^verbatim>\<open>src/fastapi_taskflow/backends/mysql.py\<close>: the
  backends on a database server. Every method is one transaction. How the server compares text is a
  parameter, since it follows from the collation of the database: \<open>co_less\<close> orders the ISO texts, and
  two strings are equal for MySQL when \<open>co_key\<close> maps them to the same (PostgreSQL compares them
  exactly). \<open>SELECT\<close> without \<open>ORDER BY\<close> returns the rows in an order of its own; the tables keep one.
  Neither backend overrides the metadata methods of the base class.
\<close>

record collation =
  co_key :: "string \<Rightarrow> string"
  co_less :: "isotext \<Rightarrow> isotext \<Rightarrow> bool"

definition text_le :: "collation \<Rightarrow> isotext \<Rightarrow> isotext \<Rightarrow> bool" where
  "text_le co a b \<longleftrightarrow> a = b \<or> co_less co a b"

text \<open>The binary collation: byte by byte.\<close>

definition binary :: collation where
  "binary = \<lparr>co_key = (\<lambda>s. s), co_less = iso_less\<rparr>"

record sql_db =
  db_history :: "(string, hist_row) dict"
  db_pending :: "(string, pend_row) dict"
  db_idem :: "(string, string) dict"
  db_locks :: "(string, isotext) dict"
  db_scheduled :: "(string, sched_row) dict"

definition sql_init :: sql_db where
  "sql_init = \<lparr>db_history = [], db_pending = [], db_idem = [], db_locks = [], db_scheduled = []\<rparr>"

section \<open>Statements\<close>

text \<open>\<open>ORDER BY\<close> one text column.\<close>

fun insert_by :: "('r \<Rightarrow> 'r \<Rightarrow> bool) \<Rightarrow> 'r \<Rightarrow> 'r list \<Rightarrow> 'r list" where
  "insert_by lt x [] = [x]"
| "insert_by lt x (y # ys) = (if lt y x then y # insert_by lt x ys else x # y # ys)"

definition order_by :: "('r \<Rightarrow> 'r \<Rightarrow> bool) \<Rightarrow> 'r list \<Rightarrow> 'r list" where
  "order_by lt rs = foldr (insert_by lt) rs []"

text \<open>\<open>DELETE ... WHERE\<close>: the row count and the rest.\<close>

definition delete_where :: "('k \<times> 'r \<Rightarrow> bool) \<Rightarrow> ('k, 'r) dict \<Rightarrow> nat \<times> ('k, 'r) dict" where
  "delete_where P t = (length (filter P t), filter (\<lambda>p. \<not> P p) t)"

section \<open>Rows\<close>

text \<open>\<open>_row_to_record\<close> and \<open>_row_to_pending_record\<close>, the same text in both files.\<close>

definition db_row_to_record :: "hist_row \<Rightarrow> task_record" where
  "db_row_to_record d =
     \<lparr>task_id = hr_task_id d, func_name = hr_func_name d, status = hr_status d,
      args = json_args (hr_args_json d), kwargs = json_kwargs (hr_kwargs_json d),
      created_at = fromisoformat (hr_created_at d),
      start_time = map_option fromisoformat (hr_start_time d),
      end_time = map_option fromisoformat (hr_end_time d),
      retries_used = hr_retries_used d, error = hr_error d, logs = hr_logs_json d,
      stacktrace = hr_stacktrace d, idempotency_key = None, tags = [],
      encrypted_payload = nonempty (hr_encrypted_payload d),
      source = or_default (hr_source d) ''manual'', priority = hr_priority d,
      executor = hr_executor d, queue = or_default (hr_queue d) ''default''\<rparr>"

definition db_row_to_pending :: "pend_row \<Rightarrow> task_record" where
  "db_row_to_pending d =
     \<lparr>task_id = pr_task_id d, func_name = pr_func_name d, status = PENDING,
      args = json_args (pr_args_json d), kwargs = json_kwargs (pr_kwargs_json d),
      created_at = fromisoformat (pr_created_at d), start_time = None, end_time = None,
      retries_used = pr_retries_used d, error = None, logs = [], stacktrace = None,
      idempotency_key = None, tags = [],
      encrypted_payload = nonempty (pr_encrypted_payload d), source = ''manual'',
      priority = None, executor = None, queue = or_default (pr_queue d) ''default''\<rparr>"

text \<open>The base class's \<open>row_to_scheduled\<close> on a tuple of the columns: empty bytes stay bytes.\<close>

definition tuple_to_scheduled :: "sched_row \<Rightarrow> scheduled_once" where
  "tuple_to_scheduled d =
     \<lparr>so_run_key = sr_run_key d, so_func_name = sr_func_name d,
      so_fire_at = fromisoformat (sr_fire_at d), so_args = json_args (sr_args_json d),
      so_kwargs = json_kwargs (sr_kwargs_json d), so_encrypted_payload = sr_encrypted_payload d,
      so_queue = or_default (sr_queue d) ''default'', so_priority = sr_priority d,
      so_idempotency_key = sr_idempotency_key d, so_tags = sr_tags d,
      so_created_at = fromisoformat (sr_created_at d)\<rparr>"

text \<open>
  The same function on a row of MySQL's \<open>DictCursor\<close>: unpacking a dictionary yields its keys, so
  every variable holds a column name and \<open>fire_at\<close> does not parse.
\<close>

definition dict_to_scheduled :: "sched_row \<Rightarrow> py_exc + scheduled_once" where
  "dict_to_scheduled d = Inl (ValueError ''Invalid isoformat string: fire_at'')"

section \<open>PostgreSQL\<close>

text \<open>\<open>INSERT ... ON CONFLICT DO UPDATE\<close> on the primary key is \<open>dset\<close>; \<open>DO NOTHING\<close> is \<open>insert_or_ignore\<close>.\<close>

definition pg_save :: "int \<Rightarrow> task_record list \<Rightarrow> sql_db \<Rightarrow> nat \<times> sql_db" where
  "pg_save now rs db =
     (length rs,
      db\<lparr>db_history := fold (\<lambda>r. dset (hr_task_id r) r)
           (map (record_to_row (isoformat (naive_dt now))) rs) (db_history db)\<rparr>)"

definition pg_save_pending :: "task_record list \<Rightarrow> sql_db \<Rightarrow> nat \<times> sql_db" where
  "pg_save_pending rs db =
     (length rs, db\<lparr>db_pending := fold (\<lambda>r. dset (pr_task_id r) r) (map record_to_pend rs) []\<rparr>)"

definition pg_load :: "sql_db \<Rightarrow> task_record list" where
  "pg_load db = map db_row_to_record (dvals (db_history db))"

definition pg_load_pending :: "sql_db \<Rightarrow> task_record list" where
  "pg_load_pending db = map db_row_to_pending (dvals (db_pending db))"

definition pg_clear_pending :: "sql_db \<Rightarrow> sql_db" where
  "pg_clear_pending db = db\<lparr>db_pending := []\<rparr>"

definition pg_claim_pending :: "string \<Rightarrow> sql_db \<Rightarrow> bool \<times> sql_db" where
  "pg_claim_pending tid db =
     (let (n, t) = delete_where (\<lambda>(k, r). k = tid) (db_pending db) in (n = 1, db\<lparr>db_pending := t\<rparr>))"

definition pg_save_scheduled :: "scheduled_once \<Rightarrow> sql_db \<Rightarrow> sql_db" where
  "pg_save_scheduled e db = db\<lparr>db_scheduled := dset (so_run_key e) (sched_to_row e) (db_scheduled db)\<rparr>"

definition pg_load_due :: "collation \<Rightarrow> datetime \<Rightarrow> sql_db \<Rightarrow> scheduled_once list" where
  "pg_load_due co before db =
     map tuple_to_scheduled
       (order_by (\<lambda>a b. co_less co (sr_fire_at a) (sr_fire_at b))
          (filter (\<lambda>r. text_le co (sr_fire_at r) (isoformat before)) (dvals (db_scheduled db))))"

definition pg_delete_scheduled :: "string \<Rightarrow> sql_db \<Rightarrow> bool \<times> sql_db" where
  "pg_delete_scheduled key db =
     (let (n, t) = delete_where (\<lambda>(k, r). k = key) (db_scheduled db) in (n = 1, db\<lparr>db_scheduled := t\<rparr>))"

definition pg_check_idempotency_key :: "sql_db \<Rightarrow> string \<Rightarrow> string option" where
  "pg_check_idempotency_key db k = dget (db_idem db) k"

definition pg_record_idempotency_key :: "string \<Rightarrow> string \<Rightarrow> sql_db \<Rightarrow> sql_db" where
  "pg_record_idempotency_key k tid db = db\<lparr>db_idem := snd (insert_or_ignore k tid (db_idem db))\<rparr>"

definition ended_before :: "collation \<Rightarrow> isotext \<Rightarrow> hist_row \<Rightarrow> bool" where
  "ended_before co cutoff r \<longleftrightarrow>
     (case hr_end_time r of None \<Rightarrow> False | Some e \<Rightarrow> co_less co e cutoff)
     \<and> hr_status r \<in> {SUCCESS, FAILED, INTERRUPTED}"

definition pg_delete_before :: "collation \<Rightarrow> datetime \<Rightarrow> sql_db \<Rightarrow> nat \<times> sql_db" where
  "pg_delete_before co cutoff db =
     (let (n, t) = delete_where (\<lambda>(k, r). ended_before co (isoformat cutoff) r) (db_history db)
      in (n, db\<lparr>db_history := t\<rparr>))"

definition pg_delete_records :: "string list \<Rightarrow> sql_db \<Rightarrow> nat \<times> sql_db" where
  "pg_delete_records ids db =
     (if ids = [] then (0, db)
      else let (n, t) = delete_where (\<lambda>(k, r). k \<in> set ids) (db_history db) in (n, db\<lparr>db_history := t\<rparr>))"

definition pg_completed_ids :: "string list \<Rightarrow> sql_db \<Rightarrow> string list" where
  "pg_completed_ids ids db =
     (if ids = [] then []
      else map fst (filter (\<lambda>(k, r). k \<in> set ids \<and> hr_status r = SUCCESS) (db_history db)))"

definition pg_acquire_schedule_lock ::
  "collation \<Rightarrow> string \<Rightarrow> int \<Rightarrow> int \<Rightarrow> sql_db \<Rightarrow> bool \<times> sql_db" where
  "pg_acquire_schedule_lock co key ttl now db =
     (let t = snd (delete_where (\<lambda>(k, e). k = key \<and> text_le co e (isoformat (naive_dt now))) (db_locks db));
          (ok, t') = insert_or_ignore key (isoformat (naive_dt (now + ttl * 1000000))) t
      in (ok, db\<lparr>db_locks := t'\<rparr>))"

section \<open>MySQL\<close>

text \<open>
  \<open>INSERT ... ON DUPLICATE KEY UPDATE\<close>: a row whose key is equal under the collation takes the new
  columns but keeps its own key column, which \<open>own\<close> writes.
\<close>

fun my_upsert ::
  "collation \<Rightarrow> (string \<Rightarrow> 'r \<Rightarrow> 'r) \<Rightarrow> string \<Rightarrow> 'r \<Rightarrow> (string, 'r) dict \<Rightarrow> (string, 'r) dict" where
  "my_upsert co own k r [] = [(k, r)]"
| "my_upsert co own k r ((j, q) # t) =
     (if co_key co j = co_key co k then (j, own j r) # t else (j, q) # my_upsert co own k r t)"

text \<open>\<open>INSERT IGNORE\<close>, and a lookup by key.\<close>

definition my_insert_ignore :: "collation \<Rightarrow> string \<Rightarrow> 'v \<Rightarrow> (string, 'v) dict \<Rightarrow> bool \<times> (string, 'v) dict" where
  "my_insert_ignore co k v t =
     (if \<exists>j \<in> set (dkeys t). co_key co j = co_key co k then (False, t) else (True, t @ [(k, v)]))"

definition my_find :: "collation \<Rightarrow> string \<Rightarrow> (string, 'v) dict \<Rightarrow> 'v option" where
  "my_find co k t = map_option snd (find (\<lambda>(j, v). co_key co j = co_key co k) t)"

definition my_save :: "collation \<Rightarrow> int \<Rightarrow> task_record list \<Rightarrow> sql_db \<Rightarrow> nat \<times> sql_db" where
  "my_save co now rs db =
     (length rs,
      db\<lparr>db_history := fold (\<lambda>r. my_upsert co (\<lambda>j r. r\<lparr>hr_task_id := j\<rparr>) (hr_task_id r) r)
           (map (record_to_row (isoformat (naive_dt now))) rs) (db_history db)\<rparr>)"

definition my_save_pending :: "collation \<Rightarrow> task_record list \<Rightarrow> sql_db \<Rightarrow> nat \<times> sql_db" where
  "my_save_pending co rs db =
     (length rs,
      db\<lparr>db_pending := fold (\<lambda>r. my_upsert co (\<lambda>j r. r\<lparr>pr_task_id := j\<rparr>) (pr_task_id r) r)
           (map record_to_pend rs) []\<rparr>)"

definition my_load :: "sql_db \<Rightarrow> task_record list" where
  "my_load db = map db_row_to_record (dvals (db_history db))"

definition my_load_pending :: "sql_db \<Rightarrow> task_record list" where
  "my_load_pending db = map db_row_to_pending (dvals (db_pending db))"

definition my_clear_pending :: "sql_db \<Rightarrow> sql_db" where
  "my_clear_pending db = db\<lparr>db_pending := []\<rparr>"

definition my_claim_pending :: "collation \<Rightarrow> string \<Rightarrow> sql_db \<Rightarrow> bool \<times> sql_db" where
  "my_claim_pending co tid db =
     (let (n, t) = delete_where (\<lambda>(k, r). co_key co k = co_key co tid) (db_pending db)
      in (n = 1, db\<lparr>db_pending := t\<rparr>))"

definition my_save_scheduled :: "collation \<Rightarrow> scheduled_once \<Rightarrow> sql_db \<Rightarrow> sql_db" where
  "my_save_scheduled co e db =
     db\<lparr>db_scheduled := my_upsert co (\<lambda>j r. r\<lparr>sr_run_key := j\<rparr>) (so_run_key e) (sched_to_row e)
                          (db_scheduled db)\<rparr>"

definition my_load_due :: "collation \<Rightarrow> datetime \<Rightarrow> sql_db \<Rightarrow> py_exc + scheduled_once list" where
  "my_load_due co before db =
     seqm (map dict_to_scheduled
       (order_by (\<lambda>a b. co_less co (sr_fire_at a) (sr_fire_at b))
          (filter (\<lambda>r. text_le co (sr_fire_at r) (isoformat before)) (dvals (db_scheduled db)))))"

definition my_delete_scheduled :: "collation \<Rightarrow> string \<Rightarrow> sql_db \<Rightarrow> bool \<times> sql_db" where
  "my_delete_scheduled co key db =
     (let (n, t) = delete_where (\<lambda>(k, r). co_key co k = co_key co key) (db_scheduled db)
      in (n = 1, db\<lparr>db_scheduled := t\<rparr>))"

definition my_check_idempotency_key :: "collation \<Rightarrow> sql_db \<Rightarrow> string \<Rightarrow> string option" where
  "my_check_idempotency_key co db k = my_find co k (db_idem db)"

definition my_record_idempotency_key :: "collation \<Rightarrow> string \<Rightarrow> string \<Rightarrow> sql_db \<Rightarrow> sql_db" where
  "my_record_idempotency_key co k tid db = db\<lparr>db_idem := snd (my_insert_ignore co k tid (db_idem db))\<rparr>"

definition my_delete_before :: "collation \<Rightarrow> datetime \<Rightarrow> sql_db \<Rightarrow> nat \<times> sql_db" where
  "my_delete_before co cutoff db =
     (let (n, t) = delete_where (\<lambda>(k, r). ended_before co (isoformat cutoff) r) (db_history db)
      in (n, db\<lparr>db_history := t\<rparr>))"

definition my_delete_records :: "collation \<Rightarrow> string list \<Rightarrow> sql_db \<Rightarrow> nat \<times> sql_db" where
  "my_delete_records co ids db =
     (if ids = [] then (0, db)
      else let (n, t) = delete_where (\<lambda>(k, r). co_key co k \<in> co_key co ` set ids) (db_history db)
           in (n, db\<lparr>db_history := t\<rparr>))"

definition my_completed_ids :: "collation \<Rightarrow> string list \<Rightarrow> sql_db \<Rightarrow> string list" where
  "my_completed_ids co ids db =
     (if ids = [] then []
      else map fst (filter (\<lambda>(k, r). co_key co k \<in> co_key co ` set ids \<and> hr_status r = SUCCESS)
             (db_history db)))"

definition my_acquire_schedule_lock ::
  "collation \<Rightarrow> string \<Rightarrow> int \<Rightarrow> int \<Rightarrow> sql_db \<Rightarrow> bool \<times> sql_db" where
  "my_acquire_schedule_lock co key ttl now db =
     (let t = snd (delete_where
                (\<lambda>(k, e). co_key co k = co_key co key \<and> text_le co e (isoformat (naive_dt now))) (db_locks db));
          (ok, t') = my_insert_ignore co key (isoformat (naive_dt (now + ttl * 1000000))) t
      in (ok, db\<lparr>db_locks := t'\<rparr>))"

section \<open>Inherited from the base class\<close>

text \<open>Neither backend stores metadata: a write is dropped and every key is absent.\<close>

definition base_save_metadata :: "string \<Rightarrow> json \<Rightarrow> sql_db \<Rightarrow> sql_db" where
  "base_save_metadata k v db = db"

definition base_load_metadata :: "sql_db \<Rightarrow> string \<Rightarrow> json option" where
  "base_load_metadata db k = None"

section \<open>MySQL under the binary collation\<close>

lemma binary_simps [simp]: "co_key binary = (\<lambda>s. s)" "co_less binary = iso_less" "text_le binary = iso_le"
  by (simp_all add: binary_def text_le_def iso_le_def fun_eq_iff)

lemma my_upsert_binary: "own k r = r \<Longrightarrow> my_upsert binary own k r t = dset k r t"
  by (induction t) auto

lemma my_insert_ignore_binary: "my_insert_ignore binary k v t = insert_or_ignore k v t"
  by (auto simp: my_insert_ignore_def insert_or_ignore_def)

lemma my_find_binary: "my_find binary k t = dget t k"
  by (induction t) (auto simp: my_find_def)

end
