(* ===== verification/Backend_Contract.thy ===== *)
theory Backend_Contract
  imports Sql_Backends
begin

text \<open>
  The contract of \<^verbatim>\<open>src/fastapi_taskflow/backends/base.py\<close> as a specification on maps, and the SQL
  backends as its refinements. A backend is driven by a sequence of operations; what it answers is
  compared up to the order of rows, which the contract leaves open.
\<close>

section \<open>Operations and answers\<close>

datatype backend_op =
    OSave int "task_record list"
  | OLoad
  | OSavePending "task_record list"
  | OLoadPending
  | OClearPending
  | OClaimPending string
  | OSaveScheduled scheduled_once
  | OLoadDue datetime
  | OClaimScheduled string
  | OCheckKey string
  | ORecordKey string string
  | ODeleteBefore datetime
  | ODeleteRecords "string list"
  | OCompletedIds "string list"
  | OAcquireLock string int int

datatype backend_obs =
    BUnit
  | BCount nat
  | BBool bool
  | BKey "string option"
  | BIds "string set"
  | BRecords "task_record set"
  | BDue "scheduled_once set"
  | BRaised py_exc

fun run_ops :: "(backend_op \<Rightarrow> 'db \<Rightarrow> backend_obs \<times> 'db) \<Rightarrow> backend_op list \<Rightarrow> 'db \<Rightarrow> backend_obs list \<times> 'db" where
  "run_ops step [] db = ([], db)"
| "run_ops step (x # xs) db =
     (let (b, db1) = step x db; (bs, db2) = run_ops step xs db1 in (b # bs, db2))"

section \<open>The specification\<close>

record spec_db =
  sp_history :: "string \<rightharpoonup> hist_row"
  sp_pending :: "string \<rightharpoonup> pend_row"
  sp_idem :: "string \<rightharpoonup> string"
  sp_locks :: "string \<rightharpoonup> isotext"
  sp_scheduled :: "string \<rightharpoonup> sched_row"

definition put_all :: "('r \<Rightarrow> 'k) \<Rightarrow> 'r list \<Rightarrow> ('k \<rightharpoonup> 'r) \<Rightarrow> 'k \<rightharpoonup> 'r" where
  "put_all key rs h = fold (\<lambda>r h. h(key r \<mapsto> r)) rs h"

definition lock_free :: "(string \<rightharpoonup> isotext) \<Rightarrow> string \<Rightarrow> int \<Rightarrow> bool" where
  "lock_free l k now \<longleftrightarrow> (case l k of None \<Rightarrow> True | Some e \<Rightarrow> iso_le e (isoformat (naive_dt now)))"

fun spec_op :: "backend_op \<Rightarrow> spec_db \<Rightarrow> backend_obs \<times> spec_db" where
  "spec_op (OSave now rs) s =
     (BCount (length rs),
      s\<lparr>sp_history := put_all hr_task_id (map (record_to_row (isoformat (naive_dt now))) rs) (sp_history s)\<rparr>)"
| "spec_op OLoad s = (BRecords (row_to_record ` ran (sp_history s)), s)"
| "spec_op (OSavePending rs) s =
     (BCount (length rs), s\<lparr>sp_pending := put_all pr_task_id (map record_to_pend rs) Map.empty\<rparr>)"
| "spec_op OLoadPending s = (BRecords (pend_to_record ` ran (sp_pending s)), s)"
| "spec_op OClearPending s = (BUnit, s\<lparr>sp_pending := Map.empty\<rparr>)"
| "spec_op (OClaimPending k) s = (BBool (sp_pending s k \<noteq> None), s\<lparr>sp_pending := (sp_pending s)(k := None)\<rparr>)"
| "spec_op (OSaveScheduled e) s =
     (BUnit, s\<lparr>sp_scheduled := (sp_scheduled s)(so_run_key e \<mapsto> sched_to_row e)\<rparr>)"
| "spec_op (OLoadDue b) s =
     (BDue (row_to_scheduled ` {r \<in> ran (sp_scheduled s). iso_le (sr_fire_at r) (isoformat b)}), s)"
| "spec_op (OClaimScheduled k) s =
     (BBool (sp_scheduled s k \<noteq> None), s\<lparr>sp_scheduled := (sp_scheduled s)(k := None)\<rparr>)"
| "spec_op (OCheckKey k) s = (BKey (sp_idem s k), s)"
| "spec_op (ORecordKey k t) s =
     (BUnit, if sp_idem s k = None then s\<lparr>sp_idem := (sp_idem s)(k \<mapsto> t)\<rparr> else s)"
| "spec_op (ODeleteBefore c) s =
     (BCount (card {k. \<exists>r. sp_history s k = Some r \<and> row_expired (isoformat c) r}),
      s\<lparr>sp_history := (\<lambda>k. case sp_history s k of None \<Rightarrow> None
          | Some r \<Rightarrow> if row_expired (isoformat c) r then None else Some r)\<rparr>)"
| "spec_op (ODeleteRecords ids) s =
     (BCount (card {k. sp_history s k \<noteq> None \<and> k \<in> set ids}),
      s\<lparr>sp_history := (\<lambda>k. if k \<in> set ids then None else sp_history s k)\<rparr>)"
| "spec_op (OCompletedIds ids) s =
     (BIds {k \<in> set ids. \<exists>r. sp_history s k = Some r \<and> hr_status r = SUCCESS}, s)"
| "spec_op (OAcquireLock k ttl now) s =
     (if lock_free (sp_locks s) k now
      then (BBool True, s\<lparr>sp_locks := (sp_locks s)(k \<mapsto> isoformat (naive_dt (now + ttl * 1000000)))\<rparr>)
      else (BBool False, s))"

section \<open>The contract\<close>

text \<open>
  \<open>view\<close> abstracts a backend state, \<open>good\<close> holds in every state the backend can reach, and \<open>served\<close>
  are the operations on which the backend keeps the contract.
\<close>

locale snapshot_contract =
  fixes step :: "backend_op \<Rightarrow> 'db \<Rightarrow> backend_obs \<times> 'db"
    and view :: "'db \<Rightarrow> spec_db" and good :: "'db \<Rightarrow> bool" and served :: "backend_op \<Rightarrow> bool"
  assumes step_good: "good db \<Longrightarrow> served x \<Longrightarrow> good (snd (step x db))"
    and step_answer: "good db \<Longrightarrow> served x \<Longrightarrow> fst (step x db) = fst (spec_op x (view db))"
    and step_view: "good db \<Longrightarrow> served x \<Longrightarrow> view (snd (step x db)) = snd (spec_op x (view db))"
begin

lemma run_refines:
  "good db \<Longrightarrow> list_all served xs \<Longrightarrow>
   fst (run_ops step xs db) = fst (run_ops spec_op xs (view db))
   \<and> view (snd (run_ops step xs db)) = snd (run_ops spec_op xs (view db))
   \<and> good (snd (run_ops step xs db))"
proof (induction xs arbitrary: db)
  case (Cons x xs)
  then have "good (snd (step x db))" using step_good by simp
  from Cons.IH [OF this] Cons.prems show ?case
    by (simp add: step_answer step_view case_prod_beta Let_def)
qed simp

end

text \<open>Two backends under one contract cannot be told apart.\<close>

locale same_contract =
  a: snapshot_contract step1 view1 good1 served1 + b: snapshot_contract step2 view2 good2 served2
  for step1 :: "backend_op \<Rightarrow> 'a \<Rightarrow> backend_obs \<times> 'a" and view1 good1 served1
    and step2 :: "backend_op \<Rightarrow> 'b \<Rightarrow> backend_obs \<times> 'b" and view2 good2 served2
begin

lemma run_agree:
  assumes "good1 da" and "good2 db" and "view1 da = view2 db"
    and "list_all (\<lambda>x. served1 x \<and> served2 x) xs"
  shows "fst (run_ops step1 xs da) = fst (run_ops step2 xs db)"
  using a.run_refines [OF assms(1), of xs] b.run_refines [OF assms(2), of xs] assms(3,4)
  by (simp add: list_all_iff)

end

section \<open>Tables as maps\<close>

lemma ran_dget: "dwf t \<Longrightarrow> ran (dget t) = set (dvals t)"
  by (simp add: ran_distinct)

lemma dget_filter:
  "dwf t \<Longrightarrow> dget (filter P t) k = (case dget t k of None \<Rightarrow> None | Some r \<Rightarrow> if P (k, r) then Some r else None)"
proof (induction t)
  case (Cons p t)
  obtain j r where p: "p = (j, r)" by (cases p)
  then have "j \<notin> set (dkeys t)" "dwf t" using Cons.prems by auto
  then show ?case using Cons.IH p dget_None_iff [of t j] by (auto split: option.splits)
qed simp

lemma count_rows:
  assumes "dwf t"
  shows "length (filter P t) = card {k. \<exists>r. dget t k = Some r \<and> P (k, r)}"
proof -
  have "distinct (map fst (filter P t))" using assms by (rule distinct_map_filter)
  moreover have "set (map fst (filter P t)) = {k. \<exists>r. dget t k = Some r \<and> P (k, r)}"
    using dget_mem [OF assms] by force
  ultimately show ?thesis using distinct_card [of "map fst (filter P t)"] by (metis length_map)
qed

lemma dget_replace: "dget (replace_row k r t) = (dget t)(k \<mapsto> r)"
  by (auto simp: fun_eq_iff)

lemma put_all_Cons: "put_all key (r # rs) h = put_all key rs (h(key r \<mapsto> r))"
  by (simp add: put_all_def)

lemma put_all_Nil: "put_all key [] h = h"
  by (simp add: put_all_def)

lemma dget_put_all:
  "dget (fold (\<lambda>r. dset (key r) r) rs t) = put_all key rs (dget t)"
  "dget (fold (\<lambda>r. replace_row (key r) r) rs t) = put_all key rs (dget t)"
  by (induction rs arbitrary: t)
    (simp_all add: put_all_Cons put_all_Nil update_conv' dget_replace del: dget_replace_row)

lemma row_keys: "hr_task_id (record_to_row n r) = task_id r" "pr_task_id (record_to_pend r) = task_id r"
  by (simp_all add: record_to_row_def record_to_pend_def)

section \<open>SQLite\<close>

fun sqlite_op :: "backend_op \<Rightarrow> sqlite \<Rightarrow> backend_obs \<times> sqlite" where
  "sqlite_op (OSave now rs) db = (let (n, db') = sq_save now rs db in (BCount n, db'))"
| "sqlite_op OLoad db = (BRecords (set (sq_load db)), db)"
| "sqlite_op (OSavePending rs) db = (let (n, db') = sq_save_pending rs db in (BCount n, db'))"
| "sqlite_op OLoadPending db = (BRecords (set (sq_load_pending db)), db)"
| "sqlite_op OClearPending db = (BUnit, sq_clear_pending db)"
| "sqlite_op (OClaimPending k) db = (let (b, db') = sq_claim_pending k db in (BBool b, db'))"
| "sqlite_op (OSaveScheduled e) db = (BUnit, sq_save_scheduled e db)"
| "sqlite_op (OLoadDue b) db = (BDue (set (sq_load_due b db)), db)"
| "sqlite_op (OClaimScheduled k) db = (let (b, db') = sq_claim_scheduled k db in (BBool b, db'))"
| "sqlite_op (OCheckKey k) db = (BKey (sq_check_idempotency_key db k), db)"
| "sqlite_op (ORecordKey k t) db = (BUnit, sq_record_idempotency_key k t db)"
| "sqlite_op (ODeleteBefore c) db = (let (n, db') = sq_delete_before c db in (BCount n, db'))"
| "sqlite_op (ODeleteRecords ids) db = (let (n, db') = sq_delete_records ids db in (BCount n, db'))"
| "sqlite_op (OCompletedIds ids) db = (BIds (set (sq_completed_ids ids db)), db)"
| "sqlite_op (OAcquireLock k ttl now) db =
     (let (b, db') = sq_acquire_schedule_lock k ttl now db in (BBool b, db'))"

definition sqlite_view :: "sqlite \<Rightarrow> spec_db" where
  "sqlite_view db =
     \<lparr>sp_history = dget (sq_history db), sp_pending = dget (sq_pending db), sp_idem = dget (sq_idem db),
      sp_locks = (\<lambda>k. map_option (\<lambda>e. isoformat (naive_dt e)) (dget (sq_locks db) k)),
      sp_scheduled = dget (sq_scheduled db)\<rparr>"

lemma sqlite_history_view:
  "sq_pending (fold put_row rs db) = sq_pending db" "sq_idem (fold put_row rs db) = sq_idem db"
  "sq_locks (fold put_row rs db) = sq_locks db" "sq_scheduled (fold put_row rs db) = sq_scheduled db"
  "sq_history (fold put_row rs db) = fold (\<lambda>r. replace_row (hr_task_id r) r) rs (sq_history db)"
  by (induction rs arbitrary: db) (simp_all add: put_row_def)

lemma sqlite_step_good: "sqlite_wf db \<Longrightarrow> sqlite_wf (snd (sqlite_op x db))"
proof (cases x)
  case (OClaimScheduled k)
  then show "sqlite_wf db \<Longrightarrow> ?thesis" by (simp add: case_prod_beta Let_def sqlite_wf_rest sq_claim_scheduled_def)
qed (simp_all add: case_prod_beta Let_def sqlite_wf_rest sqlite_wf_save sqlite_wf_save_pending)

lemma delete_row_map: "dget (snd (delete_row k t)) = (dget t)(k := None)"
  by (auto simp: fun_eq_iff dget_delete_row)

lemma claimed_row: "dwf t \<Longrightarrow> (fst (delete_row k t) = 1) = (dget t k \<noteq> None)"
  using delete_row_count [of t k] by (simp add: dget_None_iff)

lemma sqlite_lock_free:
  assumes "sqlite_wf db"
  shows "lock_free (sp_locks (sqlite_view db)) k now = fst (sq_acquire_schedule_lock k ttl now db)"
  using schedule_lock.precise_iff [OF assms, of k ttl now]
  by (auto simp: lock_free_def sqlite_view_def lock_expiry_def iso_le_naive split: option.splits)

lemma sqlite_step_view: "sqlite_wf db \<Longrightarrow> sqlite_view (snd (sqlite_op x db)) = snd (spec_op x (sqlite_view db))"
proof -
  assume g: "sqlite_wf db"
  note w = sqlite_wf_dwf [OF g]
  show ?thesis
  proof (cases x)
    case (OSave now rs)
    then show ?thesis
      by (simp add: sqlite_view_def sq_save_def sqlite_history_view dget_put_all)
  next
    case (OSavePending rs)
    have e: "dget [] = (Map.empty :: string \<rightharpoonup> pend_row)" by simp
    show ?thesis unfolding OSavePending
      using dget_put_all(2) [of pr_task_id "map record_to_pend rs" "[]"]
      by (simp add: sqlite_view_def sq_save_pending_def)
  next
    case (ODeleteBefore c)
    then show ?thesis
      by (simp add: sqlite_view_def sq_delete_before_def fun_eq_iff dget_filter [OF w(1)]
          split: option.split)
  next
    case (ODeleteRecords ids)
    then show ?thesis
      by (auto simp: sqlite_view_def sq_delete_records_def fun_eq_iff dget_filter [OF w(1)]
          split: option.split)
  next
    case (ORecordKey k t)
    then show ?thesis
      by (auto simp: sqlite_view_def sq_record_idempotency_key_def fun_eq_iff dget_insert_or_ignore)
  next
    case (OAcquireLock k ttl now)
    let ?db = "snd (sq_acquire_schedule_lock k ttl now db)" and ?ok = "fst (sq_acquire_schedule_lock k ttl now db)"
    have l: "lock_expiry ?db j = (if j = k \<and> ?ok then Some (now + ttl * 1000000) else lock_expiry db j)" for j
      using schedule_lock.precise_held [OF g, of k ttl now] by simp
    have r: "?db = db\<lparr>sq_locks := sq_locks ?db\<rparr>" unfolding sq_acquire_unfold by (simp add: Let_def)
    have "sqlite_view ?db = (sqlite_view db)\<lparr>sp_locks :=
            (\<lambda>j. map_option (\<lambda>e. isoformat (naive_dt e)) (lock_expiry ?db j))\<rparr>"
      by (subst r) (simp add: sqlite_view_def lock_expiry_def)
    moreover have "(\<lambda>j. map_option (\<lambda>e. isoformat (naive_dt e)) (lock_expiry ?db j))
        = (if ?ok then (sp_locks (sqlite_view db))(k \<mapsto> isoformat (naive_dt (now + ttl * 1000000)))
           else sp_locks (sqlite_view db))"
      by (auto simp: fun_eq_iff l) (simp_all add: sqlite_view_def lock_expiry_def)
    ultimately show ?thesis
      unfolding OAcquireLock using sqlite_lock_free [OF g, of k now ttl] by (simp add: case_prod_beta Let_def)
  qed (simp_all add: sqlite_view_def sq_clear_pending_def sq_claim_pending_def sq_claim_scheduled_def
      sq_delete_scheduled_def sq_save_scheduled_def case_prod_beta Let_def delete_row_map dget_replace fun_upd_def)
qed

lemma set_order_by [simp]: "set (order_by lt rs) = set rs"
proof -
  have "set (insert_by lt x ys) = insert x (set ys)" for x ys by (induction ys) auto
  then show ?thesis by (induction rs) (simp_all add: order_by_def)
qed

lemma completed_set:
  assumes "dwf t"
  shows "set (map fst (filter (\<lambda>(k, r). k \<in> set ids \<and> P r) t))
           = {k \<in> set ids. \<exists>r. dget t k = Some r \<and> P r}"
  using dget_mem [OF assms] by force

lemma sqlite_step_answer: "sqlite_wf db \<Longrightarrow> fst (sqlite_op x db) = fst (spec_op x (sqlite_view db))"
proof -
  assume g: "sqlite_wf db"
  note w = sqlite_wf_dwf [OF g]
  show ?thesis
  proof (cases x)
    case OLoad
    then show ?thesis by (simp add: sqlite_view_def sq_load_def ran_dget [OF w(1)] image_image)
  next
    case OLoadPending
    then show ?thesis by (simp add: sqlite_view_def sq_load_pending_def ran_dget [OF w(2)] image_image)
  next
    case (OClaimPending k)
    then show ?thesis
      using claimed_row [OF w(2)] by (simp add: sqlite_view_def case_prod_beta Let_def claim_pending_simps)
  next
    case (OClaimScheduled k)
    then show ?thesis
      using claimed_row [OF w(3)] by (simp add: sqlite_view_def case_prod_beta Let_def claim_scheduled_simps)
  next
    case (OLoadDue b)
    then show ?thesis by (simp add: sqlite_view_def sq_load_due_def ran_dget [OF w(3)])
  next
    case (ODeleteBefore c)
    then show ?thesis by (simp add: sqlite_view_def sq_delete_before_def count_rows [OF w(1)])
  next
    case (ODeleteRecords ids)
    then show ?thesis
      by (simp add: sqlite_view_def sq_delete_records_def count_rows [OF w(1)])
  next
    case (OCompletedIds ids)
    have "set (sq_completed_ids ids db) = {k \<in> set ids. \<exists>r. dget (sq_history db) k = Some r \<and> hr_status r = SUCCESS}"
      using completed_set [OF w(1), of ids "\<lambda>r. hr_status r = SUCCESS"] by (auto simp: sq_completed_ids_def)
    then show ?thesis unfolding OCompletedIds by (simp add: sqlite_view_def)
  next
    case (OAcquireLock k ttl now)
    then show ?thesis using sqlite_lock_free [OF g, of k now ttl] by (simp add: case_prod_beta Let_def)
  qed (simp_all add: sqlite_view_def sq_save_def sq_save_pending_def sq_check_idempotency_key_def)
qed

interpretation sqlite: snapshot_contract sqlite_op sqlite_view sqlite_wf "\<lambda>x. True"
  by unfold_locales (simp_all add: sqlite_step_good sqlite_step_answer sqlite_step_view)

section \<open>PostgreSQL and MySQL\<close>

fun pg_op :: "collation \<Rightarrow> backend_op \<Rightarrow> sql_db \<Rightarrow> backend_obs \<times> sql_db" where
  "pg_op co (OSave now rs) db = (let (n, db') = pg_save now rs db in (BCount n, db'))"
| "pg_op co OLoad db = (BRecords (set (pg_load db)), db)"
| "pg_op co (OSavePending rs) db = (let (n, db') = pg_save_pending rs db in (BCount n, db'))"
| "pg_op co OLoadPending db = (BRecords (set (pg_load_pending db)), db)"
| "pg_op co OClearPending db = (BUnit, pg_clear_pending db)"
| "pg_op co (OClaimPending k) db = (let (b, db') = pg_claim_pending k db in (BBool b, db'))"
| "pg_op co (OSaveScheduled e) db = (BUnit, pg_save_scheduled e db)"
| "pg_op co (OLoadDue b) db = (BDue (set (pg_load_due co b db)), db)"
| "pg_op co (OClaimScheduled k) db = (let (b, db') = pg_delete_scheduled k db in (BBool b, db'))"
| "pg_op co (OCheckKey k) db = (BKey (pg_check_idempotency_key db k), db)"
| "pg_op co (ORecordKey k t) db = (BUnit, pg_record_idempotency_key k t db)"
| "pg_op co (ODeleteBefore c) db = (let (n, db') = pg_delete_before co c db in (BCount n, db'))"
| "pg_op co (ODeleteRecords ids) db = (let (n, db') = pg_delete_records ids db in (BCount n, db'))"
| "pg_op co (OCompletedIds ids) db = (BIds (set (pg_completed_ids ids db)), db)"
| "pg_op co (OAcquireLock k ttl now) db =
     (let (b, db') = pg_acquire_schedule_lock co k ttl now db in (BBool b, db'))"

fun my_op :: "collation \<Rightarrow> backend_op \<Rightarrow> sql_db \<Rightarrow> backend_obs \<times> sql_db" where
  "my_op co (OSave now rs) db = (let (n, db') = my_save co now rs db in (BCount n, db'))"
| "my_op co OLoad db = (BRecords (set (my_load db)), db)"
| "my_op co (OSavePending rs) db = (let (n, db') = my_save_pending co rs db in (BCount n, db'))"
| "my_op co OLoadPending db = (BRecords (set (my_load_pending db)), db)"
| "my_op co OClearPending db = (BUnit, my_clear_pending db)"
| "my_op co (OClaimPending k) db = (let (b, db') = my_claim_pending co k db in (BBool b, db'))"
| "my_op co (OSaveScheduled e) db = (BUnit, my_save_scheduled co e db)"
| "my_op co (OLoadDue b) db =
     ((case my_load_due co b db of Inl e \<Rightarrow> BRaised e | Inr es \<Rightarrow> BDue (set es)), db)"
| "my_op co (OClaimScheduled k) db = (let (b, db') = my_delete_scheduled co k db in (BBool b, db'))"
| "my_op co (OCheckKey k) db = (BKey (my_check_idempotency_key co db k), db)"
| "my_op co (ORecordKey k t) db = (BUnit, my_record_idempotency_key co k t db)"
| "my_op co (ODeleteBefore c) db = (let (n, db') = my_delete_before co c db in (BCount n, db'))"
| "my_op co (ODeleteRecords ids) db = (let (n, db') = my_delete_records co ids db in (BCount n, db'))"
| "my_op co (OCompletedIds ids) db = (BIds (set (my_completed_ids co ids db)), db)"
| "my_op co (OAcquireLock k ttl now) db =
     (let (b, db') = my_acquire_schedule_lock co k ttl now db in (BBool b, db'))"

definition sql_view :: "sql_db \<Rightarrow> spec_db" where
  "sql_view db =
     \<lparr>sp_history = dget (db_history db), sp_pending = dget (db_pending db), sp_idem = dget (db_idem db),
      sp_locks = dget (db_locks db), sp_scheduled = dget (db_scheduled db)\<rparr>"

text \<open>Unique keys; no stored payload is empty, since \<open>save_scheduled\<close> writes \<open>NULL\<close> then.\<close>

definition sql_wf :: "sql_db \<Rightarrow> bool" where
  "sql_wf db \<longleftrightarrow> dwf (db_history db) \<and> dwf (db_pending db) \<and> dwf (db_idem db) \<and> dwf (db_locks db)
     \<and> dwf (db_scheduled db) \<and> (\<forall>r \<in> set (dvals (db_scheduled db)). sr_encrypted_payload r \<noteq> Some [])"

lemma sql_wf_dwf:
  "sql_wf db \<Longrightarrow> dwf (db_history db)" "sql_wf db \<Longrightarrow> dwf (db_pending db)" "sql_wf db \<Longrightarrow> dwf (db_scheduled db)"
  "sql_wf db \<Longrightarrow> dwf (db_locks db)"
  by (simp_all add: sql_wf_def)

lemma dwf_fold_dset: "dwf t \<Longrightarrow> dwf (fold (\<lambda>r. dset (key r) r) rs t)"
  by (induction rs arbitrary: t) (simp_all add: distinct_update)

lemma dwf_delete_where: "dwf t \<Longrightarrow> dwf (snd (delete_where P t))"
  by (simp add: delete_where_def dwf_filter)

lemma sched_payload: "sr_encrypted_payload (sched_to_row e) \<noteq> Some []"
  by (simp add: sched_to_row_def nonempty_def split: option.split)

lemma pg_step_good: "sql_wf db \<Longrightarrow> sql_wf (snd (pg_op co x db))"
proof (cases x)
  case (OSaveScheduled e)
  assume g: "sql_wf db"
  have "\<forall>r \<in> set (dvals (dset k q t)). r = q \<or> r \<in> set (dvals t)" for k and q :: sched_row and t
    by (induction t) auto
  then show ?thesis using g OSaveScheduled sched_payload [of e]
    by (fastforce simp: sql_wf_def pg_save_scheduled_def distinct_update simp del: set_map)
qed (auto simp: sql_wf_def pg_save_def pg_save_pending_def pg_clear_pending_def pg_claim_pending_def
    pg_delete_scheduled_def pg_record_idempotency_key_def pg_delete_before_def pg_delete_records_def
    pg_acquire_schedule_lock_def case_prod_beta Let_def dwf_fold_dset dwf_delete_where
    dwf_insert_or_ignore delete_where_def dwf_filter)

lemma dget_delete_where:
  "dwf t \<Longrightarrow> dget (snd (delete_where P t))
     = (\<lambda>k. case dget t k of None \<Rightarrow> None | Some r \<Rightarrow> if P (k, r) then None else Some r)"
  by (auto simp: delete_where_def dget_filter fun_eq_iff split: option.split)

lemma deleted_one:
  assumes "dwf t"
  shows "(fst (delete_where (\<lambda>(j, r). j = k) t) = 1) = (dget t k \<noteq> None)"
  using claimed_row [OF assms, of k] by (simp add: delete_where_def delete_row_def)

lemma pg_lock:
  assumes "dwf t"
  shows "dget (snd (delete_where (\<lambda>(j, e). j = k \<and> iso_le e n) t)) j
     = (if j = k then case dget t k of None \<Rightarrow> None | Some e \<Rightarrow> if iso_le e n then None else Some e else dget t j)"
  by (auto simp: dget_delete_where [OF assms] split: option.split)

lemma pg_acquire:
  assumes "sql_wf db"
  shows "fst (pg_acquire_schedule_lock binary k ttl now db) = lock_free (dget (db_locks db)) k now"
    and "snd (pg_acquire_schedule_lock binary k ttl now db) = db\<lparr>db_locks := db_locks (snd (pg_acquire_schedule_lock binary k ttl now db))\<rparr>"
    and "dget (db_locks (snd (pg_acquire_schedule_lock binary k ttl now db)))
           = (if lock_free (dget (db_locks db)) k now
              then (dget (db_locks db))(k \<mapsto> isoformat (naive_dt (now + ttl * 1000000))) else dget (db_locks db))"
  using pg_lock [OF sql_wf_dwf(4) [OF assms], of k "isoformat (naive_dt now)"]
  by (auto simp: pg_acquire_schedule_lock_def case_prod_beta Let_def fst_insert_or_ignore
      dget_insert_or_ignore lock_free_def fun_eq_iff split: option.splits)

lemma ended_binary: "ended_before binary t r = row_expired t r"
  by (simp add: ended_before_def row_expired_def split: option.split)

lemma pg_step_view: "sql_wf db \<Longrightarrow> sql_view (snd (pg_op binary x db)) = snd (spec_op x (sql_view db))"
proof -
  assume g: "sql_wf db"
  note w = sql_wf_dwf [OF g]
  show ?thesis
  proof (cases x)
    case (OSave now rs)
    then show ?thesis by (simp add: sql_view_def pg_save_def dget_put_all)
  next
    case (OSavePending rs)
    show ?thesis unfolding OSavePending
      using dget_put_all(1) [of pr_task_id "map record_to_pend rs" "[]"]
      by (simp add: sql_view_def pg_save_pending_def)
  next
    case (ODeleteBefore c)
    then show ?thesis
      by (simp add: ended_binary ODeleteBefore sql_view_def pg_delete_before_def case_prod_beta Let_def dget_delete_where [OF w(1)] fun_eq_iff split: option.split)
  next
    case (ODeleteRecords ids)
    then show ?thesis
      by (auto simp: sql_view_def pg_delete_records_def case_prod_beta Let_def dget_delete_where [OF w(1)]
          fun_eq_iff split: option.split)
  next
    case (ORecordKey k t)
    then show ?thesis
      by (auto simp: sql_view_def pg_record_idempotency_key_def fun_eq_iff dget_insert_or_ignore)
  next
    case (OAcquireLock k ttl now)
    let ?db = "snd (pg_acquire_schedule_lock binary k ttl now db)"
    have "sql_view ?db = (sql_view db)\<lparr>sp_locks := dget (db_locks ?db)\<rparr>"
      by (subst pg_acquire(2) [OF g]) (simp add: sql_view_def)
    then show ?thesis
      unfolding OAcquireLock using pg_acquire(1,3) [OF g, of k ttl now]
      by (simp add: case_prod_beta Let_def sql_view_def)
  qed (auto simp: sql_view_def pg_clear_pending_def pg_claim_pending_def pg_delete_scheduled_def
      pg_save_scheduled_def case_prod_beta Let_def dget_delete_where [OF w(2)] dget_delete_where [OF w(3)]
      update_conv' fun_eq_iff split: option.split)
qed

lemma tuple_row: "sr_encrypted_payload r \<noteq> Some [] \<Longrightarrow> tuple_to_scheduled r = row_to_scheduled r"
  by (auto simp: tuple_to_scheduled_def row_to_scheduled_def nonempty_def split: option.split)

lemma pg_due:
  assumes "sql_wf db"
  shows "set (pg_load_due binary b db) = row_to_scheduled ` {r \<in> set (dvals (db_scheduled db)). iso_le (sr_fire_at r) (isoformat b)}"
proof -
  have "set (pg_load_due binary b db) = tuple_to_scheduled ` {r \<in> set (dvals (db_scheduled db)). iso_le (sr_fire_at r) (isoformat b)}"
    by (simp add: pg_load_due_def)
  also have "\<dots> = row_to_scheduled ` {r \<in> set (dvals (db_scheduled db)). iso_le (sr_fire_at r) (isoformat b)}"
    using assms by (intro image_cong refl tuple_row) (simp add: sql_wf_def del: set_map)
  finally show ?thesis .
qed

lemma db_rows: "db_row_to_record = row_to_record" "db_row_to_pending = pend_to_record"
  by (simp_all add: fun_eq_iff db_row_to_record_def row_to_record_def db_row_to_pending_def pend_to_record_def)

lemma pg_step_answer: "sql_wf db \<Longrightarrow> fst (pg_op binary x db) = fst (spec_op x (sql_view db))"
proof -
  assume g: "sql_wf db"
  note w = sql_wf_dwf [OF g]
  show ?thesis
  proof (cases x)
    case OLoad
    then show ?thesis by (simp add: sql_view_def pg_load_def ran_dget [OF w(1)] image_image db_rows)
  next
    case OLoadPending
    then show ?thesis by (simp add: sql_view_def pg_load_pending_def ran_dget [OF w(2)] image_image db_rows)
  next
    case (OClaimPending k)
    then show ?thesis using deleted_one [OF w(2), of k]
      by (simp add: sql_view_def pg_claim_pending_def case_prod_beta Let_def)
  next
    case (OClaimScheduled k)
    then show ?thesis using deleted_one [OF w(3), of k]
      by (simp add: sql_view_def pg_delete_scheduled_def case_prod_beta Let_def)
  next
    case (OLoadDue b)
    show ?thesis unfolding OLoadDue using pg_due [OF g, of b]
      by (simp add: sql_view_def ran_dget [OF w(3)] del: set_map)
  next
    case (ODeleteBefore c)
    show ?thesis unfolding ODeleteBefore
      by (simp add: ended_binary sql_view_def pg_delete_before_def delete_where_def case_prod_beta Let_def count_rows [OF w(1)])
  next
    case (ODeleteRecords ids)
    then show ?thesis
      by (simp add: sql_view_def pg_delete_records_def delete_where_def case_prod_beta Let_def count_rows [OF w(1)])
  next
    case (OCompletedIds ids)
    have "set (pg_completed_ids ids db) = {k \<in> set ids. \<exists>r. dget (db_history db) k = Some r \<and> hr_status r = SUCCESS}"
      using completed_set [OF w(1), of ids "\<lambda>r. hr_status r = SUCCESS"] by (auto simp: pg_completed_ids_def)
    then show ?thesis unfolding OCompletedIds by (simp add: sql_view_def)
  next
    case (OAcquireLock k ttl now)
    then show ?thesis using pg_acquire(1) [OF g, of k ttl now] by (simp add: case_prod_beta Let_def sql_view_def)
  qed (simp_all add: sql_view_def pg_save_def pg_save_pending_def pg_check_idempotency_key_def)
qed

interpretation postgres: snapshot_contract "pg_op binary" sql_view sql_wf "\<lambda>x. True"
  by unfold_locales (simp_all add: pg_step_good pg_step_answer pg_step_view)

text \<open>Under the binary collation MySQL's statements do what PostgreSQL's do.\<close>

lemma my_upserts_binary:
  assumes "\<And>r. own (key r) r = r"
  shows "fold (\<lambda>r. my_upsert binary own (key r) r) rs t = fold (\<lambda>r. dset (key r) r) rs t"
  by (induction rs arbitrary: t) (simp_all add: my_upsert_binary assms)

lemma my_op_binary: "\<forall>b. x \<noteq> OLoadDue b \<Longrightarrow> my_op binary x db = pg_op binary x db"
proof (cases x)
  case (OLoadDue b)
  then show "\<forall>b. x \<noteq> OLoadDue b \<Longrightarrow> ?thesis" by blast
qed (simp_all add: my_save_def pg_save_def my_save_pending_def pg_save_pending_def my_load_def pg_load_def
      my_load_pending_def pg_load_pending_def my_clear_pending_def pg_clear_pending_def
      my_claim_pending_def pg_claim_pending_def my_save_scheduled_def pg_save_scheduled_def
      my_delete_scheduled_def pg_delete_scheduled_def my_check_idempotency_key_def
      pg_check_idempotency_key_def my_record_idempotency_key_def pg_record_idempotency_key_def
      my_delete_before_def pg_delete_before_def my_delete_records_def pg_delete_records_def
      my_completed_ids_def pg_completed_ids_def my_acquire_schedule_lock_def pg_acquire_schedule_lock_def
      my_insert_ignore_binary my_find_binary my_upserts_binary my_upsert_binary sched_to_row_def)

interpretation mysql: snapshot_contract "my_op binary" sql_view sql_wf "\<lambda>x. \<forall>b. x \<noteq> OLoadDue b"
  by unfold_locales (simp_all add: my_op_binary pg_step_good pg_step_answer pg_step_view)

interpretation sqlite_postgres: same_contract sqlite_op sqlite_view sqlite_wf "\<lambda>x. True"
    "pg_op binary" sql_view sql_wf "\<lambda>x. True"
  by unfold_locales

interpretation postgres_mysql: same_contract "pg_op binary" sql_view sql_wf "\<lambda>x. True"
    "my_op binary" sql_view sql_wf "\<lambda>x. \<forall>b. x \<noteq> OLoadDue b"
  by unfold_locales

section \<open>Properties\<close>



text \<open>On MySQL no one-off schedule is ever read back: as soon as one is due, loading raises, although
  everything else answers as PostgreSQL does under a binary collation.\<close>

lemma mysql_loses_due_schedules:
  assumes "sql_wf db" and "pg_load_due binary before db \<noteq> []"
  shows "fst (my_op binary (OLoadDue before) db) = BRaised (ValueError ''Invalid isoformat string: fire_at'')
    \<and> (\<forall>xs. (\<forall>b. OLoadDue b \<notin> set xs) \<longrightarrow>
         fst (run_ops (my_op binary) xs db) = fst (run_ops (pg_op binary) xs db))"
proof (intro conjI allI impI)
  let ?rs = "order_by (\<lambda>a b. co_less binary (sr_fire_at a) (sr_fire_at b))
          (filter (\<lambda>r. text_le binary (sr_fire_at r) (isoformat before)) (dvals (db_scheduled db)))"
  have "?rs \<noteq> []" using assms(2) by (simp add: pg_load_due_def)
  then obtain r rs where "?rs = r # rs" by (cases ?rs) auto
  then have "my_load_due binary before db = Inl (ValueError ''Invalid isoformat string: fire_at'')"
    unfolding my_load_due_def by (simp add: dict_to_scheduled_def)
  then show "fst (my_op binary (OLoadDue before) db) = BRaised (ValueError ''Invalid isoformat string: fire_at'')"
    by simp
  fix xs assume "\<forall>b. OLoadDue b \<notin> set xs"
  then have "list_all (\<lambda>x. True \<and> (\<forall>b. x \<noteq> OLoadDue b)) xs" by (auto simp: list_all_iff)
  from postgres_mysql.run_agree [OF assms(1) assms(1) refl this]
  show "fst (run_ops (my_op binary) xs db) = fst (run_ops (pg_op binary) xs db)" by simp
qed

section \<open>Concrete databases\<close>

definition ex_due :: scheduled_once where
  "ex_due = \<lparr>so_run_key = ''k'', so_func_name = ''send'', so_fire_at = utc_dt 0, so_args = [], so_kwargs = [],
     so_encrypted_payload = None, so_queue = ''default'', so_priority = None, so_idempotency_key = None,
     so_tags = [], so_created_at = utc_dt 0\<rparr>"


lemma mysql_loses_due_schedules_witness:
  "fst (my_op binary (OLoadDue (utc_dt 5)) (pg_save_scheduled ex_due sql_init))
     = BRaised (ValueError ''Invalid isoformat string: fire_at'')"
proof -
  have w: "sql_wf (pg_save_scheduled ex_due sql_init)"
    by (simp add: sql_wf_def pg_save_scheduled_def sql_init_def sched_payload)
  have "pg_load_due binary (utc_dt 5) (pg_save_scheduled ex_due sql_init) \<noteq> []"
    by (simp add: pg_load_due_def pg_save_scheduled_def sql_init_def sched_to_row_def ex_due_def iso_le_utc
        order_by_def)
  from mysql_loses_due_schedules [OF w this] show ?thesis by blast
qed

end
