(* ===== verification/Redis_Backend.thy ===== *)
theory Redis_Backend
  imports Sqlite_Backend
begin

text \<open>
  \<^verbatim>\<open>src/fastapi_taskflow/backends/redis.py\<close>. The Redis server is not part of the repository: it is
  the argument \<open>srv\<close> of every operation, a function that executes one command at a server time. What
  the backend relies on of it is the predicate \<open>redis_server\<close>, the documented effect and reply of each
  command. A pipeline is one transaction (\<open>MULTI\<close>/\<open>EXEC\<close>): its commands run back to back, an error
  reply of one does not undo the others, and the client raises it afterwards.

  A method with two round trips is modelled without another client in between.
\<close>

section \<open>Commands, replies and what the server promises\<close>

text \<open>The text of a field: ISO timestamps, numbers and JSON keep what was printed.\<close>

datatype rtext =
    RStr string
  | RIso isotext
  | RInt int
  | RFloat rat
  | RJson json

type_synonym rhash = "(string, rtext) dict"
type_synonym hash_map = "string \<rightharpoonup> rtext"

datatype redis_cmd =
    HSET string rhash
  | HGETALL string
  | HGET string string
  | HMGET string "string list"
  | EXPIRE string int
  | SADD string string
  | SMEMBERS string
  | SREM string string
  | DEL string
  | ZADD string string int
  | ZRANGEBYSCORE string int
  | ZREM string "string list"
  | GETK string
  | SETK string rtext bool "int option"

datatype redis_reply =
    POk
  | PNil
  | PNum nat
  | PText rtext
  | PFields "rtext option list"
  | PHash rhash
  | PMembers "string list"
  | PErr string

type_synonym 'db server = "redis_cmd \<Rightarrow> int \<Rightarrow> 'db \<Rightarrow> redis_reply \<times> 'db"

text \<open>A key holds a value of one type and possibly the time at which it expires.\<close>

datatype redis_value =
    KHash hash_map
  | KSet "string set"
  | KZset "string \<rightharpoonup> int"
  | KText rtext

type_synonym keyspace = "string \<rightharpoonup> redis_value \<times> int option"

definition key_expired :: "int \<Rightarrow> redis_value \<times> int option \<Rightarrow> bool" where
  "key_expired now v \<longleftrightarrow> (case snd v of None \<Rightarrow> False | Some e \<Rightarrow> e \<le> now)"

definition live :: "int \<Rightarrow> keyspace \<Rightarrow> keyspace" where
  "live now ks k = (case ks k of None \<Rightarrow> None | Some v \<Rightarrow> if key_expired now v then None else Some v)"

text \<open>The value of a key read as each type; an absent key is the empty value, another type is \<open>None\<close>.\<close>

definition hash_at :: "keyspace \<Rightarrow> string \<Rightarrow> hash_map option" where
  "hash_at ks k = (case ks k of None \<Rightarrow> Some Map.empty | Some (KHash h, _) \<Rightarrow> Some h | _ \<Rightarrow> None)"

definition set_at :: "keyspace \<Rightarrow> string \<Rightarrow> string set option" where
  "set_at ks k = (case ks k of None \<Rightarrow> Some {} | Some (KSet s, _) \<Rightarrow> Some s | _ \<Rightarrow> None)"

definition zset_at :: "keyspace \<Rightarrow> string \<Rightarrow> (string \<rightharpoonup> int) option" where
  "zset_at ks k = (case ks k of None \<Rightarrow> Some Map.empty | Some (KZset z, _) \<Rightarrow> Some z | _ \<Rightarrow> None)"

definition text_at :: "keyspace \<Rightarrow> string \<Rightarrow> rtext option option" where
  "text_at ks k = (case ks k of None \<Rightarrow> Some None | Some (KText v, _) \<Rightarrow> Some (Some v) | _ \<Rightarrow> None)"

definition ttl_at :: "keyspace \<Rightarrow> string \<Rightarrow> int option" where
  "ttl_at ks k = (case ks k of None \<Rightarrow> None | Some (_, e) \<Rightarrow> e)"

definition in_secs :: "int \<Rightarrow> int \<Rightarrow> int" where
  "in_secs now s = now + s * 1000000"

text \<open>An empty set or sorted set does not exist.\<close>

definition put_set :: "string \<Rightarrow> string set \<Rightarrow> keyspace \<Rightarrow> keyspace" where
  "put_set k s ks = ks(k := if s = {} then None else Some (KSet s, ttl_at ks k))"

definition put_zset :: "string \<Rightarrow> (string \<rightharpoonup> int) \<Rightarrow> keyspace \<Rightarrow> keyspace" where
  "put_zset k z ks = ks(k := if z = Map.empty then None else Some (KZset z, ttl_at ks k))"

text \<open>The documented effect of a command on the keys alive at its time.\<close>

fun redis_does :: "redis_cmd \<Rightarrow> int \<Rightarrow> keyspace \<Rightarrow> keyspace" where
  "redis_does (HSET k m) now ks =
     (case hash_at ks k of None \<Rightarrow> ks | Some h \<Rightarrow> ks(k \<mapsto> (KHash (h ++ map_of m), ttl_at ks k)))"
| "redis_does (EXPIRE k s) now ks =
     (case ks k of None \<Rightarrow> ks
      | Some (v, _) \<Rightarrow> if s \<le> 0 then ks(k := None) else ks(k \<mapsto> (v, Some (in_secs now s))))"
| "redis_does (SADD k m) now ks =
     (case set_at ks k of None \<Rightarrow> ks | Some s \<Rightarrow> put_set k (insert m s) ks)"
| "redis_does (SREM k m) now ks =
     (case set_at ks k of None \<Rightarrow> ks | Some s \<Rightarrow> put_set k (s - {m}) ks)"
| "redis_does (DEL k) now ks = ks(k := None)"
| "redis_does (ZADD k m x) now ks =
     (case zset_at ks k of None \<Rightarrow> ks | Some z \<Rightarrow> put_zset k (z(m \<mapsto> x)) ks)"
| "redis_does (ZREM k ms) now ks =
     (case zset_at ks k of None \<Rightarrow> ks
      | Some z \<Rightarrow> put_zset k (\<lambda>m. if m \<in> set ms then None else z m) ks)"
| "redis_does (SETK k v nx ex) now ks =
     (if (case ex of None \<Rightarrow> False | Some s \<Rightarrow> s \<le> 0) \<or> nx \<and> ks k \<noteq> None then ks
      else ks(k \<mapsto> (KText v, map_option (in_secs now) ex)))"
| "redis_does _ now ks = ks"

text \<open>
  The documented reply. Sets and hashes are listed in an order of the server's own; a sorted set is
  listed by increasing score.
\<close>

definition wrong_type :: "redis_reply \<Rightarrow> bool" where
  "wrong_type r \<longleftrightarrow> r = PErr ''WRONGTYPE Operation against a key holding the wrong kind of value''"

fun redis_says :: "redis_cmd \<Rightarrow> keyspace \<Rightarrow> redis_reply \<Rightarrow> bool" where
  "redis_says (HSET k m) ks r =
     (if hash_at ks k = None then wrong_type r else (\<exists>n. r = PNum n))"
| "redis_says (HGETALL k) ks r =
     (case hash_at ks k of None \<Rightarrow> wrong_type r | Some h \<Rightarrow> (\<exists>m. r = PHash m \<and> dwf m \<and> map_of m = h))"
| "redis_says (HGET k f) ks r =
     (case hash_at ks k of None \<Rightarrow> wrong_type r
      | Some h \<Rightarrow> r = (case h f of None \<Rightarrow> PNil | Some v \<Rightarrow> PText v))"
| "redis_says (HMGET k fs) ks r =
     (case hash_at ks k of None \<Rightarrow> wrong_type r | Some h \<Rightarrow> r = PFields (map h fs))"
| "redis_says (EXPIRE k s) ks r = (r = PNum (if ks k = None then 0 else 1))"
| "redis_says (SADD k m) ks r =
     (case set_at ks k of None \<Rightarrow> wrong_type r | Some s \<Rightarrow> r = PNum (if m \<in> s then 0 else 1))"
| "redis_says (SMEMBERS k) ks r =
     (case set_at ks k of None \<Rightarrow> wrong_type r
      | Some s \<Rightarrow> (\<exists>ms. r = PMembers ms \<and> distinct ms \<and> set ms = s))"
| "redis_says (SREM k m) ks r =
     (case set_at ks k of None \<Rightarrow> wrong_type r | Some s \<Rightarrow> r = PNum (if m \<in> s then 1 else 0))"
| "redis_says (DEL k) ks r = (r = PNum (if ks k = None then 0 else 1))"
| "redis_says (ZADD k m x) ks r =
     (case zset_at ks k of None \<Rightarrow> wrong_type r | Some z \<Rightarrow> r = PNum (if z m = None then 1 else 0))"
| "redis_says (ZRANGEBYSCORE k x) ks r =
     (case zset_at ks k of None \<Rightarrow> wrong_type r
      | Some z \<Rightarrow> (\<exists>ms. r = PMembers ms \<and> distinct ms \<and> set ms = {m. \<exists>y. z m = Some y \<and> y \<le> x}
                      \<and> sorted (map (\<lambda>m. the (z m)) ms)))"
| "redis_says (ZREM k ms) ks r =
     (case zset_at ks k of None \<Rightarrow> wrong_type r | Some z \<Rightarrow> (\<exists>n. r = PNum n))"
| "redis_says (GETK k) ks r =
     (case text_at ks k of None \<Rightarrow> wrong_type r
      | Some None \<Rightarrow> r = PNil | Some (Some v) \<Rightarrow> r = PText v)"
| "redis_says (SETK k v nx ex) ks r =
     (if (case ex of None \<Rightarrow> False | Some s \<Rightarrow> s \<le> 0)
      then (\<exists>m. r = PErr m)
      else if nx \<and> ks k \<noteq> None then r = PNil else r = POk)"

text \<open>
  A server keeps the documentation when, at every time, each command has its documented reply and
  effect on the keys alive. \<open>look\<close> reads the keys of a server state, dead ones included.
\<close>

definition redis_server :: "'db server \<Rightarrow> ('db \<Rightarrow> keyspace) \<Rightarrow> bool" where
  "redis_server srv look \<longleftrightarrow>
     (\<forall>c now db. redis_says c (live now (look db)) (fst (srv c now db))
               \<and> live now (look (snd (srv c now db))) = redis_does c now (live now (look db)))"

section \<open>The client\<close>

type_synonym ('db, 'a) redis_io = "'db \<Rightarrow> (py_exc + 'a) \<times> 'db"

definition pure_io :: "'a \<Rightarrow> ('db, 'a) redis_io" where
  "pure_io x db = (Inr x, db)"

definition and_then :: "('db, 'a) redis_io \<Rightarrow> ('a \<Rightarrow> ('db, 'b) redis_io) \<Rightarrow> ('db, 'b) redis_io" where
  "and_then m f db = (case m db of (Inl e, db1) \<Rightarrow> (Inl e, db1) | (Inr x, db1) \<Rightarrow> f x db1)"

definition lift_exc :: "py_exc + 'a \<Rightarrow> ('db, 'a) redis_io" where
  "lift_exc r db = (r, db)"

definition rd_call :: "'db server \<Rightarrow> int \<Rightarrow> redis_cmd \<Rightarrow> ('db, redis_reply) redis_io" where
  "rd_call srv now c db =
     (case srv c now db of (PErr m, db') \<Rightarrow> (Inl (ResponseError m), db') | (r, db') \<Rightarrow> (Inr r, db'))"

fun rd_pipe :: "'db server \<Rightarrow> int \<Rightarrow> redis_cmd list \<Rightarrow> 'db \<Rightarrow> redis_reply list \<times> 'db" where
  "rd_pipe srv now [] db = ([], db)"
| "rd_pipe srv now (c # cs) db =
     (let (r, db1) = srv c now db; (rs, db2) = rd_pipe srv now cs db1 in (r # rs, db2))"

fun first_error :: "redis_reply list \<Rightarrow> string option" where
  "first_error [] = None"
| "first_error (PErr m # rs) = Some m"
| "first_error (r # rs) = first_error rs"

definition rd_execute :: "'db server \<Rightarrow> int \<Rightarrow> redis_cmd list \<Rightarrow> ('db, redis_reply list) redis_io" where
  "rd_execute srv now cs db =
     (let (rs, db') = rd_pipe srv now cs db
      in (case first_error rs of Some m \<Rightarrow> Inl (ResponseError m) | None \<Rightarrow> Inr rs, db'))"

fun reply_members :: "redis_reply \<Rightarrow> string list" where
  "reply_members (PMembers ms) = ms"
| "reply_members _ = []"

fun reply_hash :: "redis_reply \<Rightarrow> rhash" where
  "reply_hash (PHash m) = m"
| "reply_hash _ = []"

fun reply_fields :: "redis_reply \<Rightarrow> rtext option list" where
  "reply_fields (PFields vs) = vs"
| "reply_fields _ = []"

fun reply_text :: "redis_reply \<Rightarrow> rtext option" where
  "reply_text (PText v) = Some v"
| "reply_text _ = None"

section \<open>Keys\<close>

record redis_conf =
  rc_prefix :: string
  rc_ttl :: "int option"

definition rd_key :: "redis_conf \<Rightarrow> string \<Rightarrow> string" where
  "rd_key cf tid = rc_prefix cf @ '':'' @ tid"

definition rd_index_key :: "redis_conf \<Rightarrow> string" where
  "rd_index_key cf = rc_prefix cf @ '':_index''"

definition rd_pending_key :: "redis_conf \<Rightarrow> string \<Rightarrow> string" where
  "rd_pending_key cf tid = rc_prefix cf @ '':_pending'' @ '':'' @ tid"

definition rd_pending_index_key :: "redis_conf \<Rightarrow> string" where
  "rd_pending_index_key cf = rc_prefix cf @ '':_pending'' @ '':_index''"

definition rd_scheduled_key :: "redis_conf \<Rightarrow> string \<Rightarrow> string" where
  "rd_scheduled_key cf k = rc_prefix cf @ '':_scheduled'' @ '':'' @ k"

definition rd_scheduled_index_key :: "redis_conf \<Rightarrow> string" where
  "rd_scheduled_index_key cf = rc_prefix cf @ '':_scheduled'' @ '':_index''"

definition rd_lock_key :: "string \<Rightarrow> string" where
  "rd_lock_key k = ''taskflow:schedule_lock:'' @ k"

definition rd_idem_key :: "redis_conf \<Rightarrow> string \<Rightarrow> string" where
  "rd_idem_key cf k = rc_prefix cf @ '':idem:'' @ k"

definition rd_meta_key :: "redis_conf \<Rightarrow> string \<Rightarrow> string" where
  "rd_meta_key cf k = rc_prefix cf @ '':_meta:'' @ k"

section \<open>Records as hashes\<close>

text \<open>\<open>str(x) if x is not None else ""\<close>, and \<open>s or ""\<close>.\<close>

definition or_blank :: "('a \<Rightarrow> rtext) \<Rightarrow> 'a option \<Rightarrow> rtext" where
  "or_blank f x = (case x of None \<Rightarrow> RStr [] | Some v \<Rightarrow> f v)"

definition json_text_args :: "pyargs \<Rightarrow> rtext" where
  "json_text_args as = RJson (JArr (args_json as))"

definition json_text_kwargs :: "pykwargs \<Rightarrow> rtext" where
  "json_text_kwargs kw = RJson (JObj (kwargs_json kw))"

definition record_to_mapping :: "task_record \<Rightarrow> rhash" where
  "record_to_mapping r =
     [(''task_id'', RStr (task_id r)),
      (''func_name'', RStr (func_name r)),
      (''status'', RStr (status_value (status r))),
      (''created_at'', RIso (isoformat (created_at r))),
      (''start_time'', or_blank (\<lambda>t. RIso (isoformat t)) (start_time r)),
      (''end_time'', or_blank (\<lambda>t. RIso (isoformat t)) (end_time r)),
      (''duration'', or_blank RFloat (duration r)),
      (''retries_used'', RInt (retries_used r)),
      (''error'', or_blank RStr (error r)),
      (''args_json'', json_text_args (args r)),
      (''kwargs_json'', json_text_kwargs (kwargs r)),
      (''logs_json'', RJson (JArr (map JStr (logs r)))),
      (''stacktrace'', or_blank RStr (stacktrace r)),
      (''encrypted_payload'', or_blank RStr (encrypted_payload r)),
      (''source'', RStr (source r)),
      (''priority'', or_blank RInt (priority r)),
      (''executor'', or_blank (\<lambda>k. RStr (exec_name k)) (executor r)),
      (''queue'', RStr (queue r))]"

definition record_to_pending_mapping :: "task_record \<Rightarrow> rhash" where
  "record_to_pending_mapping r =
     [(''task_id'', RStr (task_id r)),
      (''func_name'', RStr (func_name r)),
      (''created_at'', RIso (isoformat (created_at r))),
      (''retries_used'', RInt (retries_used r)),
      (''args_json'', json_text_args (args r)),
      (''kwargs_json'', json_text_kwargs (kwargs r)),
      (''encrypted_payload'', or_blank RStr (encrypted_payload r)),
      (''queue'', RStr (queue r))]"

definition scheduled_to_mapping :: "scheduled_once \<Rightarrow> rhash" where
  "scheduled_to_mapping e =
     [(''run_key'', RStr (so_run_key e)),
      (''func_name'', RStr (so_func_name e)),
      (''fire_at'', RIso (isoformat (so_fire_at e))),
      (''created_at'', RIso (isoformat (so_created_at e))),
      (''args_json'', json_text_args (so_args e)),
      (''kwargs_json'', json_text_kwargs (so_kwargs e)),
      (''encrypted_payload'', or_blank RStr (so_encrypted_payload e)),
      (''queue'', RStr (so_queue e)),
      (''priority'', or_blank RInt (so_priority e)),
      (''idempotency_key'', or_blank RStr (so_idempotency_key e)),
      (''tags_json'', if so_tags e = [] then RStr []
                      else RJson (JObj (map (\<lambda>(k, v). (k, JStr v)) (so_tags e))))]"

text \<open>
  Reading fields. \<open>m.get(k)\<close> tested for truth: an absent and an empty field read the same. A field
  whose text does not have the form its reader needs raises.
\<close>

definition hfield :: "hash_map \<Rightarrow> string \<Rightarrow> rtext option" where
  "hfield h k = (case h k of None \<Rightarrow> None | Some v \<Rightarrow> if v = RStr [] then None else Some v)"

definition must :: "(rtext \<Rightarrow> py_exc + 'a) \<Rightarrow> hash_map \<Rightarrow> string \<Rightarrow> py_exc + 'a" where
  "must f h k = (case h k of None \<Rightarrow> Inl (KeyError k) | Some v \<Rightarrow> f v)"

definition if_given :: "(rtext \<Rightarrow> py_exc + 'a) \<Rightarrow> hash_map \<Rightarrow> string \<Rightarrow> py_exc + 'a option" where
  "if_given f h k =
     (case hfield h k of None \<Rightarrow> Inr None | Some v \<Rightarrow> bindr (f v) (\<lambda>x. Inr (Some x)))"

definition or_else :: "(rtext \<Rightarrow> py_exc + 'a) \<Rightarrow> 'a \<Rightarrow> hash_map \<Rightarrow> string \<Rightarrow> py_exc + 'a" where
  "or_else f d h k = (case hfield h k of None \<Rightarrow> Inr d | Some v \<Rightarrow> f v)"

fun rt_str :: "rtext \<Rightarrow> py_exc + string" where
  "rt_str (RStr s) = Inr s"
| "rt_str _ = Inl (TypeError ''str'')"

fun rt_int :: "rtext \<Rightarrow> py_exc + int" where
  "rt_int (RInt i) = Inr i"
| "rt_int _ = Inl (ValueError ''invalid literal for int()'')"

fun rt_iso :: "rtext \<Rightarrow> py_exc + datetime" where
  "rt_iso (RIso t) = Inr (fromisoformat t)"
| "rt_iso _ = Inl (ValueError ''Invalid isoformat string'')"

fun rt_json :: "rtext \<Rightarrow> py_exc + pyval" where
  "rt_json (RJson j) = Inr (loads j)"
| "rt_json _ = Inl (ValueError ''Expecting value'')"

fun rt_status :: "rtext \<Rightarrow> py_exc + task_status" where
  "rt_status (RStr s) = status_of_value s"
| "rt_status _ = Inl (ValueError ''status'')"

fun rt_exec :: "rtext \<Rightarrow> py_exc + exec_kind" where
  "rt_exec (RStr s) = as_exec (VStr s)"
| "rt_exec _ = Inl (TypeError ''executor'')"

fun as_args :: "pyval \<Rightarrow> py_exc + pyargs" where
  "as_args (VList vs) = Inr vs"
| "as_args _ = Inl (TypeError ''tuple'')"

fun as_kwargs :: "pyval \<Rightarrow> py_exc + pykwargs" where
  "as_kwargs (VDict kvs) = Inr kvs"
| "as_kwargs _ = Inl (TypeError ''dict'')"

definition rt_args :: "rtext \<Rightarrow> py_exc + pyargs" where
  "rt_args v = bindr (rt_json v) as_args"

definition rt_kwargs :: "rtext \<Rightarrow> py_exc + pykwargs" where
  "rt_kwargs v = bindr (rt_json v) as_kwargs"

definition rt_logs :: "rtext \<Rightarrow> py_exc + string list" where
  "rt_logs v = bindr (rt_json v) as_strs"

definition rt_tags :: "rtext \<Rightarrow> py_exc + (string, string) dict" where
  "rt_tags v = bindr (rt_json v) as_tags"

definition mapping_to_record :: "int \<Rightarrow> hash_map \<Rightarrow> py_exc + task_record" where
  "mapping_to_record now m =
     bindr (must rt_str m ''task_id'') (\<lambda>tid.
     bindr (must rt_str m ''func_name'') (\<lambda>fn.
     bindr (must rt_status m ''status'') (\<lambda>st.
     bindr (or_else rt_iso (naive_dt now) m ''created_at'') (\<lambda>cr.
     bindr (if_given rt_iso m ''start_time'') (\<lambda>sta.
     bindr (if_given rt_iso m ''end_time'') (\<lambda>en.
     bindr (or_else rt_int 0 m ''retries_used'') (\<lambda>ru.
     bindr (if_given rt_str m ''error'') (\<lambda>er.
     bindr (or_else rt_args [] m ''args_json'') (\<lambda>as.
     bindr (or_else rt_kwargs [] m ''kwargs_json'') (\<lambda>kw.
     bindr (or_else rt_logs [] m ''logs_json'') (\<lambda>lg.
     bindr (if_given rt_str m ''stacktrace'') (\<lambda>tb.
     bindr (if_given rt_str m ''encrypted_payload'') (\<lambda>enc.
     bindr (or_else rt_str ''manual'' m ''source'') (\<lambda>src.
     bindr (if_given rt_int m ''priority'') (\<lambda>pr.
     bindr (if_given rt_exec m ''executor'') (\<lambda>ex.
     bindr (or_else rt_str ''default'' m ''queue'') (\<lambda>q.
     Inr \<lparr>task_id = tid, func_name = fn, status = st, args = as, kwargs = kw,
          created_at = cr, start_time = sta, end_time = en, retries_used = ru, error = er,
          logs = lg, stacktrace = tb, idempotency_key = None, tags = [],
          encrypted_payload = enc, source = src, priority = pr, executor = ex,
          queue = q\<rparr>)))))))))))))))))"

definition mapping_to_pending :: "int \<Rightarrow> hash_map \<Rightarrow> py_exc + task_record" where
  "mapping_to_pending now m =
     bindr (must rt_str m ''task_id'') (\<lambda>tid.
     bindr (must rt_str m ''func_name'') (\<lambda>fn.
     bindr (or_else rt_iso (naive_dt now) m ''created_at'') (\<lambda>cr.
     bindr (or_else rt_int 0 m ''retries_used'') (\<lambda>ru.
     bindr (or_else rt_args [] m ''args_json'') (\<lambda>as.
     bindr (or_else rt_kwargs [] m ''kwargs_json'') (\<lambda>kw.
     bindr (if_given rt_str m ''encrypted_payload'') (\<lambda>enc.
     bindr (or_else rt_str ''default'' m ''queue'') (\<lambda>q.
     Inr \<lparr>task_id = tid, func_name = fn, status = PENDING, args = as, kwargs = kw,
          created_at = cr, start_time = None, end_time = None, retries_used = ru, error = None,
          logs = [], stacktrace = None, idempotency_key = None, tags = [],
          encrypted_payload = enc, source = ''manual'', priority = None, executor = None,
          queue = q\<rparr>))))))))"

definition mapping_to_scheduled :: "int \<Rightarrow> hash_map \<Rightarrow> py_exc + scheduled_once" where
  "mapping_to_scheduled now m =
     bindr (or_else rt_str [] m ''run_key'') (\<lambda>k.
     bindr (or_else rt_str [] m ''func_name'') (\<lambda>fn.
     bindr (case hfield m ''fire_at'' of None \<Rightarrow> Inl (ValueError ''Invalid isoformat string'')
            | Some v \<Rightarrow> rt_iso v) (\<lambda>fi.
     bindr (or_else rt_iso (utc_dt now) m ''created_at'') (\<lambda>cr.
     bindr (or_else rt_args [] m ''args_json'') (\<lambda>as.
     bindr (or_else rt_kwargs [] m ''kwargs_json'') (\<lambda>kw.
     bindr (if_given rt_str m ''encrypted_payload'') (\<lambda>enc.
     bindr (or_else rt_str ''default'' m ''queue'') (\<lambda>q.
     bindr (if_given rt_int m ''priority'') (\<lambda>pr.
     bindr (if_given rt_str m ''idempotency_key'') (\<lambda>ik.
     bindr (or_else rt_tags [] m ''tags_json'') (\<lambda>tg.
     Inr \<lparr>so_run_key = k, so_func_name = fn, so_fire_at = fi, so_args = as, so_kwargs = kw,
          so_encrypted_payload = enc, so_queue = q, so_priority = pr, so_idempotency_key = ik,
          so_tags = tg, so_created_at = cr\<rparr>)))))))))))"

section \<open>History\<close>

definition rd_save_cmds :: "redis_conf \<Rightarrow> task_record \<Rightarrow> redis_cmd list" where
  "rd_save_cmds cf r =
     [HSET (rd_key cf (task_id r)) (record_to_mapping r)]
     @ (case rc_ttl cf of None \<Rightarrow> [] | Some s \<Rightarrow> [EXPIRE (rd_key cf (task_id r)) s])
     @ [SADD (rd_index_key cf) (task_id r)]"

definition rd_save :: "'db server \<Rightarrow> redis_conf \<Rightarrow> int \<Rightarrow> task_record list \<Rightarrow> ('db, nat) redis_io" where
  "rd_save srv cf now rs =
     (if rs = [] then pure_io 0
      else and_then (rd_execute srv now (concat (map (rd_save_cmds cf) rs)))
             (\<lambda>_. pure_io (length rs)))"

text \<open>A hash that is gone, and one without a task id, is skipped.\<close>

definition read_hashes ::
  "(hash_map \<Rightarrow> py_exc + 'a) \<Rightarrow> redis_reply list \<Rightarrow> py_exc + 'a list" where
  "read_hashes f rs =
     seqm (map (\<lambda>m. f (map_of m))
       (filter (\<lambda>m. m \<noteq> [] \<and> hfield (map_of m) ''task_id'' \<noteq> None) (map reply_hash rs)))"

definition rd_load :: "'db server \<Rightarrow> redis_conf \<Rightarrow> int \<Rightarrow> ('db, task_record list) redis_io" where
  "rd_load srv cf now =
     and_then (rd_call srv now (SMEMBERS (rd_index_key cf))) (\<lambda>r.
       if reply_members r = [] then pure_io []
       else and_then (rd_execute srv now (map (\<lambda>t. HGETALL (rd_key cf t)) (reply_members r)))
              (\<lambda>rs. lift_exc (read_hashes (mapping_to_record now) rs)))"

definition terminal_status :: "rtext \<Rightarrow> bool" where
  "terminal_status v \<longleftrightarrow> v \<in> {RStr ''success'', RStr ''failed'', RStr ''interrupted''}"

text \<open>The comparison of two texts, of which the second is a timestamp.\<close>

fun text_before :: "rtext \<Rightarrow> isotext \<Rightarrow> bool" where
  "text_before (RIso t) c = iso_less t c"
| "text_before _ c = False"

definition fields_expired :: "isotext \<Rightarrow> rtext option list \<Rightarrow> bool" where
  "fields_expired cutoff fs =
     (case fs of
        [Some e, Some s] \<Rightarrow> e \<noteq> RStr [] \<and> s \<noteq> RStr [] \<and> terminal_status s \<and> text_before e cutoff
      | _ \<Rightarrow> False)"

definition rd_delete_cmds :: "redis_conf \<Rightarrow> string list \<Rightarrow> redis_cmd list" where
  "rd_delete_cmds cf ids =
     concat (map (\<lambda>t. [DEL (rd_key cf t), SREM (rd_index_key cf) t]) ids)"

definition rd_delete_found :: "'db server \<Rightarrow> redis_conf \<Rightarrow> int \<Rightarrow> string list \<Rightarrow> ('db, nat) redis_io" where
  "rd_delete_found srv cf now ids =
     (if ids = [] then pure_io 0
      else and_then (rd_execute srv now (rd_delete_cmds cf ids)) (\<lambda>_. pure_io (length ids)))"

definition rd_delete_before :: "'db server \<Rightarrow> redis_conf \<Rightarrow> int \<Rightarrow> datetime \<Rightarrow> ('db, nat) redis_io" where
  "rd_delete_before srv cf now cutoff =
     and_then (rd_call srv now (SMEMBERS (rd_index_key cf))) (\<lambda>r.
       if reply_members r = [] then pure_io 0
       else and_then (rd_execute srv now
                (map (\<lambda>t. HMGET (rd_key cf t) [''end_time'', ''status'']) (reply_members r))) (\<lambda>rs.
         rd_delete_found srv cf now
           (map fst (filter (\<lambda>(t, x). fields_expired (isoformat cutoff) (reply_fields x))
                       (zip (reply_members r) rs)))))"

definition rd_delete_records :: "'db server \<Rightarrow> redis_conf \<Rightarrow> int \<Rightarrow> string list \<Rightarrow> ('db, nat) redis_io" where
  "rd_delete_records srv cf now ids = rd_delete_found srv cf now ids"

definition rd_completed_ids :: "'db server \<Rightarrow> redis_conf \<Rightarrow> int \<Rightarrow> string list \<Rightarrow> ('db, string set) redis_io" where
  "rd_completed_ids srv cf now ids =
     (if ids = [] then pure_io {}
      else and_then (rd_execute srv now (map (\<lambda>t. HGET (rd_key cf t) ''status'') ids))
             (\<lambda>rs. pure_io (set (map fst (filter (\<lambda>(t, r). reply_text r = Some (RStr ''success''))
                                         (zip ids rs))))))"

section \<open>Tasks to requeue\<close>

definition rd_drop_pending :: "redis_conf \<Rightarrow> string list \<Rightarrow> redis_cmd list" where
  "rd_drop_pending cf ids =
     map (\<lambda>t. DEL (rd_pending_key cf t)) ids @ [DEL (rd_pending_index_key cf)]"

definition rd_pending_cmds :: "redis_conf \<Rightarrow> task_record \<Rightarrow> redis_cmd list" where
  "rd_pending_cmds cf r =
     [HSET (rd_pending_key cf (task_id r)) (record_to_pending_mapping r),
      SADD (rd_pending_index_key cf) (task_id r)]"

definition rd_save_pending :: "'db server \<Rightarrow> redis_conf \<Rightarrow> int \<Rightarrow> task_record list \<Rightarrow> ('db, nat) redis_io" where
  "rd_save_pending srv cf now rs =
     and_then (rd_call srv now (SMEMBERS (rd_pending_index_key cf))) (\<lambda>r.
     and_then (rd_execute srv now
        (rd_drop_pending cf (reply_members r) @ concat (map (rd_pending_cmds cf) rs)))
       (\<lambda>_. pure_io (length rs)))"

definition rd_load_pending :: "'db server \<Rightarrow> redis_conf \<Rightarrow> int \<Rightarrow> ('db, task_record list) redis_io" where
  "rd_load_pending srv cf now =
     and_then (rd_call srv now (SMEMBERS (rd_pending_index_key cf))) (\<lambda>r.
       if reply_members r = [] then pure_io []
       else and_then (rd_execute srv now (map (\<lambda>t. HGETALL (rd_pending_key cf t)) (reply_members r)))
              (\<lambda>rs. lift_exc (read_hashes (mapping_to_pending now) rs)))"

definition rd_clear_pending :: "'db server \<Rightarrow> redis_conf \<Rightarrow> int \<Rightarrow> ('db, unit) redis_io" where
  "rd_clear_pending srv cf now =
     and_then (rd_call srv now (SMEMBERS (rd_pending_index_key cf))) (\<lambda>r.
     and_then (rd_execute srv now (rd_drop_pending cf (reply_members r))) (\<lambda>_. pure_io ()))"

definition rd_claim_pending :: "'db server \<Rightarrow> redis_conf \<Rightarrow> int \<Rightarrow> string \<Rightarrow> ('db, bool) redis_io" where
  "rd_claim_pending srv cf now tid =
     and_then (rd_execute srv now [DEL (rd_pending_key cf tid), SREM (rd_pending_index_key cf) tid])
       (\<lambda>rs. pure_io (hd rs = PNum 1))"

section \<open>One-off schedules\<close>

text \<open>\<open>timestamp()\<close> in microseconds; every time the code schedules or queries with is aware.\<close>

definition rd_save_scheduled :: "'db server \<Rightarrow> redis_conf \<Rightarrow> int \<Rightarrow> scheduled_once \<Rightarrow> ('db, unit) redis_io" where
  "rd_save_scheduled srv cf now e =
     and_then (rd_execute srv now
       [DEL (rd_scheduled_key cf (so_run_key e)),
        HSET (rd_scheduled_key cf (so_run_key e)) (scheduled_to_mapping e),
        ZADD (rd_scheduled_index_key cf) (so_run_key e) (instant (so_fire_at e))])
       (\<lambda>_. pure_io ())"

definition rd_load_due :: "'db server \<Rightarrow> redis_conf \<Rightarrow> int \<Rightarrow> datetime \<Rightarrow> ('db, scheduled_once list) redis_io" where
  "rd_load_due srv cf now before =
     and_then (rd_call srv now (ZRANGEBYSCORE (rd_scheduled_index_key cf) (instant before))) (\<lambda>r.
       let ks = reply_members r in
       if ks = [] then pure_io []
       else and_then (rd_execute srv now (map (\<lambda>k. HGETALL (rd_scheduled_key cf k)) ks)) (\<lambda>rs.
         let ms = map reply_hash rs;
             stale = map fst (filter (\<lambda>(k, m). m = []) (zip ks ms))
         in and_then (lift_exc (seqm (map (\<lambda>m. mapping_to_scheduled now (map_of m))
                                     (filter (\<lambda>m. m \<noteq> []) ms)))) (\<lambda>es.
            if stale = [] then pure_io es
            else and_then (rd_call srv now (ZREM (rd_scheduled_index_key cf) stale)) (\<lambda>_. pure_io es))))"

definition rd_delete_scheduled :: "'db server \<Rightarrow> redis_conf \<Rightarrow> int \<Rightarrow> string \<Rightarrow> ('db, bool) redis_io" where
  "rd_delete_scheduled srv cf now k =
     and_then (rd_execute srv now [DEL (rd_scheduled_key cf k), ZREM (rd_scheduled_index_key cf) [k]])
       (\<lambda>rs. pure_io (hd rs = PNum 1))"

definition rd_claim_scheduled :: "'db server \<Rightarrow> redis_conf \<Rightarrow> int \<Rightarrow> string \<Rightarrow> ('db, bool) redis_io" where
  "rd_claim_scheduled srv cf now k = rd_delete_scheduled srv cf now k"

section \<open>Idempotency keys, locks, metadata\<close>

definition rd_get :: "'db server \<Rightarrow> int \<Rightarrow> string \<Rightarrow> ('db, rtext option) redis_io" where
  "rd_get srv now k = and_then (rd_call srv now (GETK k)) (\<lambda>r. pure_io (reply_text r))"

definition rd_check_idempotency_key :: "'db server \<Rightarrow> redis_conf \<Rightarrow> int \<Rightarrow> string \<Rightarrow> ('db, rtext option) redis_io" where
  "rd_check_idempotency_key srv cf now k = rd_get srv now (rd_idem_key cf k)"

definition rd_record_idempotency_key :: "'db server \<Rightarrow> redis_conf \<Rightarrow> int \<Rightarrow> string \<Rightarrow> string \<Rightarrow> ('db, unit) redis_io" where
  "rd_record_idempotency_key srv cf now k tid =
     and_then (rd_call srv now (SETK (rd_idem_key cf k) (RStr tid) True None)) (\<lambda>_. pure_io ())"

definition rd_acquire_schedule_lock :: "'db server \<Rightarrow> string \<Rightarrow> int \<Rightarrow> int \<Rightarrow> ('db, bool) redis_io" where
  "rd_acquire_schedule_lock srv k ttl now =
     and_then (rd_call srv now (SETK (rd_lock_key k) (RStr ''1'') True (Some ttl)))
       (\<lambda>r. pure_io (r \<noteq> PNil))"

definition rd_save_metadata :: "'db server \<Rightarrow> redis_conf \<Rightarrow> int \<Rightarrow> string \<Rightarrow> json \<Rightarrow> ('db, unit) redis_io" where
  "rd_save_metadata srv cf now k v =
     and_then (rd_call srv now (SETK (rd_meta_key cf k) (RJson v) False None)) (\<lambda>_. pure_io ())"

definition rd_load_metadata :: "'db server \<Rightarrow> redis_conf \<Rightarrow> int \<Rightarrow> string \<Rightarrow> ('db, rtext option) redis_io" where
  "rd_load_metadata srv cf now k = rd_get srv now (rd_meta_key cf k)"

end
