(* ===== verification/Redis_Facts.thy ===== *)
theory Redis_Facts
  imports Redis_Backend
begin

text \<open>
  The library behind the Redis properties: commands and pipelines on a server that keeps its
  documentation, which keys belong to whom, the shape of the keyspace (\<open>redis_ok\<close>) and that every
  command of the backend keeps it, and what a stored hash reads back as.
\<close>

section \<open>Running commands\<close>

lemma live_expired [simp]: "ks k = None \<Longrightarrow> live now ks k = None"
  by (simp add: live_def)

lemma live_later: "now \<le> later \<Longrightarrow> live later (live now ks) = live later ks"
  by (auto simp: live_def key_expired_def fun_eq_iff split: option.splits)

lemma live_idem [simp]: "live now (live now ks) = live now ks"
  by (rule live_later) simp

lemma server_step:
  assumes "redis_server srv look" and "srv c now db = (r, db')"
  shows "redis_says c (live now (look db)) r" and "live now (look db') = redis_does c now (live now (look db))"
  using assms unfolding redis_server_def by (metis fst_conv, metis snd_conv)

text \<open>The keys a command needs have the type it works on.\<close>

fun fits :: "redis_cmd \<Rightarrow> keyspace \<Rightarrow> bool" where
  "fits (HSET k m) ks = (hash_at ks k \<noteq> None)"
| "fits (HGETALL k) ks = (hash_at ks k \<noteq> None)"
| "fits (HGET k f) ks = (hash_at ks k \<noteq> None)"
| "fits (HMGET k fs) ks = (hash_at ks k \<noteq> None)"
| "fits (SADD k m) ks = (set_at ks k \<noteq> None)"
| "fits (SMEMBERS k) ks = (set_at ks k \<noteq> None)"
| "fits (SREM k m) ks = (set_at ks k \<noteq> None)"
| "fits (ZADD k m x) ks = (zset_at ks k \<noteq> None)"
| "fits (ZRANGEBYSCORE k x) ks = (zset_at ks k \<noteq> None)"
| "fits (ZREM k ms) ks = (zset_at ks k \<noteq> None)"
| "fits (GETK k) ks = (text_at ks k \<noteq> None)"
| "fits (SETK k v nx ex) ks = (case ex of None \<Rightarrow> True | Some s \<Rightarrow> 0 < s)"
| "fits _ ks = True"

definition is_err :: "redis_reply \<Rightarrow> bool" where
  "is_err r \<longleftrightarrow> (\<exists>m. r = PErr m)"

lemma is_err_simps [simp]:
  "is_err (PErr m)" "\<not> is_err POk" "\<not> is_err PNil" "\<not> is_err (PNum n)" "\<not> is_err (PText v)"
  "\<not> is_err (PFields vs)" "\<not> is_err (PHash h)" "\<not> is_err (PMembers ms)"
  by (simp_all add: is_err_def)

lemma fits_no_error: "redis_says c ks r \<Longrightarrow> fits c ks \<Longrightarrow> \<not> is_err r"
  by (cases c) (auto split: option.splits if_splits)

lemma rd_call_ok:
  assumes "redis_server srv look" and "fits c (live now (look db))"
  obtains r db' where "rd_call srv now c db = (Inr r, db')" "redis_says c (live now (look db)) r"
    "live now (look db') = redis_does c now (live now (look db))"
proof -
  obtain r db' where e: "srv c now db = (r, db')" by (cases "srv c now db") auto
  note s = server_step [OF assms(1) e]
  have "\<not> is_err r" using fits_no_error [OF s(1) assms(2)] .
  then have "rd_call srv now c db = (Inr r, db')"
    by (cases r) (simp_all add: rd_call_def e)
  then show ?thesis using that s by blast
qed

definition redis_run :: "redis_cmd list \<Rightarrow> int \<Rightarrow> keyspace \<Rightarrow> keyspace" where
  "redis_run cs now ks = fold (\<lambda>c. redis_does c now) cs ks"

lemma redis_run_simps [simp]:
  "redis_run [] now ks = ks" "redis_run (c # cs) now ks = redis_run cs now (redis_does c now ks)"
  "redis_run (cs @ ds) now ks = redis_run ds now (redis_run cs now ks)"
  by (simp_all add: redis_run_def)

fun all_fit :: "redis_cmd list \<Rightarrow> int \<Rightarrow> keyspace \<Rightarrow> bool" where
  "all_fit [] now ks = True"
| "all_fit (c # cs) now ks = (fits c ks \<and> all_fit cs now (redis_does c now ks))"

lemma all_fit_append [simp]:
  "all_fit (cs @ ds) now ks = (all_fit cs now ks \<and> all_fit ds now (redis_run cs now ks))"
  by (induction cs arbitrary: ks) simp_all

fun all_say :: "redis_cmd list \<Rightarrow> int \<Rightarrow> keyspace \<Rightarrow> redis_reply list \<Rightarrow> bool" where
  "all_say [] now ks rs = (rs = [])"
| "all_say (c # cs) now ks rs =
     (case rs of [] \<Rightarrow> False | r # rs' \<Rightarrow> redis_says c ks r \<and> all_say cs now (redis_does c now ks) rs')"

lemma rd_pipe_says:
  assumes "redis_server srv look"
  shows "all_say cs now (live now (look db)) (fst (rd_pipe srv now cs db))
       \<and> live now (look (snd (rd_pipe srv now cs db))) = redis_run cs now (live now (look db))"
proof (induction cs arbitrary: db)
  case (Cons c cs)
  obtain r db1 where e: "srv c now db = (r, db1)" by (cases "srv c now db") auto
  note s = server_step [OF assms e]
  then show ?case using Cons.IH [of db1] by (simp add: e case_prod_beta Let_def)
qed simp

lemma no_first_error: "all_say cs now ks rs \<Longrightarrow> all_fit cs now ks \<Longrightarrow> first_error rs = None"
proof (induction cs arbitrary: ks rs)
  case (Cons c cs)
  then obtain r rs' where r: "rs = r # rs'" by (cases rs) auto
  then have "\<not> is_err r" using Cons.prems fits_no_error by auto
  then show ?case using Cons r by (cases r) auto
qed simp

lemma rd_execute_ok:
  assumes "redis_server srv look" and "all_fit cs now (live now (look db))"
  obtains rs db' where "rd_execute srv now cs db = (Inr rs, db')"
    "all_say cs now (live now (look db)) rs"
    "live now (look db') = redis_run cs now (live now (look db))"
proof -
  note p = rd_pipe_says [OF assms(1), of cs now db]
  have "first_error (fst (rd_pipe srv now cs db)) = None"
    using no_first_error assms(2) p by blast
  then have "rd_execute srv now cs db = (Inr (fst (rd_pipe srv now cs db)), snd (rd_pipe srv now cs db))"
    by (simp add: rd_execute_def case_prod_beta Let_def)
  then show ?thesis using that p by blast
qed

text \<open>Commands that only read.\<close>

fun reads :: "redis_cmd \<Rightarrow> bool" where
  "reads (HGETALL k) = True"
| "reads (HGET k f) = True"
| "reads (HMGET k fs) = True"
| "reads (SMEMBERS k) = True"
| "reads (ZRANGEBYSCORE k x) = True"
| "reads (GETK k) = True"
| "reads _ = False"

lemma reads_does: "reads c \<Longrightarrow> redis_does c now ks = ks"
  by (cases c) simp_all

lemma all_fit_reads: "list_all reads cs \<Longrightarrow> all_fit cs now ks \<longleftrightarrow> list_all (\<lambda>c. fits c ks) cs"
  by (induction cs) (simp_all add: reads_does)

lemma redis_run_reads: "list_all reads cs \<Longrightarrow> redis_run cs now ks = ks"
  by (induction cs) (simp_all add: reads_does)

lemma all_say_reads:
  "list_all reads cs \<Longrightarrow> all_say cs now ks rs \<longleftrightarrow> list_all2 (\<lambda>c r. redis_says c ks r) cs rs"
  by (induction cs arbitrary: rs) (auto simp: reads_does list_all2_Cons1 split: list.splits)

lemma and_then_simps [simp]:
  "m db = (Inr x, db1) \<Longrightarrow> and_then m f db = f x db1"
  "m db = (Inl e, db1) \<Longrightarrow> and_then m f db = (Inl e, db1)"
  by (simp_all add: and_then_def)

lemma io_simps [simp]: "pure_io x db = (Inr x, db)" "lift_exc r db = (r, db)"
  by (simp_all add: pure_io_def lift_exc_def)

section \<open>Keys do not clash\<close>

text \<open>Task ids are UUIDs: no colon, not empty, not \<open>_index\<close>.\<close>

definition plain_id :: "string \<Rightarrow> bool" where
  "plain_id t \<longleftrightarrow> t \<noteq> [] \<and> t \<noteq> ''_index'' \<and> CHR '':'' \<notin> set t"

named_theorems redis_keys \<open>the key functions of the Redis backend\<close>

lemmas key_defs [redis_keys] =
  rd_key_def rd_index_key_def rd_pending_key_def rd_pending_index_key_def rd_scheduled_key_def
  rd_scheduled_index_key_def rd_idem_key_def rd_meta_key_def

lemma key_inject [simp]:
  "rd_key cf t = rd_key cf u \<longleftrightarrow> t = u"
  "rd_pending_key cf t = rd_pending_key cf u \<longleftrightarrow> t = u"
  "rd_scheduled_key cf k = rd_scheduled_key cf l \<longleftrightarrow> k = l"
  "rd_idem_key cf k = rd_idem_key cf l \<longleftrightarrow> k = l"
  "rd_meta_key cf k = rd_meta_key cf l \<longleftrightarrow> k = l"
  by (simp_all add: redis_keys)

lemma key_index [simp]:
  "rd_key cf t = rd_index_key cf \<longleftrightarrow> t = ''_index''"
  "rd_pending_key cf t = rd_pending_index_key cf \<longleftrightarrow> t = ''_index''"
  "rd_scheduled_key cf k = rd_scheduled_index_key cf \<longleftrightarrow> k = ''_index''"
  "rd_index_key cf = rd_key cf t \<longleftrightarrow> t = ''_index''"
  "rd_pending_index_key cf = rd_pending_key cf t \<longleftrightarrow> t = ''_index''"
  "rd_scheduled_index_key cf = rd_scheduled_key cf k \<longleftrightarrow> k = ''_index''"
  by (auto simp: redis_keys)

lemma key_groups [simp]:
  "rd_index_key cf \<noteq> rd_pending_index_key cf" "rd_index_key cf \<noteq> rd_scheduled_index_key cf"
  "rd_pending_index_key cf \<noteq> rd_scheduled_index_key cf"
  "rd_index_key cf \<noteq> rd_pending_key cf t" "rd_index_key cf \<noteq> rd_scheduled_key cf k"
  "rd_index_key cf \<noteq> rd_idem_key cf k" "rd_index_key cf \<noteq> rd_meta_key cf k"
  "rd_pending_index_key cf \<noteq> rd_scheduled_key cf k" "rd_pending_index_key cf \<noteq> rd_idem_key cf k"
  "rd_pending_index_key cf \<noteq> rd_meta_key cf k" "rd_scheduled_index_key cf \<noteq> rd_pending_key cf t"
  "rd_scheduled_index_key cf \<noteq> rd_idem_key cf k" "rd_scheduled_index_key cf \<noteq> rd_meta_key cf k"
  "rd_pending_key cf t \<noteq> rd_scheduled_key cf k" "rd_pending_key cf t \<noteq> rd_idem_key cf k"
  "rd_pending_key cf t \<noteq> rd_meta_key cf k" "rd_scheduled_key cf l \<noteq> rd_idem_key cf k"
  "rd_scheduled_key cf l \<noteq> rd_meta_key cf k" "rd_idem_key cf l \<noteq> rd_meta_key cf k"
  by (simp_all add: redis_keys)

lemma plain_key:
  assumes "plain_id t"
  shows "rd_key cf t \<noteq> rd_index_key cf" "rd_key cf t \<noteq> rd_pending_key cf u"
    "rd_key cf t \<noteq> rd_pending_index_key cf" "rd_key cf t \<noteq> rd_scheduled_key cf k"
    "rd_key cf t \<noteq> rd_scheduled_index_key cf" "rd_key cf t \<noteq> rd_idem_key cf k"
    "rd_key cf t \<noteq> rd_meta_key cf k"
  using assms by (auto simp: plain_id_def redis_keys)

lemmas key_groups_sym [simp] = key_groups [symmetric]

section \<open>The shape of the keyspace\<close>

lemma at_upd [simp]:
  "j \<noteq> k \<Longrightarrow> hash_at (ks(k := v)) j = hash_at ks j" "j \<noteq> k \<Longrightarrow> set_at (ks(k := v)) j = set_at ks j"
  "j \<noteq> k \<Longrightarrow> zset_at (ks(k := v)) j = zset_at ks j" "j \<noteq> k \<Longrightarrow> text_at (ks(k := v)) j = text_at ks j"
  "hash_at (ks(k := None)) k = Some Map.empty" "set_at (ks(k := None)) k = Some {}"
  "zset_at (ks(k := None)) k = Some Map.empty" "text_at (ks(k := None)) k = Some None"
  "hash_at (ks(k \<mapsto> (KHash h, e))) k = Some h" "set_at (ks(k \<mapsto> (KSet s, e))) k = Some s"
  "zset_at (ks(k \<mapsto> (KZset z, e))) k = Some z" "text_at (ks(k \<mapsto> (KText w, e))) k = Some (Some w)"
  by (simp_all add: hash_at_def set_at_def zset_at_def text_at_def)

lemma at_put [simp]:
  "set_at (put_set k s ks) k = Some s" "zset_at (put_zset k z ks) k = Some z"
  "j \<noteq> k \<Longrightarrow> hash_at (put_set k s ks) j = hash_at ks j" "j \<noteq> k \<Longrightarrow> set_at (put_set k s ks) j = set_at ks j"
  "j \<noteq> k \<Longrightarrow> zset_at (put_set k s ks) j = zset_at ks j" "j \<noteq> k \<Longrightarrow> text_at (put_set k s ks) j = text_at ks j"
  "j \<noteq> k \<Longrightarrow> hash_at (put_zset k z ks) j = hash_at ks j" "j \<noteq> k \<Longrightarrow> set_at (put_zset k z ks) j = set_at ks j"
  "j \<noteq> k \<Longrightarrow> zset_at (put_zset k z ks) j = zset_at ks j" "j \<noteq> k \<Longrightarrow> text_at (put_zset k z ks) j = text_at ks j"
  by (simp_all add: put_set_def put_zset_def)

text \<open>A hash is absent or holds one whole entry of its group.\<close>

definition holds_entry :: "('e \<Rightarrow> string) \<Rightarrow> ('e \<Rightarrow> rhash) \<Rightarrow> string \<Rightarrow> hash_map option \<Rightarrow> bool" where
  "holds_entry key enc k h \<longleftrightarrow> h = Some Map.empty \<or> (\<exists>e. key e = k \<and> h = Some (map_of (enc e)))"

text \<open>
  Only the hashes of finished tasks ever get a lifetime, and only when one is configured.
\<close>

definition lasting :: "redis_conf \<Rightarrow> string \<Rightarrow> bool" where
  "lasting cf k \<longleftrightarrow>
     k \<in> {rd_index_key cf, rd_pending_index_key cf, rd_scheduled_index_key cf}
     \<or> (\<exists>t. k = rd_pending_key cf t \<or> k = rd_scheduled_key cf t \<or> k = rd_idem_key cf t \<or> k = rd_meta_key cf t)
     \<or> rc_ttl cf = None \<and> (\<exists>t. plain_id t \<and> k = rd_key cf t)"

definition redis_ok :: "redis_conf \<Rightarrow> keyspace \<Rightarrow> bool" where
  "redis_ok cf ks \<longleftrightarrow>
     (\<exists>ids. set_at ks (rd_index_key cf) = Some ids \<and> (\<forall>t \<in> ids. plain_id t))
     \<and> (\<forall>t. plain_id t \<longrightarrow> holds_entry task_id record_to_mapping t (hash_at ks (rd_key cf t)))
     \<and> (\<exists>ids. set_at ks (rd_pending_index_key cf) = Some ids \<and> (\<forall>t \<in> ids. plain_id t))
     \<and> (\<forall>t. plain_id t \<longrightarrow> holds_entry task_id record_to_pending_mapping t (hash_at ks (rd_pending_key cf t)))
     \<and> (\<exists>z. zset_at ks (rd_scheduled_index_key cf) = Some z \<and> z ''_index'' = None)
     \<and> (\<forall>k. k \<noteq> ''_index'' \<longrightarrow>
            holds_entry so_run_key scheduled_to_mapping k (hash_at ks (rd_scheduled_key cf k)))
     \<and> (\<forall>k. \<exists>t. text_at ks (rd_idem_key cf k) = Some (map_option RStr t))
     \<and> (\<forall>k. \<exists>j. text_at ks (rd_meta_key cf k) = Some (map_option RJson j))
     \<and> (\<forall>k. lasting cf k \<longrightarrow> ttl_at ks k = None)"

lemma redis_ok_empty: "redis_ok cf Map.empty"
  by (auto simp: redis_ok_def holds_entry_def set_at_def hash_at_def zset_at_def text_at_def
      ttl_at_def intro: exI [of _ None])

text \<open>The commands the backend issues.\<close>

inductive backend_cmd :: "redis_conf \<Rightarrow> redis_cmd \<Rightarrow> bool" for cf where
  "plain_id (task_id r) \<Longrightarrow> backend_cmd cf (HSET (rd_key cf (task_id r)) (record_to_mapping r))"
| "plain_id t \<Longrightarrow> rc_ttl cf = Some s \<Longrightarrow> backend_cmd cf (EXPIRE (rd_key cf t) s)"
| "plain_id t \<Longrightarrow> backend_cmd cf (SADD (rd_index_key cf) t)"
| "backend_cmd cf (SREM (rd_index_key cf) t)"
| "backend_cmd cf (SMEMBERS (rd_index_key cf))"
| "plain_id t \<Longrightarrow> backend_cmd cf (DEL (rd_key cf t))"
| "plain_id t \<Longrightarrow> backend_cmd cf (HGETALL (rd_key cf t))"
| "plain_id t \<Longrightarrow> backend_cmd cf (HGET (rd_key cf t) f)"
| "plain_id t \<Longrightarrow> backend_cmd cf (HMGET (rd_key cf t) fs)"
| "plain_id (task_id r) \<Longrightarrow>
     backend_cmd cf (HSET (rd_pending_key cf (task_id r)) (record_to_pending_mapping r))"
| "plain_id t \<Longrightarrow> backend_cmd cf (SADD (rd_pending_index_key cf) t)"
| "backend_cmd cf (SREM (rd_pending_index_key cf) t)"
| "backend_cmd cf (SMEMBERS (rd_pending_index_key cf))"
| "plain_id t \<Longrightarrow> backend_cmd cf (DEL (rd_pending_key cf t))"
| "backend_cmd cf (DEL (rd_pending_index_key cf))"
| "plain_id t \<Longrightarrow> backend_cmd cf (HGETALL (rd_pending_key cf t))"
| "so_run_key e \<noteq> ''_index'' \<Longrightarrow>
     backend_cmd cf (HSET (rd_scheduled_key cf (so_run_key e)) (scheduled_to_mapping e))"
| "k \<noteq> ''_index'' \<Longrightarrow> backend_cmd cf (DEL (rd_scheduled_key cf k))"
| "k \<noteq> ''_index'' \<Longrightarrow> backend_cmd cf (HGETALL (rd_scheduled_key cf k))"
| "k \<noteq> ''_index'' \<Longrightarrow> backend_cmd cf (ZADD (rd_scheduled_index_key cf) k x)"
| "backend_cmd cf (ZREM (rd_scheduled_index_key cf) ks)"
| "backend_cmd cf (ZRANGEBYSCORE (rd_scheduled_index_key cf) x)"
| "backend_cmd cf (GETK (rd_idem_key cf k))"
| "backend_cmd cf (SETK (rd_idem_key cf k) (RStr t) nx None)"
| "backend_cmd cf (GETK (rd_meta_key cf k))"
| "backend_cmd cf (SETK (rd_meta_key cf k) (RJson j) nx None)"

lemma map_of_overwrite: "set (map fst a) \<subseteq> set (map fst b) \<Longrightarrow> map_of a ++ map_of b = map_of b"
proof (rule ext)
  fix k
  assume s: "set (map fst a) \<subseteq> set (map fst b)"
  show "(map_of a ++ map_of b) k = map_of b k"
  proof (cases "map_of b k")
    case None
    then have "k \<notin> set (map fst a)" using s by (auto simp: map_of_eq_None_iff)
    then have "map_of a k = None" by (simp add: map_of_eq_None_iff)
    then show ?thesis using None by (simp add: map_add_def)
  qed (simp add: map_add_def)
qed

lemma mapping_keys:
  "map fst (record_to_mapping r) = map fst (record_to_mapping r')"
  "map fst (record_to_pending_mapping r) = map fst (record_to_pending_mapping r')"
  "map fst (scheduled_to_mapping e) = map fst (scheduled_to_mapping e')"
  by (simp_all add: record_to_mapping_def record_to_pending_mapping_def scheduled_to_mapping_def)

lemma holds_entry_written:
  assumes "holds_entry key enc (key e) h" and "\<And>e e'. map fst (enc e) = map fst (enc e')"
  shows "\<exists>g. h = Some g \<and> g ++ map_of (enc e) = map_of (enc e)"
proof -
  have "map_of (enc e') ++ map_of (enc e) = map_of (enc e)" for e'
    using assms(2) [of e' e] by (intro map_of_overwrite) (metis order_refl)
  then show ?thesis using assms(1) by (auto simp: holds_entry_def)
qed

lemma holds_entry_intros [simp]:
  "holds_entry key enc k (Some Map.empty)" "holds_entry key enc (key e) (Some (map_of (enc e)))"
  by (auto simp: holds_entry_def)

lemma holds_entry_fits: "holds_entry key enc k h \<Longrightarrow> h \<noteq> None"
  by (auto simp: holds_entry_def)

lemma redis_okD:
  assumes "redis_ok cf ks"
  shows "\<exists>ids. set_at ks (rd_index_key cf) = Some ids \<and> (\<forall>t \<in> ids. plain_id t)"
    "plain_id t \<Longrightarrow> holds_entry task_id record_to_mapping t (hash_at ks (rd_key cf t))"
    "\<exists>ids. set_at ks (rd_pending_index_key cf) = Some ids \<and> (\<forall>t \<in> ids. plain_id t)"
    "plain_id t \<Longrightarrow> holds_entry task_id record_to_pending_mapping t (hash_at ks (rd_pending_key cf t))"
    "\<exists>z. zset_at ks (rd_scheduled_index_key cf) = Some z \<and> z ''_index'' = None"
    "k \<noteq> ''_index'' \<Longrightarrow> holds_entry so_run_key scheduled_to_mapping k (hash_at ks (rd_scheduled_key cf k))"
    "\<exists>t. text_at ks (rd_idem_key cf k) = Some (map_option RStr t)"
    "\<exists>j. text_at ks (rd_meta_key cf k) = Some (map_option RJson j)"
    "lasting cf k \<Longrightarrow> ttl_at ks k = None"
  using assms unfolding redis_ok_def by blast+

lemma redis_ok_fits:
  assumes "redis_ok cf ks"
  shows "set_at ks (rd_index_key cf) \<noteq> None"
    "plain_id t \<Longrightarrow> hash_at ks (rd_key cf t) \<noteq> None"
    "set_at ks (rd_pending_index_key cf) \<noteq> None"
    "plain_id t \<Longrightarrow> hash_at ks (rd_pending_key cf t) \<noteq> None"
    "zset_at ks (rd_scheduled_index_key cf) \<noteq> None"
    "k \<noteq> ''_index'' \<Longrightarrow> hash_at ks (rd_scheduled_key cf k) \<noteq> None"
    "text_at ks (rd_idem_key cf k) \<noteq> None" "text_at ks (rd_meta_key cf k) \<noteq> None"
proof -
  note d = redis_okD [OF assms]
  show "set_at ks (rd_index_key cf) \<noteq> None" "set_at ks (rd_pending_index_key cf) \<noteq> None"
    "zset_at ks (rd_scheduled_index_key cf) \<noteq> None" "text_at ks (rd_idem_key cf k) \<noteq> None"
    "text_at ks (rd_meta_key cf k) \<noteq> None"
    using d(1) d(3) d(5) d(7) [of k] d(8) [of k] by auto
  show "plain_id t \<Longrightarrow> hash_at ks (rd_key cf t) \<noteq> None"
    "plain_id t \<Longrightarrow> hash_at ks (rd_pending_key cf t) \<noteq> None"
    "k \<noteq> ''_index'' \<Longrightarrow> hash_at ks (rd_scheduled_key cf k) \<noteq> None"
    by (rule holds_entry_fits, erule d(2) d(4) d(6))+
qed

lemma backend_cmd_fits:
  assumes "backend_cmd cf c" and "redis_ok cf ks"
  shows "fits c ks"
  using assms(1) by cases (simp_all add: redis_ok_fits [OF assms(2)])

text \<open>Each group of keys only cares about its own.\<close>

lemma redis_ok_frame:
  assumes "redis_ok cf ks"
    and "\<And>j. j \<noteq> k \<Longrightarrow> ks' j = ks j"
    and "k = rd_index_key cf \<Longrightarrow> \<exists>ids. set_at ks' k = Some ids \<and> (\<forall>t \<in> ids. plain_id t)"
    and "\<And>t. plain_id t \<Longrightarrow> k = rd_key cf t \<Longrightarrow> holds_entry task_id record_to_mapping t (hash_at ks' k)"
    and "k = rd_pending_index_key cf \<Longrightarrow> \<exists>ids. set_at ks' k = Some ids \<and> (\<forall>t \<in> ids. plain_id t)"
    and "\<And>t. plain_id t \<Longrightarrow> k = rd_pending_key cf t \<Longrightarrow>
           holds_entry task_id record_to_pending_mapping t (hash_at ks' k)"
    and "k = rd_scheduled_index_key cf \<Longrightarrow> \<exists>z. zset_at ks' k = Some z \<and> z ''_index'' = None"
    and "\<And>l. l \<noteq> ''_index'' \<Longrightarrow> k = rd_scheduled_key cf l \<Longrightarrow>
           holds_entry so_run_key scheduled_to_mapping l (hash_at ks' k)"
    and "\<And>l. k = rd_idem_key cf l \<Longrightarrow> \<exists>t. text_at ks' k = Some (map_option RStr t)"
    and "\<And>l. k = rd_meta_key cf l \<Longrightarrow> \<exists>j. text_at ks' k = Some (map_option RJson j)"
    and "lasting cf k \<Longrightarrow> ttl_at ks' k = None"
  shows "redis_ok cf ks'"
proof -
  have same: "hash_at ks' j = hash_at ks j" "set_at ks' j = set_at ks j" "zset_at ks' j = zset_at ks j"
    "text_at ks' j = text_at ks j" "ttl_at ks' j = ttl_at ks j" if "j \<noteq> k" for j
    using assms(2) [OF that] by (simp_all add: hash_at_def set_at_def zset_at_def text_at_def ttl_at_def)
  note d = redis_okD [OF assms(1)]
  show ?thesis
    unfolding redis_ok_def
  proof (intro conjI allI impI)
    show "\<exists>ids. set_at ks' (rd_index_key cf) = Some ids \<and> (\<forall>t \<in> ids. plain_id t)"
      using d(1) same(2) assms(3) by (cases "rd_index_key cf = k") auto
    show "holds_entry task_id record_to_mapping t (hash_at ks' (rd_key cf t))" if "plain_id t" for t
      using d(2) [OF that] same(1) assms(4) [OF that] by (cases "rd_key cf t = k") auto
    show "\<exists>ids. set_at ks' (rd_pending_index_key cf) = Some ids \<and> (\<forall>t \<in> ids. plain_id t)"
      using d(3) same(2) assms(5) by (cases "rd_pending_index_key cf = k") auto
    show "holds_entry task_id record_to_pending_mapping t (hash_at ks' (rd_pending_key cf t))"
      if "plain_id t" for t
      using d(4) [OF that] same(1) assms(6) [OF that] by (cases "rd_pending_key cf t = k") auto
    show "\<exists>z. zset_at ks' (rd_scheduled_index_key cf) = Some z \<and> z ''_index'' = None"
      using d(5) same(3) assms(7) by (cases "rd_scheduled_index_key cf = k") auto
    show "holds_entry so_run_key scheduled_to_mapping l (hash_at ks' (rd_scheduled_key cf l))"
      if "l \<noteq> ''_index''" for l
      using d(6) [OF that] same(1) assms(8) [OF that] by (cases "rd_scheduled_key cf l = k") auto
    show "\<exists>t. text_at ks' (rd_idem_key cf l) = Some (map_option RStr t)" for l
      using d(7) [of l] same(4) assms(9) [of l] by (cases "rd_idem_key cf l = k") auto
    show "\<exists>j. text_at ks' (rd_meta_key cf l) = Some (map_option RJson j)" for l
      using d(8) [of l] same(4) assms(10) [of l] by (cases "rd_meta_key cf l = k") auto
    show "ttl_at ks' j = None" if "lasting cf j" for j
      using d(9) [OF that] same(5) assms(11) that by (cases "j = k") auto
  qed
qed

text \<open>The key a command may change.\<close>

fun cmd_key :: "redis_cmd \<Rightarrow> string" where
  "cmd_key (HSET k m) = k"
| "cmd_key (HGETALL k) = k"
| "cmd_key (HGET k f) = k"
| "cmd_key (HMGET k fs) = k"
| "cmd_key (EXPIRE k s) = k"
| "cmd_key (SADD k m) = k"
| "cmd_key (SMEMBERS k) = k"
| "cmd_key (SREM k m) = k"
| "cmd_key (DEL k) = k"
| "cmd_key (ZADD k m x) = k"
| "cmd_key (ZRANGEBYSCORE k x) = k"
| "cmd_key (ZREM k ms) = k"
| "cmd_key (GETK k) = k"
| "cmd_key (SETK k v nx ex) = k"

lemma does_other: "j \<noteq> cmd_key c \<Longrightarrow> redis_does c now ks j = ks j"
  by (cases c) (auto simp: put_set_def put_zset_def split: option.splits)

lemma hset_does:
  assumes "holds_entry key enc (key e) (hash_at ks k)" and "\<And>e e'. map fst (enc e) = map fst (enc e')"
  shows "redis_does (HSET k (enc e)) now ks = ks(k \<mapsto> (KHash (map_of (enc e)), ttl_at ks k))"
  using holds_entry_written [OF assms] by auto

lemma hset_at:
  assumes "holds_entry key enc (key e) (hash_at ks k)" and "\<And>e e'. map fst (enc e) = map fst (enc e')"
  shows "hash_at (redis_does (HSET k (enc e)) now ks) k = Some (map_of (enc e))"
  unfolding hset_does [OF assms] by simp

lemma plain_not_index: "plain_id t \<Longrightarrow> t \<noteq> ''_index''"
  by (simp add: plain_id_def)

lemmas plain_keys = plain_not_index plain_key plain_key [symmetric]

fun sets_ttl :: "redis_cmd \<Rightarrow> bool" where
  "sets_ttl (EXPIRE k s) = True"
| "sets_ttl (SETK k v nx ex) = (ex \<noteq> None)"
| "sets_ttl _ = False"

lemma does_ttl: "\<not> sets_ttl c \<Longrightarrow> ttl_at ks k = None \<Longrightarrow> ttl_at (redis_does c now ks) k = None"
  by (cases c) (auto simp: ttl_at_def put_set_def put_zset_def split: option.splits)

lemma lasting_key: "plain_id t \<Longrightarrow> lasting cf (rd_key cf t) \<longleftrightarrow> rc_ttl cf = None"
  by (auto simp: lasting_def plain_keys)

lemma expire_at:
  "hash_at (redis_does (EXPIRE k s) now ks) k \<in> {Some Map.empty, hash_at ks k}"
  by (auto simp: hash_at_def split: option.splits redis_value.splits)

lemma backend_cmd_keeps:
  assumes "backend_cmd cf c" and "redis_ok cf ks"
  shows "redis_ok cf (redis_does c now ks)"
proof -
  note d = redis_okD [OF assms(2)]
    and frame = redis_ok_frame [OF assms(2), where k = "cmd_key c" and ks' = "redis_does c now ks", OF does_other]
  have ttl: "\<not> sets_ttl c \<Longrightarrow> lasting cf (cmd_key c) \<Longrightarrow> ttl_at (redis_does c now ks) (cmd_key c) = None"
    by (rule does_ttl) (simp_all add: d(9))
  have readers: "reads c \<Longrightarrow> ?thesis" using assms(2) by (simp add: reads_does)
  obtain ids pids z where ids: "set_at ks (rd_index_key cf) = Some ids" "\<forall>t \<in> ids. plain_id t"
      "set_at ks (rd_pending_index_key cf) = Some pids" "\<forall>t \<in> pids. plain_id t"
      "zset_at ks (rd_scheduled_index_key cf) = Some z" "z ''_index'' = None"
    using d(1,3,5) by blast
  from assms(1) show ?thesis
  proof cases
    case (1 r)
    then have "holds_entry task_id record_to_mapping (task_id r) (hash_at (redis_does c now ks) (rd_key cf (task_id r)))"
      using hset_at [OF d(2) mapping_keys(1)] by (simp del: redis_does.simps)
    then show ?thesis using 1 ttl
      by (intro frame) (auto simp add: plain_keys simp del: redis_does.simps)
  next
    case (2 t s)
    have "holds_entry task_id record_to_mapping t (hash_at (redis_does c now ks) (rd_key cf t))"
      using expire_at [of "rd_key cf t" s now ks] d(2) [OF 2(2)] 2(1) by auto
    then show ?thesis using 2
      by (intro frame) (auto simp add: plain_keys lasting_key simp del: redis_does.simps)
  next
    case (10 r)
    then have "holds_entry task_id record_to_pending_mapping (task_id r) (hash_at (redis_does c now ks) (rd_pending_key cf (task_id r)))"
      using hset_at [OF d(4) mapping_keys(2)] by (simp del: redis_does.simps)
    then show ?thesis using 10 ttl
      by (intro frame) (auto simp add: plain_keys simp del: redis_does.simps)
  next
    case (17 e)
    then have "holds_entry so_run_key scheduled_to_mapping (so_run_key e) (hash_at (redis_does c now ks) (rd_scheduled_key cf (so_run_key e)))"
      using hset_at [OF d(6) mapping_keys(3)] by (simp del: redis_does.simps)
    then show ?thesis using 17 ttl
      by (intro frame) (auto simp add: plain_keys simp del: redis_does.simps)
  next
    case (24 k t nx)
    have "\<exists>u. text_at (redis_does c now ks) (rd_idem_key cf k) = Some (map_option RStr u)"
      using d(7) [of k] 24 by (auto intro: exI [of _ "Some t"])
    then show ?thesis using 24 ttl by (intro frame) (auto simp: plain_keys simp del: redis_does.simps)
  next
    case (26 k j nx)
    have "\<exists>u. text_at (redis_does c now ks) (rd_meta_key cf k) = Some (map_option RJson u)"
      using d(8) [of k] 26 by (auto intro: exI [of _ "Some j"])
    then show ?thesis using 26 ttl by (intro frame) (auto simp: plain_keys simp del: redis_does.simps)
  qed (use readers frame ids ttl in \<open>auto simp: plain_keys\<close>)
qed

lemma backend_cmds_fit:
  "list_all (backend_cmd cf) cs \<Longrightarrow> redis_ok cf ks \<Longrightarrow>
   all_fit cs now ks \<and> redis_ok cf (redis_run cs now ks)"
  by (induction cs arbitrary: ks) (auto simp: backend_cmd_fits backend_cmd_keeps)

lemma redis_ok_live:
  assumes "redis_ok cf ks"
  shows "redis_ok cf (live now ks)"
proof -
  have h: "hash_at (live now ks) k \<in> {Some Map.empty, hash_at ks k}"
    "set_at (live now ks) k \<in> {Some {}, set_at ks k}"
    "zset_at (live now ks) k \<in> {Some Map.empty, zset_at ks k}"
    "text_at (live now ks) k \<in> {Some None, text_at ks k}"
    "ttl_at (live now ks) k \<in> {None, ttl_at ks k}" for k
    by (auto simp: live_def hash_at_def set_at_def zset_at_def text_at_def ttl_at_def split: option.splits)
  note d = redis_okD [OF assms]
  show ?thesis
    unfolding redis_ok_def
  proof (intro conjI allI impI)
    show "\<exists>ids. set_at (live now ks) (rd_index_key cf) = Some ids \<and> (\<forall>t \<in> ids. plain_id t)"
      using h(2) [of "rd_index_key cf"] d(1) by auto
    show "\<exists>ids. set_at (live now ks) (rd_pending_index_key cf) = Some ids \<and> (\<forall>t \<in> ids. plain_id t)"
      using h(2) [of "rd_pending_index_key cf"] d(3) by auto
    show "\<exists>z. zset_at (live now ks) (rd_scheduled_index_key cf) = Some z \<and> z ''_index'' = None"
      using h(3) [of "rd_scheduled_index_key cf"] d(5) by auto
    show "holds_entry task_id record_to_mapping t (hash_at (live now ks) (rd_key cf t))"
      if "plain_id t" for t using h(1) [of "rd_key cf t"] d(2) [OF that] by auto
    show "holds_entry task_id record_to_pending_mapping t (hash_at (live now ks) (rd_pending_key cf t))"
      if "plain_id t" for t using h(1) [of "rd_pending_key cf t"] d(4) [OF that] by auto
    show "holds_entry so_run_key scheduled_to_mapping k (hash_at (live now ks) (rd_scheduled_key cf k))"
      if "k \<noteq> ''_index''" for k using h(1) [of "rd_scheduled_key cf k"] d(6) [OF that] by auto
    show "\<exists>t. text_at (live now ks) (rd_idem_key cf k) = Some (map_option RStr t)" for k
      using h(4) [of "rd_idem_key cf k"] d(7) [of k] by (auto intro: exI [of _ None])
    show "\<exists>j. text_at (live now ks) (rd_meta_key cf k) = Some (map_option RJson j)" for k
      using h(4) [of "rd_meta_key cf k"] d(8) [of k] by (auto intro: exI [of _ None])
    show "ttl_at (live now ks) k = None" if "lasting cf k" for k
      using h(5) [of k] d(9) [OF that] by auto
  qed
qed

text \<open>A method's pipeline in a state of the right shape.\<close>

definition redis_good :: "('db \<Rightarrow> keyspace) \<Rightarrow> redis_conf \<Rightarrow> int \<Rightarrow> 'db \<Rightarrow> bool" where
  "redis_good look cf now db \<longleftrightarrow> redis_ok cf (live now (look db))"

lemma redis_good_later: "redis_good look cf now db \<Longrightarrow> now \<le> later \<Longrightarrow> redis_good look cf later db"
  unfolding redis_good_def using redis_ok_live [of cf "live now (look db)" later] by (simp add: live_later)

lemma rd_execute_good:
  assumes "redis_server srv look" and "redis_good look cf now db" and "list_all (backend_cmd cf) cs"
  obtains rs db' where "rd_execute srv now cs db = (Inr rs, db')"
    "all_say cs now (live now (look db)) rs"
    "live now (look db') = redis_run cs now (live now (look db))" "redis_good look cf now db'"
proof -
  note f = backend_cmds_fit [OF assms(3) assms(2) [unfolded redis_good_def], of now]
  obtain rs db' where r: "rd_execute srv now cs db = (Inr rs, db')"
      "all_say cs now (live now (look db)) rs" "live now (look db') = redis_run cs now (live now (look db))"
    using rd_execute_ok [OF assms(1)] f by blast
  moreover have "redis_good look cf now db'" using f r(3) by (simp add: redis_good_def)
  ultimately show ?thesis by (rule that)
qed

lemma rd_call_good:
  assumes "redis_server srv look" and "redis_good look cf now db" and "backend_cmd cf c"
  obtains r db' where "rd_call srv now c db = (Inr r, db')" "redis_says c (live now (look db)) r"
    "live now (look db') = redis_does c now (live now (look db))" "redis_good look cf now db'"
proof -
  note ok = assms(2) [unfolded redis_good_def]
  obtain r db' where r: "rd_call srv now c db = (Inr r, db')" "redis_says c (live now (look db)) r"
      "live now (look db') = redis_does c now (live now (look db))"
    using rd_call_ok [OF assms(1) backend_cmd_fits [OF assms(3) ok]] by blast
  moreover have "redis_good look cf now db'"
    using backend_cmd_keeps [OF assms(3) ok] r(3) by (simp add: redis_good_def)
  ultimately show ?thesis by (rule that)
qed

text \<open>The two steps every query is made of: the members of an index, and one read for each of them.\<close>

lemma rd_members_good:
  assumes "redis_server srv look" and "redis_good look cf now db" and "backend_cmd cf (SMEMBERS ik)"
    and "set_at (live now (look db)) ik = Some ids"
  obtains ms db' where "rd_call srv now (SMEMBERS ik) db = (Inr (PMembers ms), db')"
    "distinct ms" "set ms = ids" "live now (look db') = live now (look db)" "redis_good look cf now db'"
proof -
  obtain r db1 where r: "rd_call srv now (SMEMBERS ik) db = (Inr r, db1)"
      "redis_says (SMEMBERS ik) (live now (look db)) r"
      "live now (look db1) = redis_does (SMEMBERS ik) now (live now (look db))" "redis_good look cf now db1"
    using rd_call_good [OF assms(1-3)] .
  then show ?thesis using that assms(4) by auto
qed

lemma rd_reads_good:
  assumes "redis_server srv look" and "redis_good look cf now db"
    and "\<And>t. t \<in> set ms \<Longrightarrow> backend_cmd cf (c t)" and "\<And>t. reads (c t)"
  obtains rs db' where "rd_execute srv now (map c ms) db = (Inr rs, db')"
    "list_all2 (\<lambda>t r. redis_says (c t) (live now (look db)) r) ms rs"
    "live now (look db') = live now (look db)" "redis_good look cf now db'"
proof -
  have rd: "list_all reads (map c ms)" using assms(4) by (simp add: list_all_iff)
  have cs: "list_all (backend_cmd cf) (map c ms)" using assms(3) by (simp add: list_all_iff)
  obtain rs db' where x: "rd_execute srv now (map c ms) db = (Inr rs, db')"
      "all_say (map c ms) now (live now (look db)) rs"
      "live now (look db') = redis_run (map c ms) now (live now (look db))" "redis_good look cf now db'"
    using rd_execute_good [OF assms(1,2) cs] .
  have "list_all2 (\<lambda>t r. redis_says (c t) (live now (look db)) r) ms rs"
    using x(2) unfolding all_say_reads [OF rd] list_all2_map1 .
  then show ?thesis using that x(1,4) x(3) [unfolded redis_run_reads [OF rd]] by blast
qed

section \<open>What is read back\<close>

lemma json_fields [simp]:
  "rt_args (json_text_args as) = Inr (json_args (args_json as))"
  "rt_kwargs (json_text_kwargs kw) = Inr (json_kwargs (kwargs_json kw))"
  "rt_logs (RJson (JArr (map JStr lg))) = Inr lg"
  "rt_tags (RJson (JObj (map (\<lambda>(k, v). (k, JStr v)) tg))) = Inr tg"
proof -
  show "rt_args (json_text_args as) = Inr (json_args (args_json as))"
    by (simp add: rt_args_def json_text_args_def json_args_def)
  show "rt_kwargs (json_text_kwargs kw) = Inr (json_kwargs (kwargs_json kw))"
    by (simp add: rt_kwargs_def json_text_kwargs_def json_kwargs_def)
  have "map loads (map JStr lg) = map VStr lg" by simp
  then show "rt_logs (RJson (JArr (map JStr lg))) = Inr lg"
    by (simp add: rt_logs_def del: map_map as_strs.simps)
  have "map (\<lambda>(k, j). (k, loads j)) (map (\<lambda>(k, v). (k, JStr v)) tg) = map (\<lambda>(k, v). (k, VStr v)) tg"
    by (simp add: case_prod_beta)
  then show "rt_tags (RJson (JObj (map (\<lambda>(k, v). (k, JStr v)) tg))) = Inr tg"
    by (simp add: rt_tags_def del: map_map as_tags.simps)
qed

lemma field_reads:
  "m k = Some (or_blank f x) \<Longrightarrow> (\<And>v. x = Some v \<Longrightarrow> f v \<noteq> RStr [] \<and> g (f v) = Inr (h v)) \<Longrightarrow>
   if_given g m k = Inr (map_option h x)"
  "m k = Some v \<Longrightarrow> v \<noteq> RStr [] \<Longrightarrow> or_else g d m k = g v"
  by (cases x) (auto simp: if_given_def or_else_def hfield_def or_blank_def)

lemma text_reads:
  "m k = Some (or_blank RStr s) \<Longrightarrow> if_given rt_str m k = Inr (nonempty s)"
  "m k = Some (RStr t) \<Longrightarrow> or_else rt_str d m k = Inr (or_default t d)"
  "m k = Some v \<Longrightarrow> must g m k = g v"
  by (auto simp: if_given_def or_else_def must_def hfield_def or_blank_def nonempty_def or_default_def
      split: option.splits)

text \<open>What a record saved in Redis reads back as: as from SQLite, but an empty text is no text.\<close>

definition redis_view :: "task_record \<Rightarrow> task_record" where
  "redis_view r = (row_to_record (record_to_row (isoformat (naive_dt 0)) r))
                    \<lparr>error := nonempty (error r), stacktrace := nonempty (stacktrace r)\<rparr>"

lemma record_fields:
  "map_of (record_to_mapping r) ''task_id'' = Some (RStr (task_id r))"
  "map_of (record_to_mapping r) ''func_name'' = Some (RStr (func_name r))"
  "map_of (record_to_mapping r) ''status'' = Some (RStr (status_value (status r)))"
  "map_of (record_to_mapping r) ''created_at'' = Some (RIso (isoformat (created_at r)))"
  "map_of (record_to_mapping r) ''start_time'' = Some (or_blank (\<lambda>t. RIso (isoformat t)) (start_time r))"
  "map_of (record_to_mapping r) ''end_time'' = Some (or_blank (\<lambda>t. RIso (isoformat t)) (end_time r))"
  "map_of (record_to_mapping r) ''retries_used'' = Some (RInt (retries_used r))"
  "map_of (record_to_mapping r) ''error'' = Some (or_blank RStr (error r))"
  "map_of (record_to_mapping r) ''args_json'' = Some (json_text_args (args r))"
  "map_of (record_to_mapping r) ''kwargs_json'' = Some (json_text_kwargs (kwargs r))"
  "map_of (record_to_mapping r) ''logs_json'' = Some (RJson (JArr (map JStr (logs r))))"
  "map_of (record_to_mapping r) ''stacktrace'' = Some (or_blank RStr (stacktrace r))"
  "map_of (record_to_mapping r) ''encrypted_payload'' = Some (or_blank RStr (encrypted_payload r))"
  "map_of (record_to_mapping r) ''source'' = Some (RStr (source r))"
  "map_of (record_to_mapping r) ''priority'' = Some (or_blank RInt (priority r))"
  "map_of (record_to_mapping r) ''executor'' = Some (or_blank (\<lambda>k. RStr (exec_name k)) (executor r))"
  "map_of (record_to_mapping r) ''queue'' = Some (RStr (queue r))"
  by (simp_all add: record_to_mapping_def)

lemma time_read:
  "m k = Some (or_blank (\<lambda>t. RIso (isoformat t)) x) \<Longrightarrow>
   if_given rt_iso m k = Inr (map_option (\<lambda>t. fromisoformat (isoformat t)) x)"
  by (rule field_reads(1)) auto

lemma int_read: "m k = Some (or_blank RInt x) \<Longrightarrow> if_given rt_int m k = Inr x"
  using field_reads(1) [of m k RInt x rt_int "\<lambda>i. i"] by (simp add: option.map_ident)

lemma exec_read: "m k = Some (or_blank (\<lambda>e. RStr (exec_name e)) x) \<Longrightarrow> if_given rt_exec m k = Inr x"
proof -
  have n: "exec_name e \<noteq> []" for e by (cases e) simp_all
  show "m k = Some (or_blank (\<lambda>e. RStr (exec_name e)) x) \<Longrightarrow> ?thesis"
    using field_reads(1) [of m k "\<lambda>e. RStr (exec_name e)" x rt_exec "\<lambda>e. e"] n
    by (simp add: option.map_ident del: as_exec.simps)
qed

lemma other_read:
  "m k = Some (RIso (isoformat t)) \<Longrightarrow> or_else rt_iso d m k = Inr (fromisoformat (isoformat t))"
  "m k = Some (RInt i) \<Longrightarrow> or_else rt_int e m k = Inr i"
  "m k = Some (json_text_args as) \<Longrightarrow> or_else rt_args d' m k = Inr (json_args (args_json as))"
  "m k = Some (json_text_kwargs kw) \<Longrightarrow> or_else rt_kwargs e' m k = Inr (json_kwargs (kwargs_json kw))"
  "m k = Some (RJson (JArr (map JStr lg))) \<Longrightarrow> or_else rt_logs d'' m k = Inr lg"
proof -
  have n: "json_text_args as \<noteq> RStr []" "json_text_kwargs kw \<noteq> RStr []"
    by (simp_all add: json_text_args_def json_text_kwargs_def)
  show "m k = Some (json_text_args as) \<Longrightarrow> or_else rt_args d' m k = Inr (json_args (args_json as))"
    "m k = Some (json_text_kwargs kw) \<Longrightarrow> or_else rt_kwargs e' m k = Inr (json_kwargs (kwargs_json kw))"
    using n by (simp_all add: field_reads(2))
qed (simp_all add: field_reads(2))

lemmas field_rules = text_reads other_read time_read int_read exec_read

lemma nonempty_twice [simp]: "nonempty (nonempty s) = nonempty s"
  by (simp add: nonempty_def split: option.splits)

lemma record_mapping_roundtrip:
  "mapping_to_record now (map_of (record_to_mapping r)) = Inr (redis_view r)"
  by (simp add: mapping_to_record_def record_fields field_rules del: rt_str.simps rt_int.simps)
     (simp add: redis_view_def row_to_record_def record_to_row_def option.map_comp comp_def)

lemma pending_fields:
  "map_of (record_to_pending_mapping r) ''task_id'' = Some (RStr (task_id r))"
  "map_of (record_to_pending_mapping r) ''func_name'' = Some (RStr (func_name r))"
  "map_of (record_to_pending_mapping r) ''created_at'' = Some (RIso (isoformat (created_at r)))"
  "map_of (record_to_pending_mapping r) ''retries_used'' = Some (RInt (retries_used r))"
  "map_of (record_to_pending_mapping r) ''args_json'' = Some (json_text_args (args r))"
  "map_of (record_to_pending_mapping r) ''kwargs_json'' = Some (json_text_kwargs (kwargs r))"
  "map_of (record_to_pending_mapping r) ''encrypted_payload'' = Some (or_blank RStr (encrypted_payload r))"
  "map_of (record_to_pending_mapping r) ''queue'' = Some (RStr (queue r))"
  by (simp_all add: record_to_pending_mapping_def)

text \<open>A pending task reads back exactly as from SQLite.\<close>

lemma pending_mapping_roundtrip:
  "mapping_to_pending now (map_of (record_to_pending_mapping r)) = Inr (pend_to_record (record_to_pend r))"
  by (simp add: mapping_to_pending_def pending_fields field_rules del: rt_str.simps rt_int.simps)
     (simp add: pend_to_record_def record_to_pend_def)

lemma scheduled_fields:
  "map_of (scheduled_to_mapping e) ''run_key'' = Some (RStr (so_run_key e))"
  "map_of (scheduled_to_mapping e) ''func_name'' = Some (RStr (so_func_name e))"
  "map_of (scheduled_to_mapping e) ''fire_at'' = Some (RIso (isoformat (so_fire_at e)))"
  "map_of (scheduled_to_mapping e) ''created_at'' = Some (RIso (isoformat (so_created_at e)))"
  "map_of (scheduled_to_mapping e) ''args_json'' = Some (json_text_args (so_args e))"
  "map_of (scheduled_to_mapping e) ''kwargs_json'' = Some (json_text_kwargs (so_kwargs e))"
  "map_of (scheduled_to_mapping e) ''encrypted_payload'' = Some (or_blank RStr (so_encrypted_payload e))"
  "map_of (scheduled_to_mapping e) ''queue'' = Some (RStr (so_queue e))"
  "map_of (scheduled_to_mapping e) ''priority'' = Some (or_blank RInt (so_priority e))"
  "map_of (scheduled_to_mapping e) ''idempotency_key'' = Some (or_blank RStr (so_idempotency_key e))"
  "map_of (scheduled_to_mapping e) ''tags_json'' = Some (if so_tags e = [] then RStr []
                      else RJson (JObj (map (\<lambda>(k, v). (k, JStr v)) (so_tags e))))"
  by (simp_all add: scheduled_to_mapping_def)

lemma tags_read:
  "m k = Some (if tg = [] then RStr [] else RJson (JObj (map (\<lambda>(k, v). (k, JStr v)) tg))) \<Longrightarrow>
   or_else rt_tags [] m k = Inr tg"
  by (cases "tg = []") (simp_all add: or_else_def hfield_def del: map_eq_conv)

lemma fire_at_read:
  "m k = Some (RIso t) \<Longrightarrow>
   (case hfield m k of None \<Rightarrow> Inl x | Some v \<Rightarrow> rt_iso v) = Inr (fromisoformat t)"
  by (simp add: hfield_def)

lemma blank_default: "or_default t [] = t"
  by (simp add: or_default_def)

definition redis_scheduled_view :: "scheduled_once \<Rightarrow> scheduled_once" where
  "redis_scheduled_view e =
     (row_to_scheduled (sched_to_row e))\<lparr>so_idempotency_key := nonempty (so_idempotency_key e)\<rparr>"

lemma scheduled_mapping_roundtrip:
  "mapping_to_scheduled now (map_of (scheduled_to_mapping e)) = Inr (redis_scheduled_view e)"
  by (simp add: mapping_to_scheduled_def scheduled_fields field_rules tags_read fire_at_read blank_default
        del: rt_str.simps rt_int.simps rt_iso.simps)
     (simp add: redis_scheduled_view_def row_to_scheduled_def sched_to_row_def)

section \<open>History and pending tasks as maps\<close>

text \<open>The hash of each indexed id: what \<open>load\<close> sees.\<close>

definition indexed :: "string \<Rightarrow> (string \<Rightarrow> string) \<Rightarrow> keyspace \<Rightarrow> string \<rightharpoonup> hash_map" where
  "indexed ik kf ks t =
     (case set_at ks ik of None \<Rightarrow> None
      | Some ids \<Rightarrow> if t \<in> ids then (case hash_at ks (kf t) of None \<Rightarrow> None
                                      | Some h \<Rightarrow> if h = Map.empty then None else Some h)
                   else None)"

abbreviation rd_history :: "redis_conf \<Rightarrow> keyspace \<Rightarrow> string \<rightharpoonup> hash_map" where
  "rd_history cf \<equiv> indexed (rd_index_key cf) (rd_key cf)"

abbreviation rd_pending :: "redis_conf \<Rightarrow> keyspace \<Rightarrow> string \<rightharpoonup> hash_map" where
  "rd_pending cf \<equiv> indexed (rd_pending_index_key cf) (rd_pending_key cf)"

lemma map_of_empty: "map_of m = Map.empty \<longleftrightarrow> m = []"
  by (cases m) (auto simp: fun_eq_iff)

lemma read_hashes_Cons:
  "read_hashes f (PHash m # rs) =
     (if m \<noteq> [] \<and> hfield (map_of m) ''task_id'' \<noteq> None
      then bindr (f (map_of m)) (\<lambda>x. bindr (read_hashes f rs) (\<lambda>xs. Inr (x # xs)))
      else read_hashes f rs)"
  by (cases "f (map_of m)") (auto simp: read_hashes_def bindr_def split: sum.splits)

lemma read_hashes_Nil: "read_hashes f [] = Inr []"
  by (simp add: read_hashes_def)

lemma read_hashes_entries:
  assumes "list_all2 (\<lambda>t r. \<exists>m. r = PHash m \<and> hash_at ks (kf t) = Some (map_of m)) ids rs"
    and "\<forall>t \<in> set ids. t \<noteq> [] \<and> holds_entry key enc t (hash_at ks (kf t))"
    and f: "\<And>e. f (map_of (enc e)) = Inr (view e)"
    and i: "\<And>e. map_of (enc e) ''task_id'' = Some (RStr (key e))"
  shows "\<exists>out. read_hashes f rs = Inr out
           \<and> set out = {view e |e. key e \<in> set ids \<and> hash_at ks (kf (key e)) = Some (map_of (enc e))}"
  using assms(1,2)
proof (induction rule: list_all2_induct)
  case Nil
  then show ?case by (simp add: read_hashes_Nil)
next
  case (Cons t ids r rs)
  then obtain m where m: "r = PHash m" "hash_at ks (kf t) = Some (map_of m)" by blast
  obtain out where out: "read_hashes f rs = Inr out"
      "set out = {view e |e. key e \<in> set ids \<and> hash_at ks (kf (key e)) = Some (map_of (enc e))}"
    using Cons by auto
  show ?case
  proof (cases "m = []")
    case True
    have "map_of (enc e) \<noteq> Map.empty" for e using i [of e] by auto
    then have "hash_at ks (kf t) \<noteq> Some (map_of (enc e))" for e using m(2) True by (metis map_of_empty option.inject)
    then show ?thesis using out True m(1) by (auto simp: read_hashes_Cons)
  next
    case False
    then obtain e where e: "key e = t" "map_of m = map_of (enc e)"
      using Cons.prems m(2) by (auto simp: holds_entry_def map_of_empty)
    have same: "view e' = view e" if "map_of (enc e') = map_of (enc e)" for e'
      using f [of e'] f [of e] that by simp
    have "hfield (map_of m) ''task_id'' \<noteq> None"
      using i [of e] e Cons.prems by (simp add: hfield_def)
    then have "read_hashes f (r # rs) = Inr (view e # out)"
      using False m(1) out(1) f [of e] e(2) by (simp add: read_hashes_Cons)
    moreover have "set (view e # out) = {view e |e. key e \<in> set (t # ids) \<and> hash_at ks (kf (key e)) = Some (map_of (enc e))}"
    proof -
      have "{view e' |e'. key e' \<in> set (t # ids) \<and> hash_at ks (kf (key e')) = Some (map_of (enc e'))}
              = {view e' |e'. key e' = t \<and> hash_at ks (kf t) = Some (map_of (enc e'))} \<union> set out"
        unfolding out(2) by auto
      moreover have "{view e' |e'. key e' = t \<and> hash_at ks (kf t) = Some (map_of (enc e'))} = {view e}"
      proof (intro equalityI subsetI)
        fix x assume "x \<in> {view e' |e'. key e' = t \<and> hash_at ks (kf t) = Some (map_of (enc e'))}"
        then obtain e' where "x = view e'" "hash_at ks (kf t) = Some (map_of (enc e'))" by blast
        then show "x \<in> {view e}" using same [of e'] m(2) e(2) by simp
      next
        fix x assume "x \<in> {view e}"
        then show "x \<in> {view e' |e'. key e' = t \<and> hash_at ks (kf t) = Some (map_of (enc e'))}"
          using e m(2) by auto
      qed
      ultimately show ?thesis by simp
    qed
    ultimately show ?thesis by blast
  qed
qed

text \<open>Both loads: the ids of the index, then one \<open>HGETALL\<close> each.\<close>

definition load_indexed ::
  "'db server \<Rightarrow> int \<Rightarrow> string \<Rightarrow> (string \<Rightarrow> string) \<Rightarrow> (hash_map \<Rightarrow> py_exc + 'a) \<Rightarrow> ('db, 'a list) redis_io" where
  "load_indexed srv now ik kf f =
     and_then (rd_call srv now (SMEMBERS ik)) (\<lambda>r.
       if reply_members r = [] then pure_io []
       else and_then (rd_execute srv now (map (\<lambda>t. HGETALL (kf t)) (reply_members r)))
              (\<lambda>rs. lift_exc (read_hashes f rs)))"

lemma loads_are_indexed:
  "rd_load srv cf now = load_indexed srv now (rd_index_key cf) (rd_key cf) (mapping_to_record now)"
  "rd_load_pending srv cf now =
     load_indexed srv now (rd_pending_index_key cf) (rd_pending_key cf) (mapping_to_pending now)"
  by (simp_all add: rd_load_def rd_load_pending_def load_indexed_def)

lemma load_indexed_good:
  assumes S: "redis_server srv look" and g: "redis_good look cf now db"
    and ik: "backend_cmd cf (SMEMBERS ik)"
    and ids: "set_at (live now (look db)) ik = Some ids" "\<forall>t \<in> ids. plain_id t"
    and kf: "\<And>t. plain_id t \<Longrightarrow> backend_cmd cf (HGETALL (kf t))"
    and h: "\<And>t. plain_id t \<Longrightarrow> holds_entry key enc t (hash_at (live now (look db)) (kf t))"
    and f: "\<And>e. f (map_of (enc e)) = Inr (view e)"
    and i: "\<And>e. map_of (enc e) ''task_id'' = Some (RStr (key e))"
  obtains out db' where "load_indexed srv now ik kf f db = (Inr out, db')"
    "live now (look db') = live now (look db)" "redis_good look cf now db'"
    "set out = {view e |e. indexed ik kf (live now (look db)) (key e) = Some (map_of (enc e))}"
proof -
  let ?ks = "live now (look db)"
  obtain ms db1 where r: "rd_call srv now (SMEMBERS ik) db = (Inr (PMembers ms), db1)" "distinct ms"
      and ms: "set ms = ids" and l1: "live now (look db1) = ?ks" "redis_good look cf now db1"
    using rd_members_good [OF S g ik ids(1)] .
  have ne: "map_of (enc e) \<noteq> Map.empty" for e using i [of e] by auto
  have ix: "indexed ik kf ?ks t = Some (map_of (enc e)) \<longleftrightarrow> t \<in> ids \<and> hash_at ?ks (kf t) = Some (map_of (enc e))"
    for t e using ne [of e] ids(1) by (auto simp: indexed_def split: option.splits)
  show ?thesis
  proof (cases "ms = []")
    case True
    then have "load_indexed srv now ik kf f db = (Inr [], db1)" using r(1) by (simp add: load_indexed_def)
    then show ?thesis using that l1 ix ms True by simp
  next
    case False
    obtain rs db2 where x: "rd_execute srv now (map (\<lambda>t. HGETALL (kf t)) ms) db1 = (Inr rs, db2)"
        "list_all2 (\<lambda>t r. redis_says (HGETALL (kf t)) (live now (look db1)) r) ms rs"
        "live now (look db2) = live now (look db1)" "redis_good look cf now db2"
      by (rule rd_reads_good [OF S l1(2), of ms "\<lambda>t. HGETALL (kf t)"]) (use kf ids(2) ms in auto)
    have each: "\<exists>m. r = PHash m \<and> hash_at ?ks (kf t) = Some (map_of m)"
      if "t \<in> set ms" "redis_says (HGETALL (kf t)) (live now (look db1)) r" for t r
      using that h [of t] ids(2) ms l1(1) by (auto split: option.splits dest!: holds_entry_fits)
    have "list_all2 (\<lambda>t r. \<exists>m. r = PHash m \<and> hash_at ?ks (kf t) = Some (map_of m)) ms rs"
      using x(2) by (rule list.rel_mono_strong) (rule each)
    then obtain out where out: "read_hashes f rs = Inr out"
        "set out = {view e |e. key e \<in> set ms \<and> hash_at ?ks (kf (key e)) = Some (map_of (enc e))}"
      using read_hashes_entries [of ?ks kf ms rs key enc f view] h ids(2) ms f i
      by (auto simp: plain_id_def)
    have "load_indexed srv now ik kf f db = (Inr out, db2)"
      using r(1) False x(1) out(1) by (simp add: load_indexed_def)
    then show ?thesis using that x(3,4) l1(1) out(2) ix ms by simp
  qed
qed

end
