(* ===== verification/Redis_Memory.thy ===== *)
theory Redis_Memory
  imports Redis_Backend
begin

text \<open>
  A server in memory that keeps the documentation, so that what is proved of the backend under
  \<open>redis_server\<close> can be run. It forgets a key when it reads it after its time.
\<close>

datatype mem_value =
    MHash rhash
  | MSet "string list"
  | MZset "(string, int) dict"
  | MText rtext

type_synonym mem_db = "string \<Rightarrow> (mem_value \<times> int option) option"

fun mem_val :: "mem_value \<Rightarrow> redis_value" where
  "mem_val (MHash m) = KHash (map_of m)"
| "mem_val (MSet xs) = KSet (set xs)"
| "mem_val (MZset z) = KZset (map_of z)"
| "mem_val (MText v) = KText v"

definition mem_look :: "mem_db \<Rightarrow> keyspace" where
  "mem_look db k = (case db k of None \<Rightarrow> None | Some (v, e) \<Rightarrow> Some (mem_val v, e))"

definition mem_live :: "int \<Rightarrow> mem_db \<Rightarrow> mem_db" where
  "mem_live now db k =
     (case db k of None \<Rightarrow> None
      | Some (v, e) \<Rightarrow> (case e of None \<Rightarrow> Some (v, e) | Some t \<Rightarrow> if t \<le> now then None else Some (v, e)))"

definition m_ttl :: "mem_db \<Rightarrow> string \<Rightarrow> int option" where
  "m_ttl db k = (case db k of None \<Rightarrow> None | Some (_, e) \<Rightarrow> e)"

definition m_hash :: "mem_db \<Rightarrow> string \<Rightarrow> rhash option" where
  "m_hash db k = (case db k of None \<Rightarrow> Some [] | Some (MHash m, _) \<Rightarrow> Some m | _ \<Rightarrow> None)"

definition m_set :: "mem_db \<Rightarrow> string \<Rightarrow> string list option" where
  "m_set db k = (case db k of None \<Rightarrow> Some [] | Some (MSet m, _) \<Rightarrow> Some m | _ \<Rightarrow> None)"

definition m_zset :: "mem_db \<Rightarrow> string \<Rightarrow> (string, int) dict option" where
  "m_zset db k = (case db k of None \<Rightarrow> Some [] | Some (MZset z, _) \<Rightarrow> Some z | _ \<Rightarrow> None)"

definition wrong_kind :: redis_reply where
  "wrong_kind = PErr ''WRONGTYPE Operation against a key holding the wrong kind of value''"

fun mem_exec :: "redis_cmd \<Rightarrow> int \<Rightarrow> mem_db \<Rightarrow> redis_reply \<times> mem_db" where
  "mem_exec (HSET k m) now db =
     (case m_hash db k of None \<Rightarrow> (wrong_kind, db)
      | Some h \<Rightarrow> (PNum (length m), db(k \<mapsto> (MHash (m @ h), m_ttl db k))))"
| "mem_exec (HGETALL k) now db =
     (case m_hash db k of None \<Rightarrow> (wrong_kind, db) | Some h \<Rightarrow> (PHash (AList.clearjunk h), db))"
| "mem_exec (HGET k f) now db =
     (case m_hash db k of None \<Rightarrow> (wrong_kind, db)
      | Some h \<Rightarrow> (case dget h f of None \<Rightarrow> PNil | Some v \<Rightarrow> PText v, db))"
| "mem_exec (HMGET k fs) now db =
     (case m_hash db k of None \<Rightarrow> (wrong_kind, db) | Some h \<Rightarrow> (PFields (map (dget h) fs), db))"
| "mem_exec (EXPIRE k s) now db =
     (case db k of None \<Rightarrow> (PNum 0, db)
      | Some (v, _) \<Rightarrow> (PNum 1, if s \<le> 0 then db(k := None) else db(k \<mapsto> (v, Some (in_secs now s)))))"
| "mem_exec (SADD k m) now db =
     (case m_set db k of None \<Rightarrow> (wrong_kind, db)
      | Some xs \<Rightarrow> (PNum (if m \<in> set xs then 0 else 1), db(k \<mapsto> (MSet (m # xs), m_ttl db k))))"
| "mem_exec (SMEMBERS k) now db =
     (case m_set db k of None \<Rightarrow> (wrong_kind, db) | Some xs \<Rightarrow> (PMembers (remdups xs), db))"
| "mem_exec (SREM k m) now db =
     (case m_set db k of None \<Rightarrow> (wrong_kind, db)
      | Some xs \<Rightarrow> (PNum (if m \<in> set xs then 1 else 0),
                    db(k := if set xs \<subseteq> {m} then None else Some (MSet (removeAll m xs), m_ttl db k))))"
| "mem_exec (DEL k) now db = (PNum (if db k = None then 0 else 1), db(k := None))"
| "mem_exec (ZADD k m x) now db =
     (case m_zset db k of None \<Rightarrow> (wrong_kind, db)
      | Some z \<Rightarrow> (PNum (if dget z m = None then 1 else 0), db(k \<mapsto> (MZset ((m, x) # z), m_ttl db k))))"
| "mem_exec (ZRANGEBYSCORE k x) now db =
     (case m_zset db k of None \<Rightarrow> (wrong_kind, db)
      | Some z \<Rightarrow> (PMembers (map fst (sort_key snd (filter (\<lambda>(m, y). y \<le> x) (AList.clearjunk z)))), db))"
| "mem_exec (ZREM k ms) now db =
     (case m_zset db k of None \<Rightarrow> (wrong_kind, db)
      | Some z \<Rightarrow> (PNum 0,
                   let z' = filter (\<lambda>(m, y). m \<notin> set ms) z
                   in db(k := if z' = [] then None else Some (MZset z', m_ttl db k))))"
| "mem_exec (GETK k) now db =
     (case db k of None \<Rightarrow> (PNil, db) | Some (MText v, _) \<Rightarrow> (PText v, db) | _ \<Rightarrow> (wrong_kind, db))"
| "mem_exec (SETK k v nx ex) now db =
     (if (case ex of None \<Rightarrow> False | Some s \<Rightarrow> s \<le> 0) then (PErr ''ERR invalid expire time'', db)
      else if nx \<and> db k \<noteq> None then (PNil, db)
      else (POk, db(k \<mapsto> (MText v, map_option (in_secs now) ex))))"

definition mem_server :: "mem_db server" where
  "mem_server c now db = mem_exec c now (mem_live now db)"

section \<open>It keeps the documentation\<close>

lemma mem_look_live: "mem_look (mem_live now db) = live now (mem_look db)"
  by (auto simp: fun_eq_iff mem_look_def mem_live_def live_def key_expired_def split: option.splits)

lemma mem_look_upd: "mem_look (db(k := x)) = (mem_look db)(k := (case x of None \<Rightarrow> None | Some (v, e) \<Rightarrow> Some (mem_val v, e)))"
  by (auto simp: fun_eq_iff mem_look_def)

lemma mem_at:
  "hash_at (mem_look db) k = map_option map_of (m_hash db k)"
  "set_at (mem_look db) k = map_option set (m_set db k)"
  "zset_at (mem_look db) k = map_option map_of (m_zset db k)"
  "ttl_at (mem_look db) k = m_ttl db k"
  "mem_look db k = None \<longleftrightarrow> db k = None"
  by (auto simp: hash_at_def set_at_def zset_at_def ttl_at_def m_hash_def m_set_def m_zset_def m_ttl_def
      mem_look_def fun_eq_iff split: option.splits mem_value.splits)

lemma wrong_kind_says [simp]: "wrong_type wrong_kind"
  by (simp add: wrong_kind_def wrong_type_def)

lemma mem_exec_says: "redis_says c (mem_look db) (fst (mem_exec c now db))"
proof (cases c)
  case (ZRANGEBYSCORE k x)
  show ?thesis
  proof (cases "m_zset db k")
    case (Some z)
    let ?zs = "filter (\<lambda>(m, y). y \<le> x) (AList.clearjunk z)"
    have d: "distinct (map fst (AList.clearjunk z))" by (rule distinct_clearjunk)
    have in_z: "(m, y) \<in> set (AList.clearjunk z) \<longleftrightarrow> dget z m = Some y" for m y
      using map_of_eq_Some_iff [OF d, of m y] by (simp add: map_of_clearjunk)
    have "distinct (map fst (sort_key snd ?zs))"
      using distinct_map_filter [OF d] by (metis distinct_map distinct_sort set_sort)
    moreover have "set (map fst (sort_key snd ?zs)) = {m. \<exists>y. dget z m = Some y \<and> y \<le> x}"
      using in_z by force
    moreover have "sorted (map (\<lambda>m. the (dget z m)) (map fst (sort_key snd ?zs)))"
    proof -
      have "map (\<lambda>m. the (dget z m)) (map fst (sort_key snd ?zs)) = map snd (sort_key snd ?zs)"
        using in_z by auto
      then show ?thesis by (simp only: sorted_sort_key)
    qed
    ultimately show ?thesis using ZRANGEBYSCORE Some by (auto simp: mem_at)
  qed (simp add: ZRANGEBYSCORE mem_at)
next
  case (HGETALL k)
  then show ?thesis
    by (auto simp: mem_at map_of_clearjunk distinct_clearjunk split: option.splits)
next
  case (GETK k)
  then show ?thesis
    by (auto simp: text_at_def mem_look_def split: option.splits mem_value.splits)
next
  case (SETK k v nx ex)
  then show ?thesis by (auto simp: mem_at split: option.splits)
qed (auto simp: mem_at split: option.splits)

lemma map_of_filter_key:
  "map_of (filter (\<lambda>(m, y). m \<notin> M) z) = (\<lambda>m. if m \<in> M then None else map_of z m)"
  by (induction z) (auto simp: fun_eq_iff)

lemma map_of_empty_iff: "map_of z = Map.empty \<longleftrightarrow> z = []"
  by (cases z) (auto simp: fun_eq_iff)

lemma mem_exec_does: "mem_look (snd (mem_exec c now db)) = redis_does c now (mem_look db)"
proof (cases c)
  case (SREM k m)
  then show ?thesis
    by (cases "m_set db k") (simp_all add: mem_at mem_look_upd put_set_def)
next
  case (ZREM k ms)
  show ?thesis
  proof (cases "m_zset db k")
    case (Some z)
    let ?z = "filter (\<lambda>(m, y). m \<notin> set ms) z"
    have f: "(\<lambda>m. if m \<in> set ms then None else map_of z m) = map_of ?z"
      by (simp only: map_of_filter_key)
    have "redis_does c now (mem_look db) = put_zset k (map_of ?z) (mem_look db)"
      by (simp add: ZREM mem_at Some f)
    moreover have "mem_look (snd (mem_exec c now db)) = put_zset k (map_of ?z) (mem_look db)"
      by (simp add: ZREM Some Let_def mem_look_upd put_zset_def map_of_empty_iff mem_at)
    ultimately show ?thesis by simp
  qed (simp add: ZREM mem_at)
next
  case (EXPIRE k s)
  show ?thesis
  proof (cases "db k")
    case None
    then show ?thesis using EXPIRE by (simp add: mem_at(5) [THEN iffD2])
  next
    case (Some p)
    obtain v e where "p = (v, e)" by (cases p)
    then have "mem_look db k = Some (mem_val v, e)" using Some by (simp add: mem_look_def)
    then show ?thesis using EXPIRE Some \<open>p = (v, e)\<close> by (simp add: mem_look_upd)
  qed
next
  case (SETK k v nx ex)
  then show ?thesis by (cases "db k") (simp_all add: mem_at mem_look_upd)
next
  case (HSET k m)
  then show ?thesis by (cases "m_hash db k") (simp_all add: mem_at mem_look_upd)
next
  case (SADD k m)
  then show ?thesis by (cases "m_set db k") (simp_all add: mem_at mem_look_upd put_set_def)
next
  case (ZADD k m x)
  then show ?thesis by (cases "m_zset db k") (simp_all add: mem_at mem_look_upd put_zset_def)
next
  case (DEL k)
  then show ?thesis by (simp add: mem_look_upd)
qed (simp_all split: option.split mem_value.split prod.split)

lemma ttl_live: "ttl_at (live now ks) k = Some e \<Longrightarrow> now < e"
  by (auto simp: ttl_at_def live_def key_expired_def split: option.splits if_splits)

lemma live_does: "live now (redis_does c now (live now ks)) = redis_does c now (live now ks)"
proof -
  let ?ks = "live now ks"
  have k: "live now (?ks(j := Some (v, ttl_at ?ks j))) = ?ks(j := Some (v, ttl_at ?ks j))" for j v
    using ttl_live [of now ks j]
    by (auto simp: live_def key_expired_def fun_eq_iff split: option.splits)
  have n: "live now (?ks(j := None)) = ?ks(j := None)" for j
    by (auto simp: live_def fun_eq_iff split: option.splits)
  have s: "live now (?ks(j := Some (v, e))) = ?ks(j := Some (v, e))" if "case e of None \<Rightarrow> True | Some t \<Rightarrow> now < t"
    for j v e using that by (auto simp: live_def key_expired_def fun_eq_iff split: option.splits)
  have i: "live now ?ks = ?ks" by (auto simp: live_def key_expired_def fun_eq_iff split: option.splits)
  show ?thesis
    by (cases c) (auto simp: k n s i put_set_def put_zset_def in_secs_def split: option.splits)
qed

lemma mem_server_documented: "redis_server mem_server mem_look"
proof -
  have "redis_says c (live now (mem_look db)) (fst (mem_server c now db))"
    and "live now (mem_look (snd (mem_server c now db))) = redis_does c now (live now (mem_look db))" for c now db
    using mem_exec_says [of c "mem_live now db" now] live_does [of now c "mem_look db"]
    by (simp_all add: mem_server_def mem_exec_does mem_look_live)
  then show ?thesis unfolding redis_server_def by blast
qed

end
