(* ===== verification/Redis_Props.thy ===== *)
theory Redis_Props
  imports Redis_Facts Redis_Memory Core_Props
begin

text \<open>
  What the Redis backend guarantees on a server that keeps its documentation: what a record saved
  there reads back as and for how long, that it prunes as SQLite does, exactly-once claims, exclusive
  schedule locks, and the one key a caller can choose that breaks it.
\<close>

section \<open>Saving and deleting history\<close>

definition ttl_positive :: "redis_conf \<Rightarrow> bool" where
  "ttl_positive cf \<longleftrightarrow> (case rc_ttl cf of None \<Rightarrow> True | Some s \<Rightarrow> 0 < s)"

lemma history_index:
  assumes "redis_ok cf ks"
  obtains ids where "set_at ks (rd_index_key cf) = Some ids" "\<forall>t \<in> ids. plain_id t"
  using redis_okD(1) [OF assms] by blast

lemma save_one:
  assumes "redis_ok cf ks" and "plain_id (task_id r)" and "ttl_positive cf"
    and "set_at ks (rd_index_key cf) = Some ids"
  shows "redis_run (rd_save_cmds cf r) now ks =
     put_set (rd_index_key cf) (insert (task_id r) ids)
       (ks(rd_key cf (task_id r) \<mapsto>
            (KHash (map_of (record_to_mapping r)), map_option (in_secs now) (rc_ttl cf))))"
proof -
  let ?k = "rd_key cf (task_id r)"
  have h: "redis_does (HSET ?k (record_to_mapping r)) now ks
             = ks(?k \<mapsto> (KHash (map_of (record_to_mapping r)), ttl_at ks ?k))"
    by (rule hset_does [OF redis_okD(2) [OF assms(1,2)] mapping_keys(1)])
  show ?thesis
  proof (cases "rc_ttl cf")
    case None
    then have "ttl_at ks ?k = None" using redis_okD(9) [OF assms(1)] assms(2) by (simp add: lasting_key)
    then show ?thesis
      using None assms(2,4) h by (simp add: rd_save_cmds_def plain_keys del: redis_does.simps(1))
  next
    case (Some s)
    then show ?thesis
      using assms(2-4) h
      by (simp add: rd_save_cmds_def plain_keys ttl_positive_def del: redis_does.simps(1))
  qed
qed

lemma save_cmds_issued:
  "\<forall>r \<in> set rs. plain_id (task_id r) \<Longrightarrow> list_all (backend_cmd cf) (concat (map (rd_save_cmds cf) rs))"
  by (induction rs) (auto simp: rd_save_cmds_def intro: backend_cmd.intros split: option.splits)

lemma delete_cmds_issued:
  "\<forall>t \<in> set ids. plain_id t \<Longrightarrow> list_all (backend_cmd cf) (rd_delete_cmds cf ids)"
  by (induction ids) (auto simp: rd_delete_cmds_def intro: backend_cmd.intros)

lemma entry_not_empty: "map_of (record_to_mapping r) \<noteq> Map.empty"
  using record_fields(1) [of r] by auto

lemma save_one_history:
  assumes "redis_ok cf ks" and "plain_id (task_id r)" and "ttl_positive cf"
  shows "rd_history cf (redis_run (rd_save_cmds cf r) now ks)
           = (rd_history cf ks)(task_id r \<mapsto> map_of (record_to_mapping r))"
    and "t \<noteq> ''_index'' \<Longrightarrow> ttl_at (redis_run (rd_save_cmds cf r) now ks) (rd_key cf t)
           = (if t = task_id r then map_option (in_secs now) (rc_ttl cf) else ttl_at ks (rd_key cf t))"
proof -
  obtain ids where i: "set_at ks (rd_index_key cf) = Some ids" "\<forall>t \<in> ids. plain_id t"
    using history_index [OF assms(1)] .
  note s = save_one [OF assms i(1)]
  show "rd_history cf (redis_run (rd_save_cmds cf r) now ks)
           = (rd_history cf ks)(task_id r \<mapsto> map_of (record_to_mapping r))"
  proof
    fix t
    show "rd_history cf (redis_run (rd_save_cmds cf r) now ks) t
            = ((rd_history cf ks)(task_id r \<mapsto> map_of (record_to_mapping r))) t"
    proof (cases "t = ''_index''")
      case True
      then have "t \<notin> insert (task_id r) ids" using assms(2) i(2) plain_not_index by blast
      then show ?thesis unfolding s using i(1) by (simp add: indexed_def)
    next
      case False
      then show ?thesis unfolding s using i(1) entry_not_empty [of r] by (simp add: indexed_def)
    qed
  qed
  show "t \<noteq> ''_index'' \<Longrightarrow> ttl_at (redis_run (rd_save_cmds cf r) now ks) (rd_key cf t)
           = (if t = task_id r then map_option (in_secs now) (rc_ttl cf) else ttl_at ks (rd_key cf t))"
    unfolding s by (simp add: put_set_def ttl_at_def)
qed

lemma redis_run_ok: "list_all (backend_cmd cf) cs \<Longrightarrow> redis_ok cf ks \<Longrightarrow> redis_ok cf (redis_run cs now ks)"
  using backend_cmds_fit by blast

lemma save_all_history:
  assumes "redis_ok cf ks" and "\<forall>r \<in> set rs. plain_id (task_id r)" and "ttl_positive cf"
    and "distinct (map task_id rs)" and "r \<in> set rs"
  shows "rd_history cf (redis_run (concat (map (rd_save_cmds cf) rs)) now ks) (task_id r)
           = Some (map_of (record_to_mapping r))
       \<and> ttl_at (redis_run (concat (map (rd_save_cmds cf) rs)) now ks) (rd_key cf (task_id r))
           = map_option (in_secs now) (rc_ttl cf)"
proof -
  have keep: "rd_history cf (redis_run (concat (map (rd_save_cmds cf) xs)) now k) t = rd_history cf k t
      \<and> ttl_at (redis_run (concat (map (rd_save_cmds cf) xs)) now k) (rd_key cf t) = ttl_at k (rd_key cf t)"
    if "t \<notin> task_id ` set xs" "plain_id t" "redis_ok cf k" "\<forall>r \<in> set xs. plain_id (task_id r)" for xs k t
    using that
  proof (induction xs arbitrary: k)
    case (Cons x xs)
    have p: "plain_id (task_id x)" using Cons.prems by simp
    have "redis_ok cf (redis_run (rd_save_cmds cf x) now k)"
      using save_cmds_issued [of "[x]"] p Cons.prems(3) by (intro redis_run_ok) auto
    then show ?case
      using Cons save_one_history(1) [OF Cons.prems(3) p assms(3), of now]
        save_one_history(2) [OF Cons.prems(3) p assms(3) plain_not_index [OF Cons.prems(2)], of now] by auto
  qed simp
  show ?thesis
    using assms
  proof (induction rs arbitrary: ks)
    case (Cons x xs)
    have p: "plain_id (task_id x)" using Cons.prems by simp
    have ok: "redis_ok cf (redis_run (rd_save_cmds cf x) now ks)"
      using save_cmds_issued [of "[x]"] p Cons.prems(1) by (intro redis_run_ok) auto
    show ?case
    proof (cases "r = x")
      case True
      then show ?thesis
        using Cons.prems keep [of "task_id x" xs "redis_run (rd_save_cmds cf x) now ks"] ok p
          save_one_history(1) [OF Cons.prems(1) p assms(3), of now]
          save_one_history(2) [OF Cons.prems(1) p assms(3) plain_not_index [OF p], of now] by auto
    next
      case False
      then show ?thesis using Cons ok by auto
    qed
  qed simp
qed

lemma rd_save_good:
  assumes "redis_server srv look" and "redis_good look cf now db" and "\<forall>r \<in> set rs. plain_id (task_id r)"
  obtains db' where "rd_save srv cf now rs db = (Inr (length rs), db')"
    "live now (look db') = redis_run (concat (map (rd_save_cmds cf) rs)) now (live now (look db))"
    "redis_good look cf now db'"
proof (cases "rs = []")
  case True
  then show ?thesis using that assms(2) by (simp add: rd_save_def)
next
  case False
  obtain out db' where "rd_execute srv now (concat (map (rd_save_cmds cf) rs)) db = (Inr out, db')"
    "live now (look db') = redis_run (concat (map (rd_save_cmds cf) rs)) now (live now (look db))"
    "redis_good look cf now db'"
    by (rule rd_execute_good [OF assms(1,2) save_cmds_issued [OF assms(3)]])
  then show ?thesis using that False by (simp add: rd_save_def)
qed

lemma rd_load_good:
  assumes "redis_server srv look" and "redis_good look cf now db"
  obtains out db' where "rd_load srv cf now db = (Inr out, db')"
    "live now (look db') = live now (look db)" "redis_good look cf now db'"
    "set out = {redis_view r |r. rd_history cf (live now (look db)) (task_id r) = Some (map_of (record_to_mapping r))}"
proof -
  note ok = assms(2) [unfolded redis_good_def]
  obtain ids where i: "set_at (live now (look db)) (rd_index_key cf) = Some ids" "\<forall>t \<in> ids. plain_id t"
    using history_index [OF ok] .
  show ?thesis
    by (rule load_indexed_good [OF assms _ i, of "rd_key cf" task_id record_to_mapping
          "mapping_to_record now" redis_view])
      (auto intro: backend_cmd.intros redis_okD(2) [OF ok] that [unfolded loads_are_indexed]
        simp: record_mapping_roundtrip record_fields)
qed

section \<open>Lifetimes\<close>

lemma history_later:
  assumes "redis_ok cf ks" and "plain_id t"
  shows "rd_history cf (live later ks) t =
           (case ttl_at ks (rd_key cf t) of
              None \<Rightarrow> rd_history cf ks t
            | Some e \<Rightarrow> if e \<le> later then None else rd_history cf ks t)"
proof -
  have "ttl_at ks (rd_index_key cf) = None" by (rule redis_okD(9) [OF assms(1)]) (simp add: lasting_def)
  then have "set_at (live later ks) (rd_index_key cf) = set_at ks (rd_index_key cf)"
    by (auto simp: set_at_def live_def key_expired_def ttl_at_def split: option.splits)
  moreover have "hash_at (live later ks) (rd_key cf t) =
      (case ttl_at ks (rd_key cf t) of None \<Rightarrow> hash_at ks (rd_key cf t)
       | Some e \<Rightarrow> if e \<le> later then Some Map.empty else hash_at ks (rd_key cf t))"
    by (auto simp: hash_at_def live_def key_expired_def ttl_at_def split: option.splits)
  ultimately show ?thesis by (auto simp: indexed_def split: option.splits)
qed

text \<open>C11: Records saved in Redis are loaded, as SQLite loads them but with an empty error or stack trace
  read as none, until the configured lifetime has passed, and never after; without a lifetime they
  stay.\<close>

theorem redis_record_lifetime:
  assumes "redis_server srv look" and "redis_good look cf now db" and "ttl_positive cf"
    and "\<forall>r \<in> set rs. plain_id (task_id r)" and "distinct (map task_id rs)" and "now \<le> later"
  shows "\<exists>db1 out db2. rd_save srv cf now rs db = (Inr (length rs), db1)
           \<and> rd_load srv cf later db1 = (Inr out, db2)
           \<and> (\<forall>r \<in> set rs. redis_view r \<in> set out \<longleftrightarrow>
                (case rc_ttl cf of None \<Rightarrow> True | Some s \<Rightarrow> later < now + s * 1000000))"
proof -
  let ?ks = "redis_run (concat (map (rd_save_cmds cf) rs)) now (live now (look db))"
  obtain db1 where s: "rd_save srv cf now rs db = (Inr (length rs), db1)"
      "live now (look db1) = ?ks" "redis_good look cf now db1"
    using rd_save_good [OF assms(1,2,4)] .
  note g = redis_good_later [OF s(3) assms(6)]
  obtain out db2 where l: "rd_load srv cf later db1 = (Inr out, db2)"
      and "live later (look db2) = live later (look db1)" "redis_good look cf later db2"
      and out: "set out = {redis_view r |r. rd_history cf (live later (look db1)) (task_id r) = Some (map_of (record_to_mapping r))}"
    using rd_load_good [OF assms(1) g] .
  have ks: "live later (look db1) = live later ?ks"
    using live_later [OF assms(6), of "look db1"] unfolding s(2) by (rule sym)
  have ok: "redis_ok cf ?ks" using s(2,3) by (simp add: redis_good_def)
  have id_view: "task_id (redis_view r) = task_id r" for r
    by (simp add: redis_view_def row_to_record_def record_to_row_def)
  have "redis_view r \<in> set out \<longleftrightarrow>
          (case rc_ttl cf of None \<Rightarrow> True | Some s \<Rightarrow> later < now + s * 1000000)" (is "_ \<longleftrightarrow> ?alive")
    if r: "r \<in> set rs" for r
  proof -
    have "plain_id (task_id r)" using assms(4) r by blast
    then have h: "rd_history cf (live later ?ks) (task_id r)
        = (if ?alive then Some (map_of (record_to_mapping r)) else None)"
      using history_later [OF ok] save_all_history [OF assms(2) [unfolded redis_good_def] assms(4,3,5) r, of now]
      by (auto simp: in_secs_def split: option.splits)
    show ?thesis
    proof
      assume "redis_view r \<in> set out"
      then obtain r' where v: "redis_view r = redis_view r'"
          and "rd_history cf (live later ?ks) (task_id r') = Some (map_of (record_to_mapping r'))"
        unfolding out ks by blast
      moreover have "task_id r' = task_id r" using arg_cong [OF v, of task_id] by (simp add: id_view)
      ultimately have "rd_history cf (live later ?ks) (task_id r) \<noteq> None" by simp
      then show ?alive using h by (simp split: if_splits)
    next
      assume ?alive
      then show "redis_view r \<in> set out" unfolding out ks using h by auto
    qed
  qed
  then show ?thesis using s(1) l by blast
qed

lemma redis_good_empty: "redis_good mem_look cf now (\<lambda>_. None)"
proof -
  have "live now (mem_look (\<lambda>_. None)) = Map.empty" by (simp add: fun_eq_iff live_def mem_look_def)
  then show ?thesis by (simp add: redis_good_def redis_ok_empty)
qed

section \<open>Pruning\<close>

lemma iso_blank: "or_blank (\<lambda>t. RIso (isoformat t)) x = RStr [] \<longleftrightarrow> x = None"
  by (cases x) (simp_all add: or_blank_def)

text \<open>Redis prunes a record exactly when SQLite would.\<close>

lemma redis_prunes_like_sqlite:
  "fields_expired c (map (map_of (record_to_mapping r)) [''end_time'', ''status'']) = row_expired c (record_to_row n r)"
proof -
  have s: "terminal_status (RStr (status_value st)) \<longleftrightarrow> st \<in> {SUCCESS, FAILED, INTERRUPTED}" for st
    by (cases st) (simp_all add: terminal_status_def)
  have n: "status_value st \<noteq> []" for st by (cases st) simp_all
  show ?thesis
    by (cases "end_time r")
       (auto simp: fields_expired_def row_expired_def record_fields record_to_row_def s n or_blank_def)
qed

definition hash_expired :: "isotext \<Rightarrow> hash_map \<Rightarrow> bool" where
  "hash_expired c h \<longleftrightarrow> fields_expired c (map h [''end_time'', ''status''])"

lemma delete_one_history:
  assumes "redis_ok cf ks" and "plain_id t"
  shows "rd_history cf (redis_run (rd_delete_cmds cf [t]) now ks) = (rd_history cf ks)(t := None)"
proof
  fix u
  obtain ids where i: "set_at ks (rd_index_key cf) = Some ids" "\<forall>t \<in> ids. plain_id t"
    using history_index [OF assms(1)] .
  have "redis_run (rd_delete_cmds cf [t]) now ks = put_set (rd_index_key cf) (ids - {t}) (ks(rd_key cf t := None))"
    using i assms(2) by (simp add: rd_delete_cmds_def plain_keys)
  then show "rd_history cf (redis_run (rd_delete_cmds cf [t]) now ks) u = ((rd_history cf ks)(t := None)) u"
    using i assms(2) plain_not_index by (cases "u \<in> ids") (auto simp: indexed_def)
qed

lemma delete_cmds_Cons: "rd_delete_cmds cf (t # ts) = rd_delete_cmds cf [t] @ rd_delete_cmds cf ts"
  by (simp add: rd_delete_cmds_def)

lemma delete_all_history:
  assumes "redis_ok cf ks" and "\<forall>t \<in> set ts. plain_id t"
  shows "rd_history cf (redis_run (rd_delete_cmds cf ts) now ks)
           = (\<lambda>t. if t \<in> set ts then None else rd_history cf ks t)"
  using assms
proof (induction ts arbitrary: ks)
  case Nil
  then show ?case by (simp add: rd_delete_cmds_def)
next
  case (Cons t ts)
  have "redis_ok cf (redis_run (rd_delete_cmds cf [t]) now ks)"
    using Cons.prems by (intro redis_run_ok delete_cmds_issued) auto
  then show ?case
    using Cons delete_one_history [OF Cons.prems(1), of t now]
    by (subst delete_cmds_Cons) (auto simp: fun_eq_iff)
qed

lemma rd_delete_good:
  assumes "redis_server srv look" and "redis_good look cf now db" and "\<forall>t \<in> set ts. plain_id t"
  obtains rs db' where "rd_execute srv now (rd_delete_cmds cf ts) db = (Inr rs, db')"
    "rd_history cf (live now (look db'))
       = (\<lambda>t. if t \<in> set ts then None else rd_history cf (live now (look db)) t)"
    "redis_good look cf now db'"
proof -
  obtain rs db' where x: "rd_execute srv now (rd_delete_cmds cf ts) db = (Inr rs, db')"
      and "all_say (rd_delete_cmds cf ts) now (live now (look db)) rs"
      and r: "live now (look db') = redis_run (rd_delete_cmds cf ts) now (live now (look db))"
      and g: "redis_good look cf now db'"
    using rd_execute_good [OF assms(1,2) delete_cmds_issued [OF assms(3)]] .
  have "rd_history cf (live now (look db'))
          = (\<lambda>t. if t \<in> set ts then None else rd_history cf (live now (look db)) t)"
    unfolding r by (rule delete_all_history [OF assms(2) [unfolded redis_good_def] assms(3)])
  then show ?thesis using that x g by blast
qed

lemma rd_delete_found_good:
  assumes "redis_server srv look" and "redis_good look cf now db" and "\<forall>t \<in> set ts. plain_id t"
  shows "\<exists>db'. rd_delete_found srv cf now ts db = (Inr (length ts), db')
      \<and> rd_history cf (live now (look db'))
          = (\<lambda>t. if t \<in> set ts then None else rd_history cf (live now (look db)) t)"
proof (cases "ts = []")
  case True
  then show ?thesis by (simp add: rd_delete_found_def)
next
  case False
  obtain rs db' where "rd_execute srv now (rd_delete_cmds cf ts) db = (Inr rs, db')"
    "rd_history cf (live now (look db'))
       = (\<lambda>t. if t \<in> set ts then None else rd_history cf (live now (look db)) t)"
    "redis_good look cf now db'"
    using rd_delete_good [OF assms] .
  then show ?thesis using False by (simp add: rd_delete_found_def)
qed

lemma zip_filter_map:
  "map fst (filter (\<lambda>(t, x). P x) (zip ts (map f ts))) = filter (\<lambda>t. P (f t)) ts"
  by (induction ts) auto

text \<open>What a prune reads: the two fields of every indexed hash.\<close>

definition hash_of :: "redis_conf \<Rightarrow> keyspace \<Rightarrow> string \<Rightarrow> hash_map" where
  "hash_of cf ks t = the (hash_at ks (rd_key cf t))"

lemma history_of:
  assumes "redis_ok cf ks" and "set_at ks (rd_index_key cf) = Some ids" and "\<forall>t \<in> ids. plain_id t"
  shows "rd_history cf ks t = (if t \<in> ids \<and> hash_of cf ks t \<noteq> Map.empty then Some (hash_of cf ks t) else None)"
proof (cases "t \<in> ids")
  case True
  then obtain h where "hash_at ks (rd_key cf t) = Some h" using redis_ok_fits(2) [OF assms(1), of t] assms(3) by auto
  then show ?thesis using True assms(2) by (simp add: indexed_def hash_of_def)
qed (simp add: indexed_def assms(2))

lemma rd_scan_good:
  assumes S: "redis_server srv look" and g: "redis_good look cf now db" and p: "\<forall>t \<in> set ms. plain_id t"
  obtains rs db' where
    "rd_execute srv now (map (\<lambda>t. HMGET (rd_key cf t) [''end_time'', ''status'']) ms) db = (Inr rs, db')"
    "map fst (filter (\<lambda>(t, x). fields_expired c (reply_fields x)) (zip ms rs))
       = filter (\<lambda>t. hash_expired c (hash_of cf (live now (look db)) t)) ms"
    "live now (look db') = live now (look db)" "redis_good look cf now db'"
proof -
  let ?ks = "live now (look db)" and ?c = "\<lambda>t. HMGET (rd_key cf t) [''end_time'', ''status'']"
  obtain rs db' where x: "rd_execute srv now (map ?c ms) db = (Inr rs, db')"
      "list_all2 (\<lambda>t r. redis_says (?c t) ?ks r) ms rs" "live now (look db') = ?ks" "redis_good look cf now db'"
    by (rule rd_reads_good [OF S g, of ms ?c]) (use p in \<open>auto intro: backend_cmd.intros\<close>)
  have each: "r = PFields (map (hash_of cf ?ks t) [''end_time'', ''status''])"
    if "t \<in> set ms" "redis_says (?c t) ?ks r" for t r
    using that redis_ok_fits(2) [OF g [unfolded redis_good_def], of t] p by (auto simp: hash_of_def)
  have "list_all2 (\<lambda>t r. r = PFields (map (hash_of cf ?ks t) [''end_time'', ''status''])) ms rs"
    using x(2) by (rule list.rel_mono_strong) (rule each)
  then have "rs = map (\<lambda>t. PFields (map (hash_of cf ?ks t) [''end_time'', ''status''])) ms"
    by (induction rule: list_all2_induct) simp_all
  then have "map fst (filter (\<lambda>(t, x). fields_expired c (reply_fields x)) (zip ms rs))
       = filter (\<lambda>t. hash_expired c (hash_of cf ?ks t)) ms"
    by (simp add: zip_filter_map hash_expired_def)
  then show ?thesis using that x(1,3,4) by blast
qed

lemma redis_prune_exact:
  assumes S: "redis_server srv look" and g: "redis_good look cf now db"
  shows "\<exists>db'. rd_delete_before srv cf now cutoff db =
             (Inr (card {t. \<exists>h. rd_history cf (live now (look db)) t = Some h \<and> hash_expired (isoformat cutoff) h}), db')
           \<and> rd_history cf (live now (look db')) =
               (\<lambda>t. case rd_history cf (live now (look db)) t of None \<Rightarrow> None
                    | Some h \<Rightarrow> if hash_expired (isoformat cutoff) h then None else Some h)"
proof -
  let ?ks = "live now (look db)" and ?c = "isoformat cutoff"
  note ok = g [unfolded redis_good_def]
  obtain ids where i: "set_at ?ks (rd_index_key cf) = Some ids" "\<forall>t \<in> ids. plain_id t"
    using history_index [OF ok] .
  obtain ms db1 where r: "rd_call srv now (SMEMBERS (rd_index_key cf)) db = (Inr (PMembers ms), db1)"
      and ms: "distinct ms" "set ms = ids" and l1: "live now (look db1) = ?ks" "redis_good look cf now db1"
    using rd_members_good [OF S g backend_cmd.intros(5) i(1)] .
  let ?dead = "filter (\<lambda>t. hash_expired ?c (hash_of cf ?ks t)) ms"
  have blank: "\<not> hash_expired ?c Map.empty" by (simp add: hash_expired_def fields_expired_def)
  have dead: "set ?dead = {t. \<exists>h. rd_history cf ?ks t = Some h \<and> hash_expired ?c h}"
    using history_of [OF ok i] blank ms(2) by (auto split: if_splits)
  have count: "length ?dead = card {t. \<exists>h. rd_history cf ?ks t = Some h \<and> hash_expired ?c h}"
    using distinct_card [of ?dead] ms(1) dead by simp
  have left: "(\<lambda>t. if t \<in> set ?dead then None else rd_history cf ?ks t) =
      (\<lambda>t. case rd_history cf ?ks t of None \<Rightarrow> None | Some h \<Rightarrow> if hash_expired ?c h then None else Some h)"
    unfolding dead by (rule ext) (simp split: option.split)
  have "\<exists>db'. rd_delete_before srv cf now cutoff db = (Inr (length ?dead), db')
      \<and> rd_history cf (live now (look db')) = (\<lambda>t. if t \<in> set ?dead then None else rd_history cf ?ks t)"
  proof (cases "ms = []")
    case True
    then show ?thesis using r l1(1) by (simp add: rd_delete_before_def)
  next
    case False
    have p: "\<forall>t \<in> set ms. plain_id t" using i(2) ms(2) by simp
    obtain rs db2 where x: "rd_execute srv now (map (\<lambda>t. HMGET (rd_key cf t) [''end_time'', ''status'']) ms) db1 = (Inr rs, db2)"
        "map fst (filter (\<lambda>(t, x). fields_expired ?c (reply_fields x)) (zip ms rs)) = ?dead"
        "live now (look db2) = ?ks" "redis_good look cf now db2"
      using rd_scan_good [OF S l1(2) p, of ?c] unfolding l1(1) .
    have run: "rd_delete_before srv cf now cutoff db = rd_delete_found srv cf now ?dead db2"
      using r False x(1) by (simp add: rd_delete_before_def x(2))
    have "\<forall>t \<in> set ?dead. plain_id t" using p by auto
    from rd_delete_found_good [OF S x(4) this] show ?thesis unfolding run x(3) .
  qed
  then show ?thesis using count left by simp
qed

section \<open>Claims\<close>

text \<open>Claims at the times of a clock that does not run backwards; an exception claims nothing.\<close>

definition claim_at ::
  "(int \<Rightarrow> string \<Rightarrow> ('db, bool) redis_io) \<Rightarrow> (nat \<Rightarrow> int) \<Rightarrow> string \<Rightarrow> 'db \<times> nat \<Rightarrow> bool \<times> ('db \<times> nat)" where
  "claim_at claim clock k s =
     (case claim (clock (snd s)) k (fst s) of
        (Inr b, db') \<Rightarrow> (b, (db', Suc (snd s))) | (Inl e, db') \<Rightarrow> (False, (db', Suc (snd s))))"

lemma lasting_later:
  assumes "redis_good look cf now db" and "lasting cf k" and "now \<le> later"
  shows "live later (look db) k = live now (look db) k"
proof -
  have "ttl_at (live now (look db)) k = None"
    using redis_okD(9) assms(1,2) unfolding redis_good_def by blast
  then have "live later (live now (look db)) k = live now (look db) k"
    by (auto simp: live_def key_expired_def ttl_at_def split: option.splits if_splits)
  then show ?thesis by (simp add: live_later [OF assms(3)])
qed

text \<open>Both claims delete one hash and its index entry, and report whether the hash was there.\<close>

lemma delete_pair_good:
  assumes "redis_server srv look" and "redis_good look cf now db"
    and "backend_cmd cf (DEL k)" and "backend_cmd cf c" and "cmd_key c \<noteq> k"
  shows "\<exists>db'. and_then (rd_execute srv now [DEL k, c]) (\<lambda>rs. pure_io (hd rs = PNum 1)) db
               = (Inr (live now (look db) k \<noteq> None), db')
             \<and> live now (look db') k = None \<and> redis_good look cf now db'
             \<and> (\<forall>j. j \<noteq> k \<longrightarrow> j \<noteq> cmd_key c \<longrightarrow> live now (look db') j = live now (look db) j)"
proof -
  have "list_all (backend_cmd cf) [DEL k, c]" using assms(3,4) by simp
  then obtain rs db' where x: "rd_execute srv now [DEL k, c] db = (Inr rs, db')"
      "all_say [DEL k, c] now (live now (look db)) rs"
      "live now (look db') = redis_run [DEL k, c] now (live now (look db))" "redis_good look cf now db'"
    using rd_execute_good [OF assms(1,2), of "[DEL k, c]"] by metis
  have "hd rs = PNum 1 \<longleftrightarrow> live now (look db) k \<noteq> None"
    using x(2) by (auto split: list.splits)
  moreover have "live now (look db') k = None"
    using does_other [of k c now "(live now (look db))(k := None)"] assms(5) unfolding x(3) by simp
  moreover have "\<forall>j. j \<noteq> k \<longrightarrow> j \<noteq> cmd_key c \<longrightarrow> live now (look db') j = live now (look db) j"
    using does_other [of _ c now "(live now (look db))(k := None)"] unfolding x(3) by simp
  ultimately show ?thesis using x(1,4) by simp
qed

lemma claim_once_at:
  assumes "redis_server srv look" and "mono clock"
    and "\<And>now k. claim now k = and_then (rd_execute srv now [DEL (kf k), c k]) (\<lambda>rs. pure_io (hd rs = PNum 1))"
    and "\<And>k. valid k \<Longrightarrow> backend_cmd cf (DEL (kf k)) \<and> backend_cmd cf (c k) \<and> lasting cf (kf k)"
    and "\<And>k j. valid j \<Longrightarrow> cmd_key (c k) \<noteq> kf j" and "inj kf"
  shows "claim_once (claim_at claim clock) (\<lambda>s k. live (clock (snd s)) (look (fst s)) (kf k) \<noteq> None)
           (\<lambda>s. redis_good look cf (clock (snd s)) (fst s)) valid"
proof
  fix s :: "'a \<times> nat" and k j
  obtain db i where s: "s = (db, i)" by (cases s)
  assume g: "redis_good look cf (clock (snd s)) (fst s)" and v: "valid k"
  obtain db' where d: "claim (clock i) k db = (Inr (live (clock i) (look db) (kf k) \<noteq> None), db')"
      "live (clock i) (look db') (kf k) = None" "redis_good look cf (clock i) db'"
      "\<forall>j. j \<noteq> kf k \<longrightarrow> j \<noteq> cmd_key (c k) \<longrightarrow> live (clock i) (look db') j = live (clock i) (look db) j"
    using delete_pair_good [OF assms(1), of cf "clock i" db "kf k" "c k"] assms(3-5) g v s by auto
  have r: "claim_at claim clock k s = (live (clock i) (look db) (kf k) \<noteq> None, (db', Suc i))"
    by (simp add: claim_at_def s d(1))
  have le: "clock i \<le> clock (Suc i)" using assms(2) by (simp add: mono_iff_le_Suc)
  show "fst (claim_at claim clock k s) = (live (clock (snd s)) (look (fst s)) (kf k) \<noteq> None)"
    unfolding r by (simp add: s)
  show "redis_good look cf (clock (snd (snd (claim_at claim clock k s)))) (fst (snd (claim_at claim clock k s)))"
    using redis_good_later [OF d(3) le] unfolding r by simp
  assume j: "valid j"
  have "live (clock (Suc i)) (look db') (kf j) = live (clock i) (look db') (kf j)"
    using lasting_later [OF d(3) _ le] assms(4) [OF j] by blast
  then show "(live (clock (snd (snd (claim_at claim clock k s)))) (look (fst (snd (claim_at claim clock k s)))) (kf j) \<noteq> None)
      = (j \<noteq> k \<and> live (clock (snd s)) (look (fst s)) (kf j) \<noteq> None)"
    using d(2,4) assms(5) [OF j, of k] assms(6) unfolding r by (cases "j = k") (auto simp: s inj_eq)
qed

lemma redis_pending_claims:
  assumes "redis_server srv look" and "mono clock"
  shows "claim_once (claim_at (rd_claim_pending srv cf) clock)
           (\<lambda>s k. live (clock (snd s)) (look (fst s)) (rd_pending_key cf k) \<noteq> None)
           (\<lambda>s. redis_good look cf (clock (snd s)) (fst s)) plain_id"
  by (rule claim_once_at [OF assms, where c = "\<lambda>k. SREM (rd_pending_index_key cf) k"])
    (auto simp: rd_claim_pending_def fun_eq_iff lasting_def inj_def plain_not_index intro: backend_cmd.intros)

lemma redis_scheduled_claims:
  assumes "redis_server srv look" and "mono clock"
  shows "claim_once (claim_at (rd_claim_scheduled srv cf) clock)
           (\<lambda>s k. live (clock (snd s)) (look (fst s)) (rd_scheduled_key cf k) \<noteq> None)
           (\<lambda>s. redis_good look cf (clock (snd s)) (fst s)) (\<lambda>k. k \<noteq> ''_index'')"
  by (rule claim_once_at [OF assms, where c = "\<lambda>k. ZREM (rd_scheduled_index_key cf) [k]"])
    (auto simp: rd_claim_scheduled_def rd_delete_scheduled_def fun_eq_iff lasting_def inj_def
      intro: backend_cmd.intros)

text \<open>C12: However the instances sharing a Redis server interleave their claims of pending tasks, each
  task that is stored is handed to exactly one of the claims made for it.\<close>

theorem redis_claims_once:
  assumes "redis_server srv look" and "mono clock" and "redis_good look cf (clock 0) db"
    and "\<forall>t \<in> set ids. plain_id t" and "t \<in> set ids"
    and "live (clock 0) (look db) (rd_pending_key cf t) \<noteq> None"
  shows "wins t ids (fst (run_claims (claim_at (rd_claim_pending srv cf) clock) ids (db, 0))) = 1"
  using claim_once.wins_exactly_once [OF redis_pending_claims [OF assms(1,2)], of cf "(db, 0)" ids t] assms(3-6)
  by (simp add: list_all_iff)

lemma redis_scheduled_claimed_once:
  assumes "redis_server srv look" and "mono clock" and "redis_good look cf (clock 0) db"
    and "''_index'' \<notin> set ks" and "k \<in> set ks"
    and "live (clock 0) (look db) (rd_scheduled_key cf k) \<noteq> None"
  shows "wins k ks (fst (run_claims (claim_at (rd_claim_scheduled srv cf) clock) ks (db, 0))) = 1"
  using claim_once.wins_exactly_once [OF redis_scheduled_claims [OF assms(1,2)], of cf "(db, 0)" ks k] assms(3-6)
  by (auto simp: list_all_iff)

section \<open>Schedule locks\<close>

definition redis_held :: "('db \<Rightarrow> keyspace) \<Rightarrow> 'db \<Rightarrow> string \<Rightarrow> int option" where
  "redis_held look db k = (case look db (rd_lock_key k) of None \<Rightarrow> None | Some (_, e) \<Rightarrow> e)"

definition locks_expire :: "('db \<Rightarrow> keyspace) \<Rightarrow> 'db \<Rightarrow> bool" where
  "locks_expire look db \<longleftrightarrow> (\<forall>k v e. look db (rd_lock_key k) = Some (v, e) \<longrightarrow> e \<noteq> None)"

definition redis_acquire :: "'db server \<Rightarrow> string \<Rightarrow> int \<Rightarrow> int \<Rightarrow> 'db \<Rightarrow> bool \<times> 'db" where
  "redis_acquire srv k ttl now db =
     (case rd_acquire_schedule_lock srv k ttl now db of (Inr b, db') \<Rightarrow> (b, db') | (Inl e, db') \<Rightarrow> (False, db'))"

lemma redis_acquire_step:
  assumes "redis_server srv look" and "0 < ttl"
  shows "\<exists>db'. redis_acquire srv k ttl now db = (live now (look db) (rd_lock_key k) = None, db')
      \<and> live now (look db') = redis_does (SETK (rd_lock_key k) (RStr ''1'') True (Some ttl)) now (live now (look db))"
proof -
  obtain r db' where c: "rd_call srv now (SETK (rd_lock_key k) (RStr ''1'') True (Some ttl)) db = (Inr r, db')"
      "redis_says (SETK (rd_lock_key k) (RStr ''1'') True (Some ttl)) (live now (look db)) r"
      "live now (look db') = redis_does (SETK (rd_lock_key k) (RStr ''1'') True (Some ttl)) now (live now (look db))"
    using rd_call_ok [OF assms(1), of "SETK (rd_lock_key k) (RStr ''1'') True (Some ttl)" now db] assms(2) by auto
  have "r \<noteq> PNil \<longleftrightarrow> live now (look db) (rd_lock_key k) = None"
    using c(2) assms(2) by (cases "live now (look db) (rd_lock_key k)") auto
  then show ?thesis using c(1,3) by (simp add: redis_acquire_def rd_acquire_schedule_lock_def)
qed

lemma live_Some: "live now ks k = Some (v, e) \<Longrightarrow> ks k = Some (v, e)"
  by (auto simp: live_def split: option.splits if_splits)

lemma live_alive: "ks k = Some (v, Some e) \<Longrightarrow> now < e \<Longrightarrow> live now ks k = Some (v, Some e)"
  by (simp add: live_def key_expired_def)

lemma dead_or_live: "ks k = Some v \<Longrightarrow> live now ks k = Some v \<or> snd v \<noteq> None"
  by (auto simp: live_def key_expired_def split: option.splits)

lemma redis_lock:
  assumes "redis_server srv look"
  shows "ttl_lock (redis_acquire srv) (redis_held look) (locks_expire look) (\<lambda>ttl. 0 < ttl)"
proof
  fix db k j and ttl now e :: int
  assume good: "locks_expire look db" and pos: "0 < ttl"
  obtain db' where a: "redis_acquire srv k ttl now db = (live now (look db) (rd_lock_key k) = None, db')"
      "live now (look db') = redis_does (SETK (rd_lock_key k) (RStr ''1'') True (Some ttl)) now (live now (look db))"
    using redis_acquire_step [OF assms pos] by blast
  show "fst (redis_acquire srv k ttl now db) = (case redis_held look db k of None \<Rightarrow> True | Some e \<Rightarrow> e \<le> now)"
    using good unfolding a(1)
    by (auto simp: redis_held_def locks_expire_def live_def key_expired_def split: option.splits)
  show "redis_held look (snd (redis_acquire srv k ttl now db)) k = Some (now + ttl * 1000000)"
    if "fst (redis_acquire srv k ttl now db)"
  proof -
    have "live now (look db') (rd_lock_key k) = Some (KText (RStr ''1''), Some (in_secs now ttl))"
      using that a pos by simp
    then have "look db' (rd_lock_key k) = Some (KText (RStr ''1''), Some (in_secs now ttl))" by (rule live_Some)
    then show ?thesis by (simp add: a(1) redis_held_def in_secs_def)
  qed
  show "locks_expire look (snd (redis_acquire srv k ttl now db))"
    unfolding locks_expire_def
  proof (intro allI impI)
    fix l v x assume x: "look (snd (redis_acquire srv k ttl now db)) (rd_lock_key l) = Some (v, x)"
    show "x \<noteq> None"
    proof (cases "live now (look db') (rd_lock_key l) = Some (v, x)")
      case True
      then have "(v, x) = (KText (RStr ''1''), Some (in_secs now ttl)) \<or> live now (look db) (rd_lock_key l) = Some (v, x)"
        unfolding a(2) by (auto split: if_splits)
      then show ?thesis using good live_Some unfolding locks_expire_def by blast
    next
      case False
      then show ?thesis using dead_or_live [of "look db'" _ "(v, x)" now] x a(1) by auto
    qed
  qed
  show "redis_held look (snd (redis_acquire srv j ttl now db)) k = Some e"
    if held: "redis_held look db k = Some e" "now < e"
  proof -
    obtain db2 where b: "redis_acquire srv j ttl now db = (live now (look db) (rd_lock_key j) = None, db2)"
        "live now (look db2) = redis_does (SETK (rd_lock_key j) (RStr ''1'') True (Some ttl)) now (live now (look db))"
      using redis_acquire_step [OF assms pos] by blast
    obtain v where "look db (rd_lock_key k) = Some (v, Some e)"
      using held(1) by (cases "look db (rd_lock_key k)") (auto simp: redis_held_def)
    then have l: "live now (look db) (rd_lock_key k) = Some (v, Some e)" using held(2) by (rule live_alive)
    have "live now (look db2) (rd_lock_key k) = Some (v, Some e)"
      using l unfolding b(2) by (auto simp: rd_lock_key_def)
    then show ?thesis using live_Some [of now "look db2"] by (simp add: b(1) redis_held_def)
  qed
qed

text \<open>The lock of a periodic schedule is exclusive on Redis too.\<close>

lemma redis_lock_exclusive:
  assumes "redis_server srv look" and "locks_expire look db" and "0 < ttl" and "fst (redis_acquire srv k ttl now db)"
    and "\<forall>(j, ttl', now') \<in> set xs. 0 < ttl' \<and> now' < now + ttl * 1000000"
    and "0 < ttl2" and "later < now + ttl * 1000000"
  shows "\<not> fst (redis_acquire srv k ttl2 later
       (fold (\<lambda>(j, l, n) t. snd (redis_acquire srv j l n t)) xs (snd (redis_acquire srv k ttl now db))))"
  by (rule ttl_lock.exclusive [OF redis_lock [OF assms(1)] assms(2-7)])

section \<open>The key that breaks the schedule\<close>

text \<open>A one-off schedule whose caller picked the key \<open>_index\<close> overwrites the index of all pending
  firings: the call raises, and from then on every query for due firings raises as well, so no instance
  arms a one-off task again.\<close>

lemma redis_index_key_breaks_schedules:
  assumes "redis_server srv look" and "so_run_key e = ''_index''" and "now \<le> later"
  shows "\<exists>m db'. rd_save_scheduled srv cf now e db = (Inl (ResponseError m), db')
           \<and> (\<exists>m'. fst (rd_load_due srv cf later before db') = Inl (ResponseError m'))"
proof -
  let ?k = "rd_scheduled_index_key cf"
  let ?cs = "[DEL ?k, HSET ?k (scheduled_to_mapping e), ZADD ?k (so_run_key e) (instant (so_fire_at e))]"
  let ?ks = "redis_run ?cs now (live now (look db))"
  obtain rs db1 where e: "rd_pipe srv now ?cs db = (rs, db1)" by (cases "rd_pipe srv now ?cs db")
  note p = rd_pipe_says [OF assms(1), of ?cs now db, unfolded e fst_conv snd_conv]
  have key: "rd_scheduled_key cf (so_run_key e) = ?k" using assms(2) by (simp add: redis_keys)
  have hash: "?ks ?k = Some (KHash (map_of (scheduled_to_mapping e)), None)"
    by (simp add: hash_at_def zset_at_def ttl_at_def)
  obtain m where m: "first_error rs = Some m"
    using p by (auto simp: hash_at_def zset_at_def wrong_type_def split: list.splits)
  have s: "rd_save_scheduled srv cf now e db = (Inl (ResponseError m), db1)"
    by (simp add: rd_save_scheduled_def key rd_execute_def and_then_def e m del: rd_pipe.simps)
  have "live now (look db1) ?k = Some (KHash (map_of (scheduled_to_mapping e)), None)"
    using p hash by (simp del: redis_run_simps)
  from live_Some [OF this] have "live later (look db1) ?k = Some (KHash (map_of (scheduled_to_mapping e)), None)"
    by (simp add: live_def key_expired_def)
  then have "zset_at (live later (look db1)) ?k = None" by (simp add: zset_at_def)
  moreover obtain r db2 where c: "srv (ZRANGEBYSCORE ?k (instant before)) later db1 = (r, db2)"
    by (cases "srv (ZRANGEBYSCORE ?k (instant before)) later db1")
  ultimately have "wrong_type r" using server_step(1) [OF assms(1) c] by simp
  then have "fst (rd_load_due srv cf later before db1) = Inl (ResponseError (case r of PErr x \<Rightarrow> x | _ \<Rightarrow> []))"
    by (simp add: rd_load_due_def rd_call_def and_then_def c wrong_type_def)
  then show ?thesis using s by blast
qed

section \<open>Tasks to requeue\<close>

lemma pending_index:
  assumes "redis_ok cf ks"
  obtains ids where "set_at ks (rd_pending_index_key cf) = Some ids" "\<forall>t \<in> ids. plain_id t"
  using redis_okD(3) [OF assms] by blast

lemma pending_cmds_issued:
  "\<forall>t \<in> set ids. plain_id t \<Longrightarrow> \<forall>r \<in> set rs. plain_id (task_id r) \<Longrightarrow>
   list_all (backend_cmd cf) (rd_drop_pending cf ids @ concat (map (rd_pending_cmds cf) rs))"
  by (auto simp: rd_drop_pending_def rd_pending_cmds_def list_all_iff intro: backend_cmd.intros)

lemma indexed_cong: "ks ik = ks' ik \<Longrightarrow> ks (kf t) = ks' (kf t) \<Longrightarrow> indexed ik kf ks t = indexed ik kf ks' t"
proof -
  assume "ks ik = ks' ik" and "ks (kf t) = ks' (kf t)"
  then have "set_at ks ik = set_at ks' ik" "hash_at ks (kf t) = hash_at ks' (kf t)"
    by (simp_all add: set_at_def hash_at_def)
  then show ?thesis unfolding indexed_def by presburger
qed

lemma drop_pending_gone: "rd_pending cf (redis_run (rd_drop_pending cf ids) now ks) t = None"
  by (simp add: rd_drop_pending_def indexed_def)

lemma pending_one:
  assumes "redis_ok cf ks" and "plain_id (task_id r)"
  shows "rd_pending cf (redis_run (rd_pending_cmds cf r) now ks)
           = (rd_pending cf ks)(task_id r \<mapsto> map_of (record_to_pending_mapping r))"
proof
  fix t
  let ?k = "rd_pending_key cf (task_id r)"
  obtain ids where i: "set_at ks (rd_pending_index_key cf) = Some ids" "\<forall>t \<in> ids. plain_id t"
    using pending_index [OF assms(1)] .
  have n: "task_id r \<noteq> ''_index''" by (rule plain_not_index [OF assms(2)])
  have h: "redis_does (HSET ?k (record_to_pending_mapping r)) now ks
             = ks(?k \<mapsto> (KHash (map_of (record_to_pending_mapping r)), ttl_at ks ?k))"
    by (rule hset_does [OF redis_okD(4) [OF assms] mapping_keys(2)])
  have e: "map_of (record_to_pending_mapping r) \<noteq> Map.empty" using pending_fields(1) [of r] by auto
  have run: "redis_run (rd_pending_cmds cf r) now ks
      = put_set (rd_pending_index_key cf) (insert (task_id r) ids)
          (ks(?k \<mapsto> (KHash (map_of (record_to_pending_mapping r)), ttl_at ks ?k)))"
    using h i(1) n by (simp add: rd_pending_cmds_def del: redis_does.simps(1))
  show "rd_pending cf (redis_run (rd_pending_cmds cf r) now ks) t
          = ((rd_pending cf ks)(task_id r \<mapsto> map_of (record_to_pending_mapping r))) t"
  proof (cases "t = ''_index''")
    case True
    then have "t \<notin> insert (task_id r) ids" using assms(2) i(2) plain_not_index by blast
    then show ?thesis unfolding run using i(1) by (simp add: indexed_def)
  next
    case False
    then show ?thesis unfolding run using i(1) e by (simp add: indexed_def)
  qed
qed

lemma pending_all:
  assumes "redis_ok cf ks" and "\<forall>r \<in> set rs. plain_id (task_id r)"
  shows "rd_pending cf (redis_run (concat (map (rd_pending_cmds cf) rs)) now ks)
           = fold (\<lambda>r h. h(task_id r \<mapsto> map_of (record_to_pending_mapping r))) rs (rd_pending cf ks)"
  using assms
proof (induction rs arbitrary: ks)
  case (Cons r rs)
  have "list_all (backend_cmd cf) (rd_pending_cmds cf r)"
    using Cons.prems(2) by (auto simp: rd_pending_cmds_def intro: backend_cmd.intros)
  then have "redis_ok cf (redis_run (rd_pending_cmds cf r) now ks)" using Cons.prems(1) by (rule redis_run_ok)
  then show ?case using Cons pending_one [OF Cons.prems(1), of r now] by (simp del: fun_upd_apply)
qed simp

lemma fold_upd_distinct:
  "distinct (map key rs) \<Longrightarrow> fold (\<lambda>r h. h(key r \<mapsto> f r)) rs h k
     = (if k \<in> key ` set rs then map_option f (find (\<lambda>r. key r = k) rs) else h k)"
proof (induction rs arbitrary: h)
  case (Cons r rs)
  have "find (\<lambda>s. key s = key r) rs = None" using Cons.prems by (auto simp: find_None_iff) (metis image_eqI)
  then show ?case using Cons by auto
qed simp

lemma find_distinct: "distinct (map key rs) \<Longrightarrow> r \<in> set rs \<Longrightarrow> find (\<lambda>x. key x = key r) rs = Some r"
  by (induction rs) (auto simp: rev_image_eqI)

lemma rd_save_pending_good:
  assumes S: "redis_server srv look" and g: "redis_good look cf now db"
    and rs: "\<forall>r \<in> set rs. plain_id (task_id r)" and d: "distinct (map task_id rs)"
  obtains db1 where "rd_save_pending srv cf now rs db = (Inr (length rs), db1)" "redis_good look cf now db1"
    "\<forall>t. rd_pending cf (live now (look db1)) t =
       (if t \<in> task_id ` set rs
        then map_option (\<lambda>r. map_of (record_to_pending_mapping r)) (find (\<lambda>r. task_id r = t) rs) else None)"
proof -
  let ?ks = "live now (look db)"
  note ok = g [unfolded redis_good_def]
  obtain ids where i: "set_at ?ks (rd_pending_index_key cf) = Some ids" "\<forall>t \<in> ids. plain_id t"
    using pending_index [OF ok] .
  obtain ms db0 where r: "rd_call srv now (SMEMBERS (rd_pending_index_key cf)) db = (Inr (PMembers ms), db0)"
      and ms: "distinct ms" "set ms = ids" and l0: "live now (look db0) = ?ks" "redis_good look cf now db0"
    using rd_members_good [OF S g backend_cmd.intros(13) i(1)] .
  let ?cs = "rd_drop_pending cf ms @ concat (map (rd_pending_cmds cf) rs)"
  have cs: "list_all (backend_cmd cf) ?cs" using i(2) ms(2) rs by (intro pending_cmds_issued) auto
  obtain xs db1 where x: "rd_execute srv now ?cs db0 = (Inr xs, db1)" "all_say ?cs now (live now (look db0)) xs"
      "live now (look db1) = redis_run ?cs now (live now (look db0))" "redis_good look cf now db1"
    using rd_execute_good [OF S l0(2) cs] .
  have save: "rd_save_pending srv cf now rs db = (Inr (length rs), db1)"
    using r x(1) by (simp add: rd_save_pending_def)
  have "redis_ok cf (redis_run (rd_drop_pending cf ms) now ?ks)"
    using cs ok by (intro redis_run_ok) (simp_all add: list_all_append)
  then have "rd_pending cf (live now (look db1)) t =
      (if t \<in> task_id ` set rs then map_option (\<lambda>r. map_of (record_to_pending_mapping r)) (find (\<lambda>r. task_id r = t) rs)
       else None)" for t
    unfolding x(3) l0(1) using pending_all [OF _ rs] drop_pending_gone
    by (simp add: fold_upd_distinct [OF d])
  then show ?thesis using that save x(4) by blast
qed

lemma rd_load_pending_good:
  assumes "redis_server srv look" and g: "redis_good look cf now db"
  obtains out db' where "rd_load_pending srv cf now db = (Inr out, db')" "redis_good look cf now db'"
    "set out = {pend_to_record (record_to_pend r) |r.
                  rd_pending cf (live now (look db)) (task_id r) = Some (map_of (record_to_pending_mapping r))}"
proof -
  note ok = g [unfolded redis_good_def]
  obtain ids where i: "set_at (live now (look db)) (rd_pending_index_key cf) = Some ids" "\<forall>t \<in> ids. plain_id t"
    using pending_index [OF ok] .
  show ?thesis
    by (rule load_indexed_good [OF assms _ i, of "rd_pending_key cf" task_id record_to_pending_mapping
          "mapping_to_pending now" "\<lambda>r. pend_to_record (record_to_pend r)"])
      (auto intro: backend_cmd.intros redis_okD(4) [OF ok] that [unfolded loads_are_indexed]
        simp: pending_mapping_roundtrip pending_fields)
qed

lemma pending_later:
  assumes "redis_good look cf now db" and "now \<le> later"
  shows "rd_pending cf (live later (look db)) t = rd_pending cf (live now (look db)) t"
  by (intro indexed_cong lasting_later [OF assms(1) _ assms(2)]) (auto simp: lasting_def)

text \<open>C13: What is saved as pending replaces all that was pending before, and loads as it does from SQLite.\<close>

theorem redis_pending_roundtrip:
  assumes S: "redis_server srv look" and "redis_good look cf now db"
    and "\<forall>r \<in> set rs. plain_id (task_id r)" and d: "distinct (map task_id rs)" and le: "now \<le> later"
  shows "\<exists>db1 out db2. rd_save_pending srv cf now rs db = (Inr (length rs), db1)
           \<and> rd_load_pending srv cf later db1 = (Inr out, db2)
           \<and> set out = set (sq_load_pending (snd (sq_save_pending rs sqlite_init)))"
proof -
  obtain db1 where save: "rd_save_pending srv cf now rs db = (Inr (length rs), db1)" "redis_good look cf now db1"
      and p': "\<forall>t. rd_pending cf (live now (look db1)) t = (if t \<in> task_id ` set rs
        then map_option (\<lambda>r. map_of (record_to_pending_mapping r)) (find (\<lambda>r. task_id r = t) rs) else None)"
    using rd_save_pending_good [OF assms(1-4)] .
  note p = p' [rule_format]
  obtain out db2 where l: "rd_load_pending srv cf later db1 = (Inr out, db2)" "redis_good look cf later db2"
      and out: "set out = {pend_to_record (record_to_pend r) |r.
                 rd_pending cf (live later (look db1)) (task_id r) = Some (map_of (record_to_pending_mapping r))}"
    using rd_load_pending_good [OF S redis_good_later [OF save(2) le]] .
  note same = pending_later [OF save(2) le]
  have view: "pend_to_record (record_to_pend r) = pend_to_record (record_to_pend r')"
    if "map_of (record_to_pending_mapping r) = map_of (record_to_pending_mapping r')" for r r'
    using pending_mapping_roundtrip [of 0 r] pending_mapping_roundtrip [of 0 r'] that by simp
  have "set out = (\<lambda>r. pend_to_record (record_to_pend r)) ` set rs"
  proof (intro equalityI subsetI)
    fix x assume "x \<in> set out"
    then obtain r where r: "x = pend_to_record (record_to_pend r)"
        "rd_pending cf (live now (look db1)) (task_id r) = Some (map_of (record_to_pending_mapping r))"
      unfolding out same by blast
    then have "task_id r \<in> task_id ` set rs" using p [of "task_id r"] by (auto split: if_splits)
    then obtain r' where r': "r' \<in> set rs" "task_id r' = task_id r" by auto
    have f: "find (\<lambda>x. task_id x = task_id r) rs = Some r'" using find_distinct [OF d r'(1)] unfolding r'(2) .
    have "map_of (record_to_pending_mapping r') = map_of (record_to_pending_mapping r)"
      using r(2) unfolding p f by (simp split: if_splits)
    then have "x = pend_to_record (record_to_pend r')" using view [of r' r] r(1) by simp
    then show "x \<in> (\<lambda>r. pend_to_record (record_to_pend r)) ` set rs" using r'(1) by blast
  next
    fix x assume "x \<in> (\<lambda>r. pend_to_record (record_to_pend r)) ` set rs"
    then obtain r where r: "r \<in> set rs" "x = pend_to_record (record_to_pend r)" by auto
    then have "rd_pending cf (live now (look db1)) (task_id r) = Some (map_of (record_to_pending_mapping r))"
      using find_distinct [OF d r(1)] p [of "task_id r"] by simp
    then show "x \<in> set out" unfolding out same using r(2) by blast
  qed
  then show ?thesis using save l load_saved_pending [OF d] by simp
qed

section \<open>Runs in memory\<close>

definition ex_redis :: redis_conf where
  "ex_redis = \<lparr>rc_prefix = ''fbtm:snapshots'', rc_ttl = Some 60\<rparr>"

definition ex_task :: task_record where
  "ex_task = ex_rec ''t1'' SUCCESS"

lemma ex_plain: "plain_id (task_id ex_task)"
  by (simp add: ex_task_def ex_rec_def new_record_def plain_id_def)

lemma ex_ttl: "ttl_positive ex_redis"
  by (simp add: ttl_positive_def ex_redis_def)

lemma redis_record_lifetime_witness:
  "\<exists>db1 out db2. rd_save mem_server ex_redis 0 [ex_task] (\<lambda>_. None) = (Inr 1, db1)
     \<and> rd_load mem_server ex_redis 59999999 db1 = (Inr out, db2) \<and> redis_view ex_task \<in> set out"
  using redis_record_lifetime [OF mem_server_documented redis_good_empty ex_ttl, of "[ex_task]" 0 59999999]
  by (simp add: ex_plain) (simp add: ex_redis_def)

lemma redis_pending_roundtrip_witness:
  "\<exists>db1 out db2. rd_save_pending mem_server ex_redis 0 [ex_task] (\<lambda>_. None) = (Inr 1, db1)
     \<and> rd_load_pending mem_server ex_redis 1 db1 = (Inr out, db2)
     \<and> set out = set (sq_load_pending (snd (sq_save_pending [ex_task] sqlite_init)))"
  using redis_pending_roundtrip [OF mem_server_documented redis_good_empty, of "[ex_task]" 0 1 ex_redis]
  by (simp add: ex_plain)

lemma redis_claims_once_witness:
  "\<exists>db. wins ''t1'' [''t1'', ''t1'']
     (fst (run_claims (claim_at (rd_claim_pending mem_server ex_redis) int) [''t1'', ''t1''] (db, 0))) = 1"
proof -
  have t: "task_id ex_task = ''t1''" by (simp add: ex_task_def ex_rec_def new_record_def)
  obtain db where g: "redis_good mem_look ex_redis 0 db"
      and p: "\<forall>t. rd_pending ex_redis (live 0 (mem_look db)) t = (if t \<in> task_id ` set [ex_task]
        then map_option (\<lambda>r. map_of (record_to_pending_mapping r)) (find (\<lambda>r. task_id r = t) [ex_task]) else None)"
    by (rule rd_save_pending_good [OF mem_server_documented redis_good_empty, of "[ex_task]" ex_redis 0])
      (auto simp: ex_plain)
  have "live 0 (mem_look db) (rd_pending_key ex_redis ''t1'') \<noteq> None"
    using p [rule_format, of "''t1''"] t by (auto simp: indexed_def hash_at_def split: option.splits if_splits)
  then show ?thesis
    using redis_claims_once [OF mem_server_documented, of int ex_redis db "[''t1'', ''t1'']" "''t1''"] g ex_plain
    by (auto simp: mono_def t)
qed

definition ex_entry :: scheduled_once where
  "ex_entry = \<lparr>so_run_key = ''_index'', so_func_name = ''f'', so_fire_at = utc_dt 0, so_args = [], so_kwargs = [],
     so_encrypted_payload = None, so_queue = ''default'', so_priority = None, so_idempotency_key = None,
     so_tags = [], so_created_at = utc_dt 0\<rparr>"

lemma redis_index_key_breaks_schedules_witness:
  "\<exists>m db'. rd_save_scheduled mem_server ex_redis 0 ex_entry (\<lambda>_. None) = (Inl (ResponseError m), db')
     \<and> (\<exists>m'. fst (rd_load_due mem_server ex_redis 1 (utc_dt 5) db') = Inl (ResponseError m'))"
  by (rule redis_index_key_breaks_schedules [OF mem_server_documented]) (simp_all add: ex_entry_def)

end
