(* ===== verification/Dashboard.thy ===== *)
theory Dashboard
  imports Router
begin

text \<open>
  \<^verbatim>\<open>src/fastapi_taskflow/dashboard/\<close>: the HTML fragments of \<^verbatim>\<open>helpers.py\<close>, the event stream of
  \<^verbatim>\<open>sse.py\<close>, the page of \<^verbatim>\<open>template.py\<close> and the routes of \<^verbatim>\<open>router.py\<close>. The style sheet, the script
  and the frame of the page are static text: they are the parameter \<open>tpl\<close>. A character is a code
  point; the dash and the ellipsis of the fragments stand as their UTF-8 bytes. Durations and rates
  are exact rationals where the code has floats; \<open>fr\<close> is the decimal text Python gives a float and
  \<open>rp\<close> the \<open>repr\<close> of an argument value.
\<close>

section \<open>Text of numbers\<close>

definition em_dash :: string where "em_dash = [CHR 0xE2, CHR 0x80, CHR 0x94]"
definition ellipsis :: string where "ellipsis = [CHR 0xE2, CHR 0x80, CHR 0xA6]"

text \<open>\<open>f'{q:.<d>f}'\<close>: rounded half to even, the sign of a negative number kept.\<close>

definition fixed :: "nat \<Rightarrow> rat \<Rightarrow> string" where
  "fixed d q =
     (let n = nat (round_half_even (\<bar>q\<bar> * 10 ^ d))
      in (if q < 0 then ''-'' else []) @ dec (n div 10 ^ d)
         @ (if d = 0 then [] else CHR ''.'' # digits d (n mod 10 ^ d)))"

definition fmt_duration :: "rat \<Rightarrow> string" where
  "fmt_duration seconds =
     (let ms = seconds * 1000
      in if ms < 1000 then fixed 0 ms @ ''ms''
         else if ms < 60000 then fixed 1 (ms / 1000) @ ''s''
         else let w = floor ms
              in if ms < 3600000
                 then str_of_int (w div 60000) @ ''m '' @ str_of_int (w mod 60000 div 1000) @ ''s''
                 else str_of_int (w div 3600000) @ ''h '' @ str_of_int (w mod 3600000 div 60000) @ ''m'')"

section \<open>Fragments\<close>

text \<open>\<open>html.escape(s)\<close> of the standard library.\<close>

fun esc_char :: "char \<Rightarrow> string" where
  "esc_char c =
     (if c = CHR ''&'' then ''&amp;'' else if c = CHR ''<'' then ''&lt;'' else if c = CHR ''>'' then ''&gt;''
      else if c = CHR 0x22 then ''&quot;'' else if c = CHR 0x27 then ''&#x27;'' else [c])"

definition html_escape :: "string \<Rightarrow> string" where
  "html_escape s = concat (map esc_char s)"

definition status_color :: "string \<Rightarrow> string \<times> string" where
  "status_color s =
     (case map_of [(''pending'', (''#f3f4f6'', ''#6b7280'')), (''running'', (''#eff6ff'', ''#2563eb'')),
                   (''success'', (''#f0fdf4'', ''#16a34a'')), (''failed'', (''#fef2f2'', ''#dc2626'')),
                   (''interrupted'', (''#fffbeb'', ''#d97706'')), (''cancelled'', (''#fce7f3'', ''#be185d'')),
                   (''rejected'', (''#fef2f2'', ''#9f1239''))] s of
        Some p \<Rightarrow> p | None \<Rightarrow> (''#f3f4f6'', ''#6b7280''))"

definition badge :: "string \<Rightarrow> string" where
  \<open>badge s =
     (let (bg, fg) = status_color s
      in ''<span style="background:'' @ bg @ '';color:'' @ fg
         @ '';padding:2px 8px;border-radius:4px;font-size:0.72rem;font-weight:600;letter-spacing:.02em">''
         @ html_escape s @ ''</span>'')\<close>

text \<open>The accent colour is an argument of the code that the card does not use.\<close>

definition metric_card :: "string \<Rightarrow> string \<Rightarrow> string \<Rightarrow> string" where
  \<open>metric_card label val accent =
     ''<div style="background:white;border:1px solid #e5e7eb;border-radius:8px;padding:14px 16px">''
     @ ''<div style="font-size:0.68rem;text-transform:uppercase;letter-spacing:.05em;''
     @ ''color:#888;font-weight:500;margin-bottom:6px">'' @ label @ ''</div>''
     @ ''<div style="font-size:1.4rem;font-weight:600;color:#111;font-variant-numeric:tabular-nums">''
     @ val @ ''</div>'' @ ''</div>''\<close>

definition mean :: "rat list \<Rightarrow> rat option" where
  "mean ds = (if ds = [] then None else Some (sum_list ds / of_nat (length ds)))"

definition render_metrics :: "task_record list \<Rightarrow> string" where
  \<open>render_metrics ts =
     (let n = (\<lambda>s. count_status {s} ts); total = int (length ts); i = str_of_int;
          rate = (if total = 0 then em_dash
                  else fixed 1 (of_int (n SUCCESS) / of_int total * 100) @ ''%'');
          avg = (case mean (List.map_filter duration ts) of None \<Rightarrow> em_dash | Some d \<Rightarrow> fmt_duration d)
      in ''<div style="display:grid;grid-template-columns:repeat(9,minmax(0,1fr));gap:10px">''
         @ metric_card ''Total'' (i total) ''#6366f1''
         @ metric_card ''Pending'' (i (n PENDING)) ''#9ca3af''
         @ metric_card ''Running'' (i (n RUNNING)) ''#7c3aed''
         @ metric_card ''Success'' (i (n SUCCESS)) ''#16a34a''
         @ metric_card ''Failed'' (i (n FAILED)) ''#dc2626''
         @ metric_card ''Interrupted'' (i (n INTERRUPTED)) ''#d97706''
         @ metric_card ''Cancelled'' (i (n CANCELLED)) ''#be185d''
         @ metric_card ''Success rate'' rate ''#f59e0b''
         @ metric_card ''Avg duration'' avg ''#8b5cf6''
         @ ''</div>'')\<close>

definition error_cell :: "string option \<Rightarrow> string" where
  \<open>error_cell e =
     (case e of
        None \<Rightarrow> ''<span style="color:#d1d5db">'' @ em_dash @ ''</span>''
      | Some x \<Rightarrow>
          if x = [] then ''<span style="color:#d1d5db">'' @ em_dash @ ''</span>''
          else ''<span style="color:#dc2626;font-size:0.8rem" title="'' @ html_escape x @ ''">''
               @ html_escape (take 60 x) @ (if length x > 60 then ellipsis else []) @ ''</span>'')\<close>

definition duration_cell :: "task_record \<Rightarrow> string" where
  "duration_cell t = (case duration t of None \<Rightarrow> em_dash | Some d \<Rightarrow> fmt_duration d)"

definition task_row :: "task_record \<Rightarrow> string" where
  \<open>task_row t =
     ''<tr style="border-bottom:1px solid #f3f4f6">''
     @ ''<td style="padding:10px 14px;font-family:monospace;font-size:0.75rem;color:#aaa">''
     @ html_escape (take 8 (task_id t)) @ ellipsis @ ''</td>''
     @ ''<td style="padding:10px 14px;font-weight:500;color:#111">'' @ html_escape (func_name t) @ ''</td>''
     @ ''<td style="padding:10px 14px">'' @ badge (status_value (status t)) @ ''</td>''
     @ ''<td style="padding:10px 14px;color:#6b7280;text-align:right">'' @ duration_cell t @ ''</td>''
     @ ''<td style="padding:10px 14px;color:#6b7280;text-align:center">''
     @ str_of_int (retries_used t) @ ''</td>''
     @ ''<td style="padding:10px 14px">'' @ error_cell (error t) @ ''</td>''
     @ ''</tr>''\<close>

text \<open>\<open>sorted(..., key=created_at, reverse=True)\<close> keeps the order of equal times.\<close>

definition newest_first :: "task_record list \<Rightarrow> task_record list" where
  "newest_first ts = sort_key (\<lambda>t. - instant (created_at t)) ts"

definition render_task_rows :: "task_record list \<Rightarrow> string" where
  \<open>render_task_rows ts =
     (if ts = []
      then ''<tr><td colspan="6" style="text-align:center;color:#9ca3af;padding:40px;font-size:0.9rem">''
           @ ''No tasks recorded yet.</td></tr>''
      else concat (map task_row (newest_first ts)))\<close>

definition queue_stat_cell :: "string \<Rightarrow> string \<Rightarrow> string \<Rightarrow> string" where
  \<open>queue_stat_cell label val color =
     ''<div style="background:#f9fafb;border-radius:6px;padding:8px 10px">''
     @ ''<div style="font-size:0.65rem;text-transform:uppercase;letter-spacing:.04em;''
     @ ''color:#888;font-weight:500;margin-bottom:3px">'' @ label @ ''</div>''
     @ ''<div style="font-size:1.1rem;font-weight:600;color:'' @ color
     @ '';font-variant-numeric:tabular-nums">'' @ val @ ''</div>'' @ ''</div>''\<close>

text \<open>
  One card per queue. The values of a statistics dictionary are the ones \<open>queue_stats\<close> writes: a text
  for the name, integers, and none for a missing limit.
\<close>

fun int_text :: "pyval \<Rightarrow> string" where
  "int_text (VInt i) = str_of_int i"
| "int_text _ = []"

fun val_str :: "pyval \<Rightarrow> string" where
  "val_str (VStr s) = s"
| "val_str _ = []"

definition q_text :: "(pyval \<Rightarrow> string) \<Rightarrow> string \<Rightarrow> (string, pyval) dict \<Rightarrow> string" where
  "q_text f k q = (case dget q k of None \<Rightarrow> [] | Some v \<Rightarrow> f v)"

definition q_count :: "string \<Rightarrow> (string, pyval) dict \<Rightarrow> int" where
  "q_count k q = (case dget q k of Some (VInt i) \<Rightarrow> i | _ \<Rightarrow> 0)"

definition card_full :: "(string, pyval) dict \<Rightarrow> bool" where
  "card_full q = (case dget q ''max_size'' of Some (VInt m) \<Rightarrow> q_count ''pending'' q \<ge> m | _ \<Rightarrow> False)"

definition number_input :: "string \<Rightarrow> string \<Rightarrow> string \<Rightarrow> string" where
  \<open>number_input label field val =
     ''<div style="display:flex;flex-direction:column;gap:3px">''
     @ ''<label style="font-size:0.68rem;color:#888;font-weight:500">'' @ label @ ''</label>''
     @ ''<input type="number" name="'' @ field @ ''" min="1" value="'' @ val @ ''" ''
     @ ''placeholder="unlimited" disabled ''
     @ ''style="width:100px;padding:5px 8px;border:1px solid #e5e7eb;border-radius:5px;''
     @ ''font-size:0.82rem;background:#f9fafb;color:#6b7280">'' @ ''</div>''\<close>

definition card_head :: "(string, pyval) dict \<Rightarrow> string" where
  \<open>card_head q =
     ''<div style="background:white;border:'' @ (if card_full q then ''2px solid #dc2626'' else ''1px solid #e5e7eb'')
     @ '';border-radius:10px;padding:18px 20px;display:flex;flex-direction:column;gap:12px">''
     @ ''<div style="display:flex;align-items:center;gap:8px">''
     @ ''<span style="font-weight:600;font-size:1rem;color:#111;flex:1">''
     @ html_escape (q_text val_str ''name'' q) @ ''</span>''
     @ (if card_full q
        then ''<span style="font-size:0.68rem;background:#fef2f2;color:#dc2626;''
             @ ''padding:2px 8px;border-radius:4px;font-weight:600">FULL</span>''
        else [])
     @ ''<span style="font-size:0.7rem;background:#f3f4f6;color:#6b7280;''
     @ ''padding:2px 8px;border-radius:4px;font-family:monospace">queue</span>'' @ ''</div>''\<close>

definition card_counters :: "(string, pyval) dict \<Rightarrow> string" where
  \<open>card_counters q =
     (let n = (\<lambda>k. q_count k q); i = str_of_int
      in ''<div style="display:grid;grid-template-columns:repeat(4,1fr);gap:8px">''
         @ queue_stat_cell ''Pending'' (i (n ''pending'')) ''#9ca3af''
         @ queue_stat_cell ''Running'' (i (n ''running'')) ''#2563eb''
         @ queue_stat_cell ''Finished'' (i (n ''finished'')) ''#16a34a''
         @ queue_stat_cell ''Rejected'' (i (n ''rejected''))
             (if n ''rejected'' \<noteq> 0 then ''#dc2626'' else ''#9ca3af'')
         @ ''</div>'')\<close>

definition patch_url :: "string \<Rightarrow> (string, pyval) dict \<Rightarrow> string" where
  "patch_url prefix q = prefix @ ''/queues/'' @ html_escape (q_text val_str ''name'' q)"

definition card_form :: "string \<Rightarrow> (string, pyval) dict \<Rightarrow> string" where
  \<open>card_form prefix q =
     ''<form onsubmit="updateQueue(event, '' @ [CHR 0x27] @ patch_url prefix q @ [CHR 0x27] @ '')" ''
     @ ''style="display:flex;gap:8px;align-items:flex-end;flex-wrap:wrap">''
     @ number_input ''Concurrency'' ''concurrency'' (q_text int_text ''concurrency'' q)
     @ number_input ''Max size'' ''max_size'' (q_text int_text ''max_size'' q)
     @ ''<button type="button" onclick="queueEditToggle(this)" ''
     @ ''style="padding:5px 14px;background:white;color:#374151;border:1px solid #d1d5db;''
     @ ''border-radius:5px;font-size:0.82rem;cursor:pointer;height:30px;margin-bottom:1px">Edit</button>''
     @ ''<button type="submit" style="display:none;padding:5px 14px;background:#111;''
     @ ''color:white;border:none;border-radius:5px;font-size:0.82rem;cursor:pointer;''
     @ ''height:30px;margin-bottom:1px">Save</button>'' @ ''</form>''\<close>

definition queue_card :: "string \<Rightarrow> (string, pyval) dict \<Rightarrow> string" where
  "queue_card prefix q = card_head q @ card_counters q @ card_form prefix q @ ''</div>''"

definition render_queue_cards :: "(string, pyval) dict list \<Rightarrow> string \<Rightarrow> string" where
  \<open>render_queue_cards queues prefix =
     (if queues = []
      then ''<div style="color:#9ca3af;padding:40px;text-align:center;font-size:0.9rem">''
           @ ''No named queues configured. Pass <code>queues=</code> or <code>max_size=</code> ''
           @ ''to <code>TaskManager</code> to activate the named queue system.'' @ ''</div>''
      else ''<div style="display:grid;grid-template-columns:repeat(auto-fill,minmax(340px,1fr));gap:14px">''
           @ concat (map (queue_card prefix) queues) @ ''</div>'')\<close>

section \<open>JSON text\<close>

text \<open>What \<open>json.dumps\<close> writes; the date of a timestamp is its ISO text.\<close>

definition iso_string :: "isotext \<Rightarrow> string" where
  "iso_string t = butlast (strftime_utc (utc_dt (iso_secs t * 1000000))) @ iso_suffix t"

fun join :: "string \<Rightarrow> string list \<Rightarrow> string" where
  "join sep [] = []"
| "join sep [x] = x"
| "join sep (x # y # r) = x @ sep @ join sep (y # r)"

fun json_text :: "(rat \<Rightarrow> string) \<Rightarrow> json \<Rightarrow> string" where
  "json_text fr JNull = ''null''"
| "json_text fr (JBool b) = (if b then ''true'' else ''false'')"
| "json_text fr (JInt i) = str_of_int i"
| "json_text fr (JNum q) = fr q"
| "json_text fr (JStr s) = quote s"
| "json_text fr (JStamp t) = quote (iso_string t)"
| "json_text fr (JArr js) = ''['' @ join '', '' (map (json_text fr) js) @ '']''"
| "json_text fr (JObj kjs) =
     ''{'' @ join '', '' (map (\<lambda>(k, j). quote k @ '': '' @ json_text fr j) kjs) @ ''}''"

section \<open>The event stream\<close>

definition round1 :: "rat \<Rightarrow> rat" where
  "round1 q = of_int (round_half_even (q * 10)) / 10"

definition sse_metrics :: "task_record list \<Rightarrow> (string, pyval) dict" where
  "sse_metrics ts =
     (let n = (\<lambda>s. VInt (count_status {s} ts)); total = int (length ts)
      in [(''total'', VInt total), (''pending'', n PENDING), (''running'', n RUNNING),
          (''success'', n SUCCESS), (''failed'', n FAILED), (''interrupted'', n INTERRUPTED),
          (''cancelled'', n CANCELLED),
          (''success_rate'',
             if total = 0 then VNone
             else VFloat (round1 (of_int (count_status {SUCCESS} ts) / of_int total * 100))),
          (''avg_duration_ms'',
             opt_val (\<lambda>d. VInt (round_half_even (d * 1000))) (mean (List.map_filter duration ts)))])"

definition sse_task :: "(pyval \<Rightarrow> string) \<Rightarrow> bool \<Rightarrow> task_record \<Rightarrow> (string, pyval) dict" where
  "sse_task rp include_args t =
     (if include_args
      then dset ''kwargs'' (VDict (map (\<lambda>(k, v). (k, VStr (rp v))) (kwargs t)))
             (dset ''args'' (VList (map (\<lambda>a. VStr (rp a)) (args t))) (to_dict t))
      else to_dict t)"

datatype sse_frame = State_Event json | Keep_Alive

definition build_sse_state ::
  "(pyval \<Rightarrow> string) \<Rightarrow> bool \<Rightarrow> task_record list \<Rightarrow> pyval \<Rightarrow> pyval \<Rightarrow> pyval \<Rightarrow> sse_frame" where
  "build_sse_state rp include_args ts schedules summary queues =
     State_Event (dumps (VDict
       [(''tasks'', VList (map (\<lambda>t. VDict (sse_task rp include_args t)) ts)),
        (''metrics'', VDict (sse_metrics ts)), (''schedules'', schedules),
        (''schedule_summary'', summary), (''queues'', queues)]))"

definition nl :: string where "nl = [CHR 0x0A]"

fun frame_text :: "(rat \<Rightarrow> string) \<Rightarrow> sse_frame \<Rightarrow> string" where
  "frame_text fr (State_Event j) = ''event: state'' @ nl @ ''data: '' @ json_text fr j @ nl @ nl"
| "frame_text fr Keep_Alive = '': keep-alive'' @ nl @ nl"

text \<open>
  The newest scheduled record of every function, and the recurring entries. \<open>every_text\<close> is the text
  of an interval in seconds, which depends on the type of number the caller of \<open>schedule\<close> gave.
\<close>

definition note_latest :: "task_record \<Rightarrow> (string, task_record) dict \<Rightarrow> (string, task_record) dict" where
  "note_latest t d =
     (if source t \<noteq> ''scheduled'' then d
      else case dget d (func_name t) of
             None \<Rightarrow> dset (func_name t) t d
           | Some old \<Rightarrow> if dt_less (created_at old) (created_at t) then dset (func_name t) t d else d)"

definition latest_runs :: "task_record list \<Rightarrow> (string, task_record) dict" where
  "latest_runs ts = fold note_latest ts []"

definition schedule_row :: "(int \<Rightarrow> string) \<Rightarrow> (string, task_record) dict \<Rightarrow> sched_entry \<Rightarrow> pyval" where
  "schedule_row every_text latest e =
     (let last = dget latest (fn_name (se_func e))
      in VDict [(''func_name'', VStr (fn_name (se_func e))),
                (''trigger'', case se_every e of
                                Some i \<Rightarrow> VStr (''every '' @ every_text i @ ''s'')
                              | None \<Rightarrow> opt_val VStr (se_cron e)),
                (''next_run'', VStamp (isoformat (se_next_run e))),
                (''last_status'', opt_val (\<lambda>t. VStr (status_value (status t))) last),
                (''last_task_id'', opt_val (\<lambda>t. VStr (task_id t)) last)])"

definition get_schedule_entries :: "(int \<Rightarrow> string) \<Rightarrow> tm \<Rightarrow> pyval" where
  "get_schedule_entries every_text m =
     (case tm_periodic m of
        None \<Rightarrow> VList []
      | Some p \<Rightarrow> VList (map (schedule_row every_text (latest_runs (store_list (tm_store m))))
                          (List.map_filter (dget (ps_objs p)) (ps_entries p))))"

definition get_schedule_summary :: "tm \<Rightarrow> pyval" where
  "get_schedule_summary m =
     VDict [(''one_off_armed'', VInt (case tm_periodic m of None \<Rightarrow> 0 | Some p \<Rightarrow> int (length (ps_one_offs p))))]"

text \<open>
  \<open>_sse_generator\<close>: opened by a client, it stops at every await. \<open>Client_Gone\<close> is a positive
  \<open>is_disconnected\<close>, \<open>Cancelled\<close> a \<open>CancelledError\<close> or a closed generator, and \<open>Waited\<close> the end of
  \<open>wait_for\<close>: with the message of the subscriber queue when there is one, with a timeout otherwise.
  The \<open>finally\<close> clause gives the subscriber queue back on every way out.
\<close>

record text_env =
  te_float :: "rat \<Rightarrow> string"
  te_repr :: "pyval \<Rightarrow> string"
  te_every :: "int \<Rightarrow> string"

record stream =
  sm_queue :: nat
  sm_backend :: bool
  sm_args :: bool

datatype stream_out = Yields sse_frame | Ends | Raises py_exc
datatype wake = Client_Gone | Cancelled | Waited

definition current_state :: "http_get \<Rightarrow> text_env \<Rightarrow> bool \<Rightarrow> tm \<Rightarrow> (py_exc + sse_frame) \<times> tm" where
  "current_state http te include_args m =
     (case merged_list http m of
        (Inl e, m') \<Rightarrow> (Inl e, m')
      | (Inr ts, m') \<Rightarrow>
          (Inr (build_sse_state (te_repr te) include_args ts (get_schedule_entries (te_every te) m')
                  (get_schedule_summary m') (list_queues m')), m'))"

definition stream_close :: "nat \<Rightarrow> tm \<Rightarrow> tm" where
  "stream_close q m = m\<lparr>tm_store := remove_subscriber q (tm_store m)\<rparr>"

definition stream_emit :: "http_get \<Rightarrow> text_env \<Rightarrow> stream \<Rightarrow> tm \<Rightarrow> stream_out \<times> tm" where
  "stream_emit http te st m =
     (case current_state http te (sm_args st) m of
        (Inl e, m') \<Rightarrow> (if e = CancelledError then Ends else Raises e, stream_close (sm_queue st) m')
      | (Inr f, m') \<Rightarrow> (Yields f, m'))"

definition stream_open :: "http_get \<Rightarrow> text_env \<Rightarrow> bool \<Rightarrow> tm \<Rightarrow> stream \<times> stream_out \<times> tm" where
  "stream_open http te include_args m =
     (let (q, s) = add_subscriber (tm_store m);
          st = \<lparr>sm_queue = q, sm_backend = (tm_backend m \<noteq> None), sm_args = include_args\<rparr>
      in (st, stream_emit http te st (m\<lparr>tm_store := s\<rparr>)))"

definition take_message :: "nat \<Rightarrow> store \<Rightarrow> string option option \<times> store" where
  "take_message q s =
     (case dget (st_queues s) q of
        Some (x # r) \<Rightarrow> (Some x, s\<lparr>st_queues := dset q r (st_queues s)\<rparr>)
      | _ \<Rightarrow> (None, s))"

definition stream_turn :: "http_get \<Rightarrow> text_env \<Rightarrow> stream \<Rightarrow> wake \<Rightarrow> tm \<Rightarrow> stream_out \<times> tm" where
  "stream_turn http te st w m =
     (if w \<noteq> Waited then (Ends, stream_close (sm_queue st) m)
      else case take_message (sm_queue st) (tm_store m) of
             (Some None, s) \<Rightarrow> (Ends, stream_close (sm_queue st) (m\<lparr>tm_store := s\<rparr>))
           | (Some (Some _), s) \<Rightarrow> stream_emit http te st (m\<lparr>tm_store := s\<rparr>)
           | (None, _) \<Rightarrow> if sm_backend st then stream_emit http te st m else (Yields Keep_Alive, m))"

section \<open>The page\<close>

text \<open>\<open>str.replace\<close> of a nonempty text, left to right without overlap.\<close>

fun str_replace :: "string \<Rightarrow> string \<Rightarrow> string \<Rightarrow> string" where
  "str_replace old new [] = []"
| "str_replace old new (c # cs) =
     (if old \<noteq> [] \<and> take (length old) (c # cs) = old
      then new @ str_replace old new (drop (length old - 1) cs)
      else c # str_replace old new cs)"

definition registry_row :: "string \<Rightarrow> task_config \<Rightarrow> pyval" where
  "registry_row name c =
     VDict [(''name'', VStr name), (''retries'', VInt (tc_retries c)), (''delay'', VFloat (tc_delay c)),
            (''backoff'', VFloat (tc_backoff c)), (''persist'', VBool (tc_persist c)),
            (''requeue_on_interrupt'', VBool (tc_requeue_on_interrupt c)), (''eager'', VBool (tc_eager c)),
            (''priority'', opt_val VInt (tc_priority c))]"

definition registry_rows :: "registry \<Rightarrow> (string \<times> pyval) list" where
  "registry_rows rg =
     sort_key fst (List.map_filter
       (\<lambda>(name, f). map_option (\<lambda>c. (name, registry_row name c)) (dget (rg_by_id rg) (fn_id f)))
       (rg_by_name rg))"

definition serialize_registry :: "(rat \<Rightarrow> string) \<Rightarrow> registry \<Rightarrow> string" where
  "serialize_registry fr rg = json_text fr (dumps (VList (map snd (registry_rows rg))))"

definition dashboard_page ::
  "string \<Rightarrow> string \<Rightarrow> bool \<Rightarrow> string option \<Rightarrow> string \<Rightarrow> string \<Rightarrow> bool \<Rightarrow> string" where
  \<open>dashboard_page tpl base_path show_args logout_url title registered_tasks show_audit =
     (let flag = (\<lambda>b. if b then ''true'' else ''false'');
          logout_btn = (case logout_url of
                          None \<Rightarrow> []
                        | Some u \<Rightarrow> if u = [] then []
                                    else ''<a href="'' @ u @ ''" class="logout-btn">Sign out</a>'')
      in str_replace ''__REGISTERED_TASKS__'' registered_tasks
         (str_replace ''__TITLE__'' title
         (str_replace ''__LOGOUT_BUTTON__'' logout_btn
         (str_replace ''__SHOW_AUDIT__'' (flag show_audit)
         (str_replace ''__SHOW_ARGS__'' (flag show_args)
         (str_replace ''__TASKS_PREFIX__'' base_path
         (str_replace ''__STREAM_URL__'' (base_path @ ''/dashboard/stream'') tpl)))))))\<close>

section \<open>Routes\<close>

text \<open>The arguments of \<open>create_dashboard_router\<close>; a request carries its session cookie, if any.\<close>

record dash_conf =
  dc_prefix :: string
  dc_args :: bool
  dc_secret :: "string option"
  dc_login :: "string option"
  dc_title :: string

datatype dash_reply = Redirect_To string | Html string

definition check_cookie :: "mac_fun \<Rightarrow> dash_conf \<Rightarrow> string option \<Rightarrow> int \<Rightarrow> bool" where
  "check_cookie mac cf cookie now =
     (case dc_secret cf of
        None \<Rightarrow> True
      | Some k \<Rightarrow> verify_token mac k (case cookie of None \<Rightarrow> [] | Some c \<Rightarrow> c) now)"

definition get_dashboard ::
  "mac_fun \<Rightarrow> text_env \<Rightarrow> string \<Rightarrow> dash_conf \<Rightarrow> string option \<Rightarrow> int \<Rightarrow> tm \<Rightarrow> py_exc + dash_reply" where
  "get_dashboard mac te tpl cf cookie now m =
     (if \<not> check_cookie mac cf cookie now
      then (case dc_login cf of
              None \<Rightarrow> Inl (AssertionError ''login_path is not None'') | Some u \<Rightarrow> Inr (Redirect_To u))
      else Inr (Html (dashboard_page tpl (dc_prefix cf) (dc_args cf)
             (map_option (\<lambda>_. dc_prefix cf @ ''/auth/logout'')
                (case dc_secret cf of Some k \<Rightarrow> if k = [] then None else Some k | None \<Rightarrow> None))
             (dc_title cf) (serialize_registry (te_float te) (tm_registry m)) (dc_secret cf \<noteq> None))))"

definition get_stream ::
  "http_get \<Rightarrow> text_env \<Rightarrow> dash_conf \<Rightarrow> string option \<Rightarrow> tm \<Rightarrow> stream \<times> stream_out \<times> tm" where
  "get_stream http te cf cookie m = stream_open http te (dc_args cf) m"

definition fragment ::
  "(task_record list \<Rightarrow> string) \<Rightarrow> mac_fun \<Rightarrow> http_get \<Rightarrow> dash_conf \<Rightarrow> string option \<Rightarrow> int \<Rightarrow> tm
   \<Rightarrow> (py_exc + dash_reply) \<times> tm" where
  "fragment render mac http cf cookie now m =
     (if \<not> check_cookie mac cf cookie now then (Inl (HttpError 401 ''Unauthorized''), m)
      else case merged_list http m of
             (Inl e, m') \<Rightarrow> (Inl e, m') | (Inr ts, m') \<Rightarrow> (Inr (Html (render ts)), m'))"

definition metrics_fragment ::
  "mac_fun \<Rightarrow> http_get \<Rightarrow> dash_conf \<Rightarrow> string option \<Rightarrow> int \<Rightarrow> tm \<Rightarrow> (py_exc + dash_reply) \<times> tm" where
  "metrics_fragment = fragment render_metrics"

definition tasks_fragment ::
  "mac_fun \<Rightarrow> http_get \<Rightarrow> dash_conf \<Rightarrow> string option \<Rightarrow> int \<Rightarrow> tm \<Rightarrow> (py_exc + dash_reply) \<times> tm" where
  "tasks_fragment = fragment render_task_rows"

definition queues_fragment ::
  "mac_fun \<Rightarrow> dash_conf \<Rightarrow> string option \<Rightarrow> int \<Rightarrow> tm \<Rightarrow> py_exc + dash_reply" where
  "queues_fragment mac cf cookie now m =
     (if \<not> check_cookie mac cf cookie now then Inl (HttpError 401 ''Unauthorized'')
      else Inr (Html (render_queue_cards (queue_stats m) (dc_prefix cf))))"

end
