(* ===== verification/Admin.thy ===== *)
theory Admin
  imports Dashboard
begin

text \<open>
  \<^verbatim>\<open>src/fastapi_taskflow/admin.py\<close>: \<open>TaskAdmin\<close> puts the routers on the application, in an order that
  matters, and makes the secret they share; with the login routes of \<^verbatim>\<open>auth.py\<close> and the two ways a
  manager attaches to an application. A route is a method, a prefix and the segments after it;
  \<open>dispatch_request\<close> is Starlette's documented rule: the first route that fits method and path, 405 when only
  the path fits, 404 when nothing does.
\<close>

section \<open>Routes\<close>

datatype endpoint =
    Login_Page | Login | Logout
  | Dashboard_Page | Event_Stream | Metrics_Html | Tasks_Html | Queues_Html
  | List_Tasks | Peer_Tasks | Audit_Log | Metrics | Queues | Update_Queue | Bulk_Retry | Retry_Failed
  | Get_Task | Cancel_Task | Retry_Task | Delete_History

datatype seg = Lit string | Param

record api_route =
  rt_method :: string
  rt_prefix :: string
  rt_segs :: "seg list"
  rt_endpoint :: endpoint
  rt_guarded :: bool

definition auth_routes :: "string \<Rightarrow> api_route list" where
  "auth_routes p =
     [\<lparr>rt_method = ''GET'', rt_prefix = p, rt_segs = [Lit ''auth'', Lit ''login''], rt_endpoint = Login_Page,
       rt_guarded = False\<rparr>,
      \<lparr>rt_method = ''POST'', rt_prefix = p, rt_segs = [Lit ''auth'', Lit ''login''], rt_endpoint = Login,
       rt_guarded = False\<rparr>,
      \<lparr>rt_method = ''GET'', rt_prefix = p, rt_segs = [Lit ''auth'', Lit ''logout''], rt_endpoint = Logout,
       rt_guarded = False\<rparr>]"

definition dashboard_routes :: "string \<Rightarrow> api_route list" where
  "dashboard_routes p =
     map (\<lambda>(segs, e). \<lparr>rt_method = ''GET'', rt_prefix = p, rt_segs = Lit ''dashboard'' # segs, rt_endpoint = e,
                       rt_guarded = False\<rparr>)
       [([], Dashboard_Page), ([Lit ''stream''], Event_Stream), ([Lit ''metrics''], Metrics_Html),
        ([Lit ''tasks''], Tasks_Html), ([Lit ''queues''], Queues_Html)]"

text \<open>With a secret, every route of this router depends on the API guard.\<close>

definition task_routes :: "string \<Rightarrow> string option \<Rightarrow> api_route list" where
  "task_routes p secret =
     map (\<lambda>(meth, segs, e). \<lparr>rt_method = meth, rt_prefix = p, rt_segs = segs, rt_endpoint = e,
                             rt_guarded = (secret \<noteq> None)\<rparr>)
       [(''GET'', [], List_Tasks), (''GET'', [Lit ''__peer'', Lit ''tasks''], Peer_Tasks),
        (''GET'', [Lit ''audit''], Audit_Log), (''GET'', [Lit ''metrics''], Metrics),
        (''GET'', [Lit ''queues''], Queues), (''PATCH'', [Lit ''queues'', Param], Update_Queue),
        (''POST'', [Lit ''bulk-retry''], Bulk_Retry), (''POST'', [Lit ''retry-failed''], Retry_Failed),
        (''GET'', [Param], Get_Task), (''POST'', [Param, Lit ''cancel''], Cancel_Task),
        (''POST'', [Param, Lit ''retry''], Retry_Task), (''DELETE'', [Lit ''history''], Delete_History)]"

fun split_at :: "char \<Rightarrow> string \<Rightarrow> string list" where
  "split_at x [] = [[]]"
| "split_at x (c # cs) =
     (if c = x then [] # split_at x cs
      else case split_at x cs of [] \<Rightarrow> [[c]] | p # ps \<Rightarrow> (c # p) # ps)"

definition path_segs :: "string \<Rightarrow> string \<Rightarrow> string list option" where
  "path_segs p path =
     (if take (length p) path \<noteq> p then None
      else case drop (length p) path of
             [] \<Rightarrow> Some []
           | c # r \<Rightarrow> if c = CHR ''/'' then Some (split_at (CHR ''/'') r) else None)"

fun seg_fits :: "seg \<Rightarrow> string \<Rightarrow> bool" where
  "seg_fits (Lit t) s \<longleftrightarrow> s = t"
| "seg_fits Param s \<longleftrightarrow> s \<noteq> []"

fun segs_fit :: "seg list \<Rightarrow> string list \<Rightarrow> bool" where
  "segs_fit [] [] \<longleftrightarrow> True"
| "segs_fit (t # ts) (s # ss) \<longleftrightarrow> seg_fits t s \<and> segs_fit ts ss"
| "segs_fit _ _ \<longleftrightarrow> False"

definition path_fits :: "string \<Rightarrow> api_route \<Rightarrow> bool" where
  "path_fits path r = (case path_segs (rt_prefix r) path of None \<Rightarrow> False | Some ss \<Rightarrow> segs_fit (rt_segs r) ss)"

datatype routed = To api_route | Refused nat

definition dispatch_request :: "api_route list \<Rightarrow> string \<Rightarrow> string \<Rightarrow> routed" where
  "dispatch_request rs meth path =
     (case find (\<lambda>r. path_fits path r \<and> rt_method r = meth) rs of
        Some r \<Rightarrow> To r
      | None \<Rightarrow> Refused (if list_ex (path_fits path) rs then 405 else 404))"

section \<open>The login pages\<close>

definition middle_dot :: string where "middle_dot = [CHR 0xC2, CHR 0xB7]"

definition favicon :: string where
  \<open>favicon =
     ''data:image/svg+xml,'' @ ''<svg xmlns='http://www.w3.org/2000/svg' viewBox='0 0 200 200'>''
     @ ''<rect width='200' height='200' rx='40' ry='40' fill='%23009688'/>''
     @ ''<polyline points='20,100 55,100 80,145 120,55 145,100 180,100' ''
     @ ''fill='none' stroke='white' stroke-width='18' ''
     @ ''stroke-linecap='round' stroke-linejoin='round'/></svg>''\<close>

definition error_block :: "string \<Rightarrow> string" where
  \<open>error_block err = (if err = [] then [] else ''<div class="error">'' @ err @ ''</div>'')\<close>

definition login_head :: "string \<Rightarrow> string list" where
  \<open>login_head title =
     [''<!DOCTYPE html>'',
      ''<html lang="en">'',
      ''<head>'',
      ''  <meta charset="UTF-8">'',
      ''  <meta name="viewport" content="width=device-width, initial-scale=1.0">'',
      ''  <title>Sign in '' @ middle_dot @ '' '' @ title @ ''</title>'',
      ''  <link rel="icon" type="image/svg+xml" href="'' @ favicon @ ''">'',
      ''  <link rel="preconnect" href="https://fonts.googleapis.com">'',
      ''  <link rel="preconnect" href="https://fonts.gstatic.com" crossorigin>'',
      ''  <link href="https://fonts.googleapis.com/css2?family=Geist:wght@400;500;600;700&display=swap" rel="stylesheet">'']\<close>

definition login_style :: "string list" where
  \<open>login_style =
     [''  <style>'',
      ''    *, *::before, *::after { box-sizing: border-box; margin: 0; padding: 0; }'',
      ''    body {'',
      ''      font-family: 'Geist', -apple-system, BlinkMacSystemFont, 'Segoe UI', sans-serif;'',
      ''      background: #f0faf9;'',
      ''      min-height: 100vh;'',
      ''      display: flex;'',
      ''      align-items: center;'',
      ''      justify-content: center;'',
      ''      -webkit-font-smoothing: antialiased;'',
      ''    }'',
      ''    .card {'',
      ''      background: #fff;'',
      ''      border: 1px solid #b2dfdb;'',
      ''      border-radius: 12px;'',
      ''      padding: 2rem;'',
      ''      width: 100%;'',
      ''      max-width: 360px;'',
      ''      box-shadow: 0 4px 24px rgba(0,150,136,.08);'',
      ''    }'',
      ''    .logo-row {'',
      ''      display: flex;'',
      ''      align-items: center;'',
      ''      gap: 10px;'',
      ''      margin-bottom: 1.75rem;'',
      ''    }'',
      ''    .logo-title {'',
      ''      font-size: 15px;'',
      ''      font-weight: 700;'',
      ''      letter-spacing: -0.02em;'',
      ''      color: #00695c;'',
      ''    }'',
      ''    label {'',
      ''      display: block;'',
      ''      font-size: 13px;'',
      ''      font-weight: 500;'',
      ''      color: #374151;'',
      ''      margin-bottom: 5px;'',
      ''    }'',
      ''    input[type=text], input[type=password] {'',
      ''      width: 100%;'',
      ''      padding: 8px 12px;'',
      ''      border: 1px solid #b2dfdb;'',
      ''      border-radius: 7px;'',
      ''      font-size: 14px;'',
      ''      font-family: inherit;'',
      ''      color: #111;'',
      ''      background: #fff;'',
      ''      outline: none;'',
      ''      transition: border-color .15s;'',
      ''      margin-bottom: 1rem;'',
      ''    }'',
      ''    input:focus { border-color: #009688; box-shadow: 0 0 0 3px rgba(0,150,136,.12); }'',
      ''    button {'',
      ''      width: 100%;'',
      ''      padding: 9px;'',
      ''      background: #009688;'',
      ''      color: #fff;'',
      ''      border: none;'',
      ''      border-radius: 7px;'',
      ''      font-size: 14px;'',
      ''      font-weight: 600;'',
      ''      font-family: inherit;'',
      ''      cursor: pointer;'',
      ''      transition: background .15s;'',
      ''    }'',
      ''    button:hover { background: #00796b; }'',
      ''    .error {'',
      ''      background: #fef2f2;'',
      ''      border: 1px solid #fecaca;'',
      ''      color: #dc2626;'',
      ''      border-radius: 6px;'',
      ''      padding: 8px 12px;'',
      ''      font-size: 13px;'',
      ''      margin-bottom: 1rem;'',
      ''    }'',
      ''  </style>'']\<close>

definition login_body :: "string \<Rightarrow> string \<Rightarrow> string \<Rightarrow> string list" where
  \<open>login_body action err title =
     [''</head>'',
      ''<body>'',
      ''  <div class="card">'',
      ''    <div class="logo-row">'',
      ''      <svg width="28" height="28" viewBox="0 0 200 200" xmlns="http://www.w3.org/2000/svg">'',
      ''        <rect width="200" height="200" rx="40" ry="40" fill="#009688"/>'',
      ''        <polyline points="20,100 55,100 80,145 120,55 145,100 180,100"'',
      ''          fill="none" stroke="white" stroke-width="18"'',
      ''          stroke-linecap="round" stroke-linejoin="round"/>'',
      ''      </svg>'',
      ''      <span class="logo-title">'' @ title @ ''</span>'',
      ''    </div>'',
      ''    '' @ error_block err,
      ''    <form method="post" action="'' @ action @ ''">'',
      ''      <label for="username">Username</label>'',
      ''      <input id="username" name="username" type="text"'',
      ''             autocomplete="username" autofocus required>'',
      ''      <label for="password">Password</label>'',
      ''      <input id="password" name="password" type="password"'',
      ''             autocomplete="current-password" required>'',
      ''      <button type="submit">Sign in</button>'',
      ''    </form>'',
      ''  </div>'',
      ''</body>'',
      ''</html>'']\<close>

definition login_html :: "string \<Rightarrow> string \<Rightarrow> string \<Rightarrow> string" where
  "login_html action err title = join nl (login_head title @ login_style @ login_body action err title)"

datatype cookie_change = Keep_Cookie | Set_Session string int | Drop_Session
datatype web_reply = Web_Page nat string | Web_Redirect string cookie_change

definition login_path :: "string \<Rightarrow> string" where
  "login_path prefix = prefix @ ''/auth/login''"

definition get_login :: "string \<Rightarrow> string \<Rightarrow> web_reply" where
  "get_login prefix title = Web_Page 200 (login_html (login_path prefix) [] title)"

definition post_login ::
  "mac_fun \<Rightarrow> auth_backend \<Rightarrow> string \<Rightarrow> int \<Rightarrow> string \<Rightarrow> string \<Rightarrow> string \<Rightarrow> string \<Rightarrow> int \<Rightarrow> py_exc + web_reply"
  where
  "post_login mac b secret expiry prefix title user pw now =
     (case login mac b secret expiry prefix user pw now of
        Inl e \<Rightarrow> Inl e
      | Inr (LoggedIn url tok) \<Rightarrow> Inr (Web_Redirect url (Set_Session tok expiry))
      | Inr (LoginPage st msg) \<Rightarrow> Inr (Web_Page st (login_html (login_path prefix) msg title)))"

definition get_logout :: "string \<Rightarrow> web_reply" where
  "get_logout prefix = Web_Redirect (login_path prefix) Drop_Session"

section \<open>The application\<close>

text \<open>
  \<open>ap_hooks\<close> are the managers whose \<open>startup\<close> and \<open>shutdown\<close> run with the application, \<open>ap_injects\<close> the
  one whose task list FastAPI injects; \<open>attached\<close> is the manager's \<open>_app\<close>.
\<close>

record site =
  ap_id :: nat
  ap_routes :: "api_route list"
  ap_hooks :: "nat list"
  ap_injects :: "nat option"

definition init_app :: "nat \<Rightarrow> nat option \<Rightarrow> site \<Rightarrow> nat option \<times> site" where
  "init_app mid attached s =
     (if attached = Some (ap_id s) then (attached, s)
      else (Some (ap_id s), s\<lparr>ap_hooks := ap_hooks s @ [mid]\<rparr>))"

definition install :: "nat \<Rightarrow> site \<Rightarrow> site" where
  "install mid s = s\<lparr>ap_injects := Some mid\<rparr>"

definition include_router :: "api_route list \<Rightarrow> site \<Rightarrow> site" where
  "include_router rs s = s\<lparr>ap_routes := ap_routes s @ rs\<rparr>"

record admin_args =
  aa_path :: string
  aa_show_args :: bool
  aa_install :: bool
  aa_auth :: auth_arg
  aa_secret :: "string option"
  aa_title :: string
  aa_retention :: "int option"   \<comment> \<open>in microseconds\<close>

text \<open>\<open>secret_key or secrets.token_hex(32)\<close>; \<open>hex\<close> is the random text.\<close>

definition resolved_secret :: "string \<Rightarrow> string option \<Rightarrow> auth_backend option \<Rightarrow> string option" where
  "resolved_secret hex given b =
     (case b of
        None \<Rightarrow> None
      | Some _ \<Rightarrow> Some (case given of None \<Rightarrow> hex | Some k \<Rightarrow> if k = [] then hex else k))"

definition admin_dash :: "admin_args \<Rightarrow> string option \<Rightarrow> dash_conf" where
  "admin_dash a secret =
     \<lparr>dc_prefix = aa_path a, dc_args = aa_show_args a, dc_secret = secret,
      dc_login = map_option (\<lambda>_. login_path (aa_path a)) secret, dc_title = aa_title a\<rparr>"

definition override_retention :: "admin_args \<Rightarrow> tm \<Rightarrow> tm" where
  "override_retention a m =
     (if aa_retention a \<noteq> None \<and> tm_backend m \<noteq> None then m\<lparr>tm_retention := aa_retention a\<rparr> else m)"

definition admin_routes :: "string \<Rightarrow> string option \<Rightarrow> api_route list" where
  "admin_routes p secret =
     (if secret = None then [] else auth_routes p) @ dashboard_routes p @ task_routes p secret"

definition task_admin ::
  "nat \<Rightarrow> nat option \<Rightarrow> string \<Rightarrow> admin_args \<Rightarrow> site \<Rightarrow> tm \<Rightarrow> (py_exc + dash_conf \<times> nat option) \<times> site \<times> tm" where
  "task_admin mid attached hex a s m =
     (let s1 = (if aa_install a then install mid s else s); m1 = override_retention a m
      in case resolve_backend (aa_auth a) of
           Inl e \<Rightarrow> (Inl e, s1, m1)
         | Inr b \<Rightarrow>
             (let secret = resolved_secret hex (aa_secret a) b;
                  s2 = include_router (admin_routes (aa_path a) secret) s1;
                  (att, s3) = init_app mid attached s2
              in (Inr (admin_dash a secret, att), s3, m1)))"

section \<open>Peers behind the guard\<close>

text \<open>
  \<open>GET <prefix>/__peer/tasks\<close> as an instance answers it, and the request of \<open>_http_get\<close>, which sends no
  cookie: \<open>urlopen\<close> raises for the status 401, and the body is none. \<open>fleet url\<close> is the instance that
  listens at a URL, with its secret.
\<close>

definition serve_peer_tasks :: "mac_fun \<Rightarrow> string option \<Rightarrow> string \<Rightarrow> int \<Rightarrow> tm \<Rightarrow> py_exc + pyval" where
  "serve_peer_tasks mac secret cookie now m =
     (case secret of
        None \<Rightarrow> Inr (peer_tasks m)
      | Some k \<Rightarrow> (case api_guard mac k cookie now of Inl e \<Rightarrow> Inl e | Inr _ \<Rightarrow> Inr (peer_tasks m)))"

definition fleet_http :: "mac_fun \<Rightarrow> int \<Rightarrow> (string \<Rightarrow> (string option \<times> tm) option) \<Rightarrow> http_get" where
  "fleet_http mac now fleet url =
     (case fleet url of
        None \<Rightarrow> None
      | Some (secret, m) \<Rightarrow>
          (case serve_peer_tasks mac secret [] now m of Inl _ \<Rightarrow> None | Inr v \<Rightarrow> Some (dumps v)))"

end
