(* ===== verification/Dashboard_Props.thy ===== *)
theory Dashboard_Props
  imports Dashboard Auth_Props Core_Props
begin

text \<open>
  What the dashboard shows: the rows of the task table read as HTML, the event stream read by an
  event-source client, the life of a stream, and who is let in.
\<close>

section \<open>Reading HTML\<close>

text \<open>
  The tokens of a fragment as a browser takes them apart: tags with their name, and the text between
  them with its character references decoded. Attributes may be quoted; their values are dropped.
\<close>

datatype html_item = HTag string | HText string
datatype html_mode = In_Text | In_Name | In_Attrs | In_Value char

definition entities :: "(string \<times> char) list" where
  "entities = [(''&amp;'', CHR ''&''), (''&lt;'', CHR ''<''), (''&gt;'', CHR ''>''),
               (''&quot;'', CHR 0x22), (''&#x27;'', CHR 0x27)]"

fun html_decode :: "string \<Rightarrow> string" where
  "html_decode [] = []"
| "html_decode (c # cs) =
     (case find (\<lambda>(e, x). take (length e) (c # cs) = e) entities of
        Some (e, x) \<Rightarrow> x # html_decode (drop (length e - 1) cs)
      | None \<Rightarrow> c # html_decode cs)"

definition shown :: "string \<Rightarrow> html_item list" where
  "shown s = (if s = [] then [] else [HText (html_decode s)])"

text \<open>The second argument is what was read of the text or of the name of the tag, reversed.\<close>

fun html_items :: "html_mode \<Rightarrow> string \<Rightarrow> string \<Rightarrow> html_item list" where
  "html_items In_Text b [] = shown (rev b)"
| "html_items In_Text b (c # cs) =
     (if c = CHR ''<'' then shown (rev b) @ html_items In_Name [] cs else html_items In_Text (c # b) cs)"
| "html_items In_Name b [] = []"
| "html_items In_Name b (c # cs) =
     (if c = CHR ''>'' then HTag (rev b) # html_items In_Text [] cs
      else if c = CHR '' '' then html_items In_Attrs b cs else html_items In_Name (c # b) cs)"
| "html_items In_Attrs b [] = []"
| "html_items In_Attrs b (c # cs) =
     (if c = CHR ''>'' then HTag (rev b) # html_items In_Text [] cs
      else if c = CHR 0x22 \<or> c = CHR 0x27 then html_items (In_Value c) b cs else html_items In_Attrs b cs)"
| "html_items (In_Value q) b [] = []"
| "html_items (In_Value q) b (c # cs) =
     (if c = q then html_items In_Attrs b cs else html_items (In_Value q) b cs)"

abbreviation page_items :: "string \<Rightarrow> html_item list" where
  "page_items s \<equiv> html_items In_Text [] s"

subsection \<open>Escaped text\<close>

lemma html_decode_escape [simp]: "html_decode (html_escape s @ r) = s @ html_decode r"
proof (induction s)
  case Nil
  then show ?case by (simp add: html_escape_def)
next
  case (Cons c s)
  have split: "html_escape (c # s) @ r = esc_char c @ (html_escape s @ r)" by (simp add: html_escape_def)
  have "html_decode (esc_char c @ t) = c # html_decode t" for t
    by (simp add: entities_def)
  then show ?case unfolding split using Cons by simp
qed

definition plain_text :: "string \<Rightarrow> bool" where
  "plain_text s \<longleftrightarrow> set s \<inter> {CHR ''<'', CHR ''>'', CHR ''&'', CHR 0x22, CHR 0x27} = {}"

lemma html_decode_other: "c \<noteq> CHR ''&'' \<Longrightarrow> html_decode (c # cs) = c # html_decode cs"
  by (simp add: entities_def)

lemma html_decode_plain: "plain_text s \<Longrightarrow> html_decode s = s"
proof (induction s)
  case (Cons c s)
  then have "plain_text s" "c \<noteq> CHR ''&''" by (auto simp: plain_text_def)
  then show ?case using Cons.IH by (simp add: html_decode_other del: html_decode.simps)
qed simp

lemma set_esc_char: "set (esc_char c) \<inter> {CHR ''<'', CHR ''>'', CHR 0x22, CHR 0x27} = {}"
  by simp

lemma escape_no_markup: "set (html_escape s) \<inter> {CHR ''<'', CHR ''>'', CHR 0x22, CHR 0x27} = {}"
proof -
  have "set (html_escape s) \<subseteq> (\<Union>c. set (esc_char c))"
    by (auto simp: html_escape_def simp del: esc_char.simps)
  then show ?thesis using set_esc_char by blast
qed

lemma html_items_text:
  "CHR ''<'' \<notin> set s \<Longrightarrow> html_items In_Text b (s @ r) = html_items In_Text (rev s @ b) r"
  by (induction s arbitrary: b) auto

lemma html_items_value:
  "q \<notin> set s \<Longrightarrow> html_items (In_Value q) b (s @ r) = html_items (In_Value q) b r"
  by (induction s) auto

lemma html_items_escape [simp]:
  "html_items In_Text b (html_escape s @ r) = html_items In_Text (rev (html_escape s) @ b) r"
  "html_items (In_Value (CHR 0x22)) b (html_escape s @ r) = html_items (In_Value (CHR 0x22)) b r"
  using escape_no_markup [of s] by (auto intro!: html_items_text html_items_value)

subsection \<open>The rows of the task table\<close>

definition text_item :: "string \<Rightarrow> html_item list" where
  "text_item s = (if s = [] then [] else [HText s])"

definition cell :: "html_item list \<Rightarrow> html_item list" where
  "cell is = HTag ''td'' # is @ [HTag ''/td'']"

definition span :: "html_item list \<Rightarrow> html_item list" where
  "span is = HTag ''span'' # is @ [HTag ''/span'']"

definition error_shown :: "string option \<Rightarrow> string" where
  "error_shown e =
     (case e of None \<Rightarrow> em_dash
      | Some x \<Rightarrow> if x = [] then em_dash else if length x > 60 then take 60 x @ ellipsis else x)"

definition row_items :: "task_record \<Rightarrow> html_item list" where
  "row_items t =
     HTag ''tr'' # cell [HText (take 8 (task_id t) @ ellipsis)] @ cell (text_item (func_name t))
     @ cell (span [HText (status_value (status t))]) @ cell [HText (duration_cell t)]
     @ cell [HText (str_of_int (retries_used t))] @ cell (span [HText (error_shown (error t))])
     @ [HTag ''/tr'']"

lemma html_escape_empty [simp]: "html_escape s = [] \<longleftrightarrow> s = []"
  by (cases s) (auto simp: html_escape_def)

lemma shown_escape [simp]: "shown (html_escape s @ r) = text_item (s @ html_decode r)" if "plain_text r"
  using that by (auto simp: shown_def text_item_def html_decode_plain)

lemma shown_plain: "plain_text s \<Longrightarrow> shown s = text_item s"
  by (simp add: shown_def text_item_def html_decode_plain)

lemma plain_text_append [simp]: "plain_text (a @ b) \<longleftrightarrow> plain_text a \<and> plain_text b"
  by (auto simp: plain_text_def)

lemma plain_signs [simp]: "plain_text em_dash" "plain_text ellipsis" "plain_text []"
  by (simp_all add: plain_text_def em_dash_def ellipsis_def)

lemma plain_text_alt:
  "plain_text s \<longleftrightarrow> list_all (\<lambda>c. c \<notin> {CHR ''<'', CHR ''>'', CHR ''&'', CHR 0x22, CHR 0x27}) s"
  by (auto simp: plain_text_def list_all_iff)

lemma plain_digits: "list_all is_digit s \<Longrightarrow> plain_text s"
  unfolding plain_text_alt by (erule list.pred_mono_strong) (auto simp: is_digit_def)

lemma plain_numbers [simp]: "plain_text (dec n)" "plain_text (digits w n)"
  by (rule plain_digits, rule dec_digits, rule plain_digits, rule is_digit_digits)

lemma plain_Cons [simp]:
  "plain_text (c # s) \<longleftrightarrow> c \<noteq> CHR ''<'' \<and> c \<noteq> CHR ''>'' \<and> c \<noteq> CHR ''&'' \<and> c \<noteq> CHR 0x22 \<and> c \<noteq> CHR 0x27 \<and> plain_text s"
  by (auto simp: plain_text_def)

lemma plain_int [simp]: "plain_text (str_of_int i)"
  by (simp add: str_of_int_def)

lemma plain_fixed [simp]: "plain_text (fixed d q)"
  by (simp add: fixed_def Let_def)

lemma plain_duration [simp]: "plain_text (duration_cell t)"
  by (simp add: duration_cell_def fmt_duration_def Let_def split: option.split)

lemma badge_items:
  "html_items In_Text [] (badge (status_value st) @ r) = span [HText (status_value st)] @ html_items In_Text [] r"
  by (cases st) (simp_all add: badge_def status_color_def html_escape_def span_def shown_def entities_def)

lemma html_items_plain:
  "plain_text s \<Longrightarrow> html_items In_Text b (s @ r) = html_items In_Text (rev s @ b) r"
  by (rule html_items_text) (auto simp: plain_text_def)

lemma signs_nonempty [simp]: "em_dash \<noteq> []" "ellipsis \<noteq> []"
  by (simp_all add: em_dash_def ellipsis_def)

lemma error_items:
  "html_items In_Text [] (error_cell e @ r) = span [HText (error_shown e)] @ html_items In_Text [] r"
  by (auto simp: error_cell_def span_def error_shown_def html_items_plain shown_plain text_item_def html_decode_plain split: option.split)

lemma numbers_nonempty [simp]: "dec n \<noteq> []" "str_of_int i \<noteq> []" "fixed d q \<noteq> []" "duration_cell t \<noteq> []"
proof -
  show d: "dec n \<noteq> []" for n by (subst dec.simps) simp
  show "str_of_int i \<noteq> []" by (simp add: str_of_int_def d)
  show "fixed d q \<noteq> []" by (simp add: fixed_def Let_def d)
  show "duration_cell t \<noteq> []" by (simp add: duration_cell_def fmt_duration_def Let_def split: option.split)
qed

lemma task_row_items: "page_items (task_row t @ r) = row_items t @ page_items r"
  by (simp add: task_row_def row_items_def cell_def badge_items error_items html_items_plain shown_plain
      text_item_def html_decode_plain shown_escape [of "[]", simplified])

lemma task_rows_items: "page_items (concat (map task_row ts)) = concat (map row_items ts)"
  by (induction ts) (simp_all add: task_row_items shown_def)

text \<open>C16: Whatever the ids, function names and errors of the tasks contain, a browser sees the task table
  as one row per task, newest first, with six cells that show the values themselves: no value opens a
  tag, closes one or changes another cell.\<close>

theorem task_rows_shown:
  "page_items (render_task_rows ts) =
     (if ts = [] then HTag ''tr'' # cell [HText ''No tasks recorded yet.''] @ [HTag ''/tr'']
      else concat (map row_items (newest_first ts)))"
  by (simp add: render_task_rows_def task_rows_items cell_def shown_def
      html_decode_plain [of "''No tasks recorded yet.''"] del: html_decode.simps)
text \<open>
  The name of a queue is also text of the script in the \<open>onsubmit\<close> attribute of its form. The browser
  decodes the attribute before it runs it, so there the escaping is undone.
\<close>

lemma queue_handler_raw:
  assumes "plain_text prefix"
  shows "html_decode (patch_url prefix q) = prefix @ ''/queues/'' @ q_text val_str ''name'' q"
proof -
  have decode: "plain_text a \<Longrightarrow> html_decode (a @ b) = a @ html_decode b" for a b
  proof (induction a)
    case (Cons c a)
    then show ?case by (simp add: html_decode_other del: html_decode.simps)
  qed simp
  show ?thesis
    using assms decode [of "prefix @ ''/queues/''"] html_decode_escape [of _ "[]"]
    by (simp add: patch_url_def)
qed

section \<open>Reading the event stream\<close>

text \<open>
  An event-source client: lines end at a line break, a \<open>data\<close> line adds to the event that is being
  read, an empty line delivers it, and other lines (the event name, comments) carry no data.
\<close>

definition line_break :: "char \<Rightarrow> bool" where
  "line_break c \<longleftrightarrow> c = CHR 0x0A \<or> c = CHR 0x0D"

fun sse_lines :: "string \<Rightarrow> string \<Rightarrow> string list" where
  "sse_lines b [] = []"
| "sse_lines b (c # cs) = (if line_break c then rev b # sse_lines [] cs else sse_lines (c # b) cs)"

fun sse_client :: "string option \<Rightarrow> string list \<Rightarrow> string list" where
  "sse_client d [] = []"
| "sse_client d (l # ls) =
     (if l = [] then (case d of None \<Rightarrow> sse_client None ls | Some x \<Rightarrow> x # sse_client None ls)
      else if take 6 l = ''data: ''
      then sse_client (Some (case d of None \<Rightarrow> drop 6 l | Some x \<Rightarrow> x @ nl @ drop 6 l)) ls
      else sse_client d ls)"

abbreviation one_line :: "string \<Rightarrow> bool" where
  "one_line s \<equiv> list_all (\<lambda>c. \<not> line_break c) s"

lemma one_line_concat [simp]: "one_line (concat xs) \<longleftrightarrow> list_all one_line xs"
  by (induction xs) auto

lemma one_line_join [simp]: "one_line sep \<Longrightarrow> one_line (join sep xs) \<longleftrightarrow> list_all one_line xs"
  by (induction sep xs rule: join.induct) auto

lemma one_line_escape [simp]: "one_line (escape c)"
proof -
  have hex: "n < 16 \<Longrightarrow> \<not> line_break (hex_alphabet ! n)" for n
  proof -
    assume "n < 16"
    then have "hex_alphabet ! n \<in> set hex_alphabet" by (intro nth_mem) (simp add: hex_alphabet_def)
    then show ?thesis by (auto simp: hex_alphabet_def line_break_def)
  qed
  have n: "(of_char c :: nat) div 16 < 16" "(of_char c :: nat) mod 16 < 16"
    using of_char_less [of c] by linarith+
  have "\<not> line_break (hex_alphabet ! (of_char c div 16))" "\<not> line_break (hex_alphabet ! (of_char c mod 16))"
    by (rule hex [OF n(1)], rule hex [OF n(2)])
  moreover have "dget escapes c = Some e \<Longrightarrow> \<not> line_break e" for e
    by (auto simp: escapes_def line_break_def split: if_splits)
  moreover have "printable c \<Longrightarrow> \<not> line_break c" by (auto simp: printable_def line_break_def)
  ultimately show ?thesis by (auto simp: escape_def line_break_def split: option.split)
qed

lemma one_line_quote [simp]: "one_line (quote s)"
proof -
  have "one_line (concat (map escape s))" by (simp add: list.pred_map comp_def list.pred_True)
  then show ?thesis unfolding quote_def by (simp add: line_break_def)
qed

lemma one_line_dec [simp]: "one_line (dec n)"
  using dec_digits by (rule list.pred_mono_strong) (auto simp: is_digit_def line_break_def)

lemma one_line_int [simp]: "one_line (str_of_int i)"
  by (simp add: str_of_int_def) (simp add: line_break_def)

lemma one_line_json:
  assumes "\<And>q. one_line (fr q)"
  shows "one_line (json_text fr j)"
proof (induction j)
  case JNull
  then show ?case by (simp add: line_break_def)
next
  case (JBool b)
  then show ?case by (simp add: line_break_def)
next
  case (JArr js)
  then have "list_all one_line (map (json_text fr) js)" by (simp add: list_all_iff)
  then have "one_line (join '', '' (map (json_text fr) js))"
    by (subst one_line_join) (simp_all add: line_break_def)
  then show ?case by simp (simp add: line_break_def)
next
  case (JObj kjs)
  have "one_line (quote k @ '': '' @ json_text fr j)" if "(k, j) \<in> set kjs" for k j
  proof -
    have "one_line (json_text fr j)" using JObj that by auto
    moreover have "one_line '': ''" by (simp add: line_break_def)
    ultimately show ?thesis by (simp only: list_all_append one_line_quote simp_thms)
  qed
  then have "list_all one_line (map (\<lambda>(k, j). quote k @ '': '' @ json_text fr j) kjs)"
    by (auto simp: list_all_iff)
  then have "one_line (join '', '' (map (\<lambda>(k, j). quote k @ '': '' @ json_text fr j) kjs))"
    by (subst one_line_join) (simp_all add: line_break_def)
  then show ?case by simp (simp add: line_break_def)
qed (use assms in simp_all)

lemma sse_lines_line: "one_line s \<Longrightarrow> sse_lines b (s @ nl @ r) = (rev b @ s) # sse_lines [] r"
  by (induction s arbitrary: b) (auto simp: nl_def line_break_def)

fun payload :: "(rat \<Rightarrow> string) \<Rightarrow> sse_frame \<Rightarrow> string option" where
  "payload fr (State_Event j) = Some (json_text fr j)"
| "payload fr Keep_Alive = None"

lemma frame_lines:
  assumes "\<And>q. one_line (fr q)"
  shows "sse_client None (sse_lines [] (frame_text fr f @ r)) =
    (case payload fr f of None \<Rightarrow> [] | Some p \<Rightarrow> [p]) @ sse_client None (sse_lines [] r)"
proof (cases f)
  case (State_Event j)
  have e: "one_line ''event: state''" "one_line (''data: '' @ json_text fr j)"
    using one_line_json [OF assms] by (simp_all add: line_break_def)
  have "frame_text fr f @ r = ''event: state'' @ nl @ (''data: '' @ json_text fr j) @ nl @ [] @ nl @ r"
    by (simp add: State_Event)
  then have "sse_lines [] (frame_text fr f @ r) = ''event: state'' # (''data: '' @ json_text fr j) # [] # sse_lines [] r"
    using sse_lines_line [OF e(1)] sse_lines_line [OF e(2)] sse_lines_line [of "[]"] by simp
  then show ?thesis by (simp add: State_Event)
next
  case Keep_Alive
  have e: "one_line '': keep-alive''" by (simp add: line_break_def)
  have "frame_text fr f @ r = '': keep-alive'' @ nl @ [] @ nl @ r" by (simp add: Keep_Alive)
  then have "sse_lines [] (frame_text fr f @ r) = '': keep-alive'' # [] # sse_lines [] r"
    using sse_lines_line [OF e] sse_lines_line [of "[]"] by simp
  then show ?thesis by (simp add: Keep_Alive)
qed

text \<open>C39: A client that reads the stream line by line gets exactly the payloads of the state events, whole
  and in order, whatever text the records contain: no value breaks the framing.\<close>

theorem sse_stream_decodes:
  assumes "\<forall>q. one_line (fr q)"
  shows "sse_client None (sse_lines [] (concat (map (frame_text fr) fs))) = List.map_filter (payload fr) fs"
proof (induction fs)
  case (Cons f fs)
  then show ?case using frame_lines [of fr f] assms by (simp add: map_filter_simps split: option.split)
qed (simp add: map_filter_simps)

lemma sse_stream_decodes_witness:
  "sse_client None (sse_lines [] (concat (map (frame_text (\<lambda>q. ''0.5''))
     [State_Event (JStr [CHR 0x0A]), Keep_Alive, State_Event (JNum (1 / 2))]))) = [quote [CHR 0x0A], ''0.5'']"
  using sse_stream_decodes [of "\<lambda>q. ''0.5''" "[State_Event (JStr [CHR 0x0A]), Keep_Alive, State_Event (JNum (1 / 2))]"]
  by (simp add: line_break_def map_filter_simps)

end
