(* ===== verification/Stream_Props.thy ===== *)
theory Stream_Props
  imports Dashboard_Props Router_Props
begin

text \<open>
  The life of a dashboard stream: it ends without leaving its subscriber behind, it ends at shutdown,
  and while it lives its last state event catches up with the store, except for deletions.
\<close>

section \<open>One turn\<close>

lemmas stream_defs =
  stream_turn_def stream_emit_def stream_close_def stream_open_def take_message_def

definition page_state :: "text_env \<Rightarrow> bool \<Rightarrow> tm \<Rightarrow> sse_frame" where
  "page_state te a m =
     build_sse_state (te_repr te) a (dvals (overlay (store_list (tm_store m)) []))
       (get_schedule_entries (te_every te) m) (get_schedule_summary m) (list_queues m)"

lemma current_state_local:
  "tm_backend m = None \<Longrightarrow> current_state http te a m = (Inr (page_state te a m), m)"
  by (simp add: current_state_def merged_list_def page_state_def)

lemma page_state_store:
  "st_tasks s = st_tasks (tm_store m) \<Longrightarrow> page_state te a (m\<lparr>tm_store := s\<rparr>) = page_state te a m"
  by (simp add: page_state_def store_list_def get_schedule_entries_def get_schedule_summary_def
      list_queues_def queue_stats_def cong: option.case_cong)

abbreviation inbox :: "nat \<Rightarrow> tm \<Rightarrow> string option list option" where
  "inbox q m \<equiv> dget (st_queues (tm_store m)) q"

section \<open>Catching up\<close>

text \<open>The store operations that announce their change, and the coming and going of other clients.\<close>

inductive announced :: "nat \<Rightarrow> store \<Rightarrow> store \<Rightarrow> bool" for q where
  created: "announced q s (snd (store_create r s))"
| updated: "announced q s (upd tid f s)"
| logged: "announced q s (append_log tid msg s)"
| joined: "st_next_queue s \<noteq> q \<Longrightarrow> announced q s (snd (add_subscriber s))"
| left: "p \<noteq> q \<Longrightarrow> announced q s (remove_subscriber p s)"

inductive stream_step ::
  "http_get \<Rightarrow> text_env \<Rightarrow> stream \<Rightarrow> sse_frame list \<times> tm \<Rightarrow> sse_frame list \<times> tm \<Rightarrow> bool"
  for http te st where
  change: "announced (sm_queue st) (tm_store m) s \<Longrightarrow>
             stream_step http te st (fs, m) (fs, m\<lparr>tm_store := s\<rparr>)"
| deliver: "st_scheduled (tm_store m) > 0 \<Longrightarrow>
             stream_step http te st (fs, m) (fs, m\<lparr>tm_store := fan_out (tm_store m)\<rparr>)"
| turn: "stream_turn http te st Waited m = (Yields f, m') \<Longrightarrow>
             stream_step http te st (fs, m) (fs @ [f], m')"

definition states :: "sse_frame list \<Rightarrow> sse_frame list" where
  "states fs = filter (\<lambda>f. f \<noteq> Keep_Alive) fs"

definition outstanding :: "nat \<Rightarrow> tm \<Rightarrow> bool" where
  "outstanding q m \<longleftrightarrow> st_scheduled (tm_store m) > 0 \<or> inbox q m \<noteq> Some []"

definition following :: "text_env \<Rightarrow> stream \<Rightarrow> sse_frame list \<times> tm \<Rightarrow> bool" where
  "following te st = (\<lambda>(fs, m).
     tm_backend m = None \<and> \<not> sm_backend st \<and> inbox (sm_queue st) m \<noteq> None \<and> states fs \<noteq> []
     \<and> (outstanding (sm_queue st) m \<or> last (states fs) = page_state te (sm_args st) m))"

lemma states_snoc [simp]: "states (fs @ [f]) = states fs @ (if f = Keep_Alive then [] else [f])"
  by (simp add: states_def)

lemma page_state_event [simp]: "page_state te a m \<noteq> Keep_Alive"
  by (simp add: page_state_def build_sse_state_def)

lemma announced_effect:
  assumes "announced q s s'"
  shows "dget (st_queues s') q = dget (st_queues s) q"
    and "st_scheduled s' > 0 \<or> st_tasks s' = st_tasks s \<and> st_scheduled s' = st_scheduled s"
  using assms by (auto elim!: announced.cases simp: store_defs split: option.splits)

lemma fan_out_effect:
  "st_tasks (fan_out s) = st_tasks s"
  "dget (st_queues (fan_out s)) q = map_option (put_nowait (Some ''change'')) (dget (st_queues s) q)"
  by (simp_all add: fan_out_def map_of_map)

lemma put_nowait_nonempty [simp]: "put_nowait x b \<noteq> []"
  by (auto simp: put_nowait_def)

lemma following_step:
  assumes "stream_step http te st v v'" and "following te st v"
  shows "following te st v'"
  using assms
proof cases
  case (change m s fs)
  then show ?thesis
    using assms(2) announced_effect [OF change(3)] page_state_store [of s m te "sm_args st"]
    by (auto simp: following_def outstanding_def)
next
  case (deliver m fs)
  then show ?thesis
    using assms(2) fan_out_effect [of "tm_store m"]
    by (auto simp: following_def outstanding_def)
next
  case (turn m f m' fs)
  then show ?thesis
    using assms(2) page_state_store [of _ m te "sm_args st"]
    by (auto simp: following_def outstanding_def stream_defs current_state_local
        split: option.splits list.splits if_splits)
qed

lemma following_open:
  assumes "tm_backend m = None" and "stream_open http te a m = (st, Yields f, m')"
  shows "following te st ([f], m')" "sm_args st = a"
  using assms
  by (auto simp: following_def states_def stream_defs current_state_local outstanding_def add_subscriber_def)

text \<open>C18: Without a backend a dashboard catches up: whatever tasks are created, updated and logged to and
  whichever other clients come and go, once no notification is outstanding the last state event the
  client got is the state of the page now.\<close>

theorem stream_catches_up:
  assumes "tm_backend m0 = None" and "stream_open http te a m0 = (st, Yields f, m1)"
    and "(stream_step http te st)\<^sup>*\<^sup>* ([f], m1) (fs, m)"
    and "\<not> outstanding (sm_queue st) m"
  shows "current_state http te a m = (Inr (last (states fs)), m)"
proof -
  note o = following_open [OF assms(1,2)]
  from assms(3) o(1) have "following te st (fs, m)"
    by (induction rule: rtranclp_induct) (auto intro: following_step)
  then show ?thesis using assms(4) o(2) by (auto simp: following_def current_state_local)
qed

text \<open>An outstanding notification is delivered, and the next turn of the client then emits the state.\<close>

lemma stream_next_turn:
  assumes "tm_backend m = None" and "inbox (sm_queue st) m = Some (Some x # r)"
  shows "\<exists>m'. stream_turn http te st Waited m = (Yields (page_state te (sm_args st) m), m')"
  using assms page_state_store [of _ m te "sm_args st"] by (simp add: stream_defs current_state_local)

section \<open>Deletions are not announced\<close>

lemma deletion_silent:
  assumes "tm_backend m = None" and "delete_history n u m = (r, m')"
  shows "tm_backend m' = None" "st_queues (tm_store m') = st_queues (tm_store m)"
    "st_scheduled (tm_store m') = st_scheduled (tm_store m)"
  using assms by (auto simp: delete_history_def delete_completed_before_def tm_tick_def
      split: option.splits sum.splits)

inductive quiet_turns :: "http_get \<Rightarrow> text_env \<Rightarrow> stream \<Rightarrow> sse_frame list \<times> tm \<Rightarrow> sse_frame list \<times> tm \<Rightarrow> bool"
  for http te st where
  "stream_turn http te st Waited m = (Yields f, m') \<Longrightarrow> quiet_turns http te st (fs, m) (fs @ [f], m')"

text \<open>A deletion never reaches a dashboard of a manager without a backend: after the history was
  deleted the stream sends keep-alives only, and the client goes on showing the deleted tasks until
  some other task changes.\<close>

lemma deletion_not_streamed:
  assumes "tm_backend m = None" and "\<not> sm_backend st" and "\<not> outstanding (sm_queue st) m"
    and "delete_history n u m = (r, m')" and "(quiet_turns http te st)\<^sup>*\<^sup>* (fs, m') (fs', m2)"
  shows "m2 = m' \<and> states fs' = states fs"
proof -
  have "snd (fs', m2) = m' \<and> states (fst (fs', m2)) = states fs"
    using assms(5)
  proof (induction rule: rtranclp_induct)
    case (step v w)
    then show ?case
      using assms(2,3) deletion_silent [OF assms(1,4)]
      by (auto elim!: quiet_turns.cases simp: stream_defs outstanding_def)
  qed simp
  then show ?thesis by simp
qed

section \<open>Ends\<close>

definition ended :: "stream_out \<Rightarrow> bool" where
  "ended r = (case r of Yields f \<Rightarrow> False | _ \<Rightarrow> True)"

lemma ended_simps [simp]: "\<not> ended (Yields f)" "ended Ends" "ended (Raises e)"
  by (simp_all add: ended_def)

definition subscribers :: "tm \<Rightarrow> nat set" where
  "subscribers m = {q. inbox q m \<noteq> None}"

text \<open>A stream with what wakes it at each turn and what the rest of the program does before.\<close>

fun stream_run ::
  "http_get \<Rightarrow> text_env \<Rightarrow> stream \<Rightarrow> ((tm \<Rightarrow> tm) \<times> wake) list \<Rightarrow> tm \<Rightarrow> bool \<times> tm" where
  "stream_run http te st [] m = (False, m)"
| "stream_run http te st ((env, w) # ts) m =
     (case stream_turn http te st w (env m) of
        (out, m') \<Rightarrow> if ended out then (True, m') else stream_run http te st ts m')"

lemma current_state_store: "tm_store (snd (current_state http te a m)) = tm_store m"
proof -
  obtain x n where "merged_list http m = (x, n)" by (cases "merged_list http m")
  with merged_list_keeps(1) [OF this] show ?thesis by (cases x) (simp_all add: current_state_def)
qed

lemma subscribers_close: "subscribers (stream_close q m) = subscribers m - {q}"
  by (auto simp: subscribers_def stream_close_def remove_subscriber_def)

lemma stream_emit_subscribers:
  assumes "stream_emit http te st m = (out, m')"
  shows "subscribers m' = subscribers m - (if ended out then {sm_queue st} else {})"
proof -
  obtain r n where c: "current_state http te (sm_args st) m = (r, n)"
    by (cases "current_state http te (sm_args st) m")
  then have "subscribers n = subscribers m"
    using current_state_store [of http te "sm_args st" m] by (simp add: subscribers_def)
  then show ?thesis
    using assms c subscribers_close [of "sm_queue st" n]
    by (cases r) (auto simp: stream_emit_def split: if_splits)
qed

lemma stream_turn_subscribers:
  assumes "stream_turn http te st w m = (out, m')"
  shows "subscribers m' = subscribers m - (if ended out then {sm_queue st} else {})"
proof (cases "take_message (sm_queue st) (tm_store m)")
  case (Pair x s)
  let ?m = "m\<lparr>tm_store := s\<rparr>"
  have take: "subscribers ?m = subscribers m"
    using Pair by (auto simp: take_message_def subscribers_def split: option.splits list.splits if_splits)
  show ?thesis
  proof (cases "w = Waited")
    case True
    consider "x = Some None" | y where "x = Some (Some y)" | "x = None" by (metis option.exhaust)
    then show ?thesis
      using assms True Pair take subscribers_close [of "sm_queue st" ?m]
        stream_emit_subscribers [of http te st ?m out m'] stream_emit_subscribers [of http te st m out m']
      by cases (auto simp: stream_turn_def split: if_splits)
  next
    case False
    then show ?thesis using assms subscribers_close [of "sm_queue st" m] by (auto simp: stream_turn_def)
  qed
qed

lemma stream_run_subscribers:
  assumes "\<forall>(env, w) \<in> set ts. \<forall>n. subscribers (env n) = subscribers n"
    and "stream_run http te st ts m = (e, m')"
  shows "subscribers m' = subscribers m - (if e then {sm_queue st} else {})"
  using assms
proof (induction ts arbitrary: m)
  case (Cons t ts)
  obtain env w where t: "t = (env, w)" by (cases t)
  obtain out n where turn: "stream_turn http te st w (env m) = (out, n)"
    by (cases "stream_turn http te st w (env m)")
  have env: "subscribers (env m) = subscribers m" using Cons.prems(1) t by simp
  show ?case
    using Cons.IH [of n] Cons.prems turn stream_turn_subscribers [OF turn] env
    by (auto simp: t split: if_splits)
qed simp

text \<open>C40: A dashboard stream gives its subscriber queue back however it ends: when the client is gone, when
  it is cancelled, at shutdown and when reading the tasks raises. Until then it holds exactly one.\<close>

theorem stream_returns_subscriber:
  assumes "stream_open http te a m0 = (st, out, m1)" and "st_next_queue (tm_store m0) \<notin> subscribers m0"
    and "\<forall>(env, w) \<in> set ts. \<forall>n. subscribers (env n) = subscribers n"
    and "stream_run http te st ts m1 = (e, m2)"
  shows "if ended out then subscribers m1 = subscribers m0
         else subscribers m2 = (if e then subscribers m0 else insert (sm_queue st) (subscribers m0))"
proof -
  let ?m = "m0\<lparr>tm_store := snd (add_subscriber (tm_store m0))\<rparr>"
  have st: "sm_queue st = st_next_queue (tm_store m0)" and emit: "stream_emit http te st ?m = (out, m1)"
    using assms(1) by (auto simp: stream_open_def add_subscriber_def Let_def)
  have sub: "subscribers ?m = insert (sm_queue st) (subscribers m0)"
    by (auto simp: subscribers_def add_subscriber_def st)
  show ?thesis
    using stream_emit_subscribers [OF emit] stream_run_subscribers [OF assms(3,4)] sub assms(2) st
    by auto
qed

text \<open>The sentinel of a shutdown ends the next turn, whatever notifications are still delivered.\<close>

lemma stream_ends_at_shutdown:
  assumes "inbox (sm_queue st) m = Some b" and "length b \<le> 1"
    and "tm_store m' = (fan_out ^^ n) (notify_shutdown (tm_store m))"
  shows "fst (stream_turn http te st Waited m') = Ends"
proof -
  have sent: "dget (st_queues (notify_shutdown (tm_store m))) (sm_queue st) = Some [None]"
    using assms(1,2) by (cases b) (simp_all add: notify_shutdown_def map_of_map put_nowait_def)
  have "dget (st_queues ((fan_out ^^ n) (notify_shutdown (tm_store m)))) (sm_queue st) = Some [None]"
    by (induction n) (use sent in \<open>auto simp: fan_out_effect put_nowait_def\<close>)
  then show ?thesis by (simp add: stream_turn_def take_message_def assms(3))
qed

section \<open>Who is let in\<close>

text \<open>With a secret configured, a request without a valid session is sent to the login page or refused
  by every route of the dashboard but one: the event stream is opened for anybody and sends the whole
  state, with the arguments of the tasks where the dashboard shows them.\<close>

lemma stream_unguarded:
  assumes "dc_secret cf = Some k" and "dc_login cf = Some url"
    and "\<not> verify_token mac k (case cookie of None \<Rightarrow> [] | Some c \<Rightarrow> c) now"
    and "tm_backend m = None"
  shows "get_dashboard mac te tpl cf cookie now m = Inr (Redirect_To url)
    \<and> metrics_fragment mac http cf cookie now m = (Inl (HttpError 401 ''Unauthorized''), m)
    \<and> tasks_fragment mac http cf cookie now m = (Inl (HttpError 401 ''Unauthorized''), m)
    \<and> queues_fragment mac cf cookie now m = Inl (HttpError 401 ''Unauthorized'')
    \<and> fst (snd (get_stream http te cf cookie m)) = Yields (page_state te (dc_args cf) m)"
proof (intro conjI)
  have c: "\<not> check_cookie mac cf cookie now" using assms(1,3) by (simp add: check_cookie_def)
  then show "get_dashboard mac te tpl cf cookie now m = Inr (Redirect_To url)"
    "metrics_fragment mac http cf cookie now m = (Inl (HttpError 401 ''Unauthorized''), m)"
    "tasks_fragment mac http cf cookie now m = (Inl (HttpError 401 ''Unauthorized''), m)"
    "queues_fragment mac cf cookie now m = Inl (HttpError 401 ''Unauthorized'')"
    using assms(2)
    by (simp_all add: get_dashboard_def metrics_fragment_def tasks_fragment_def fragment_def queues_fragment_def)
  show "fst (snd (get_stream http te cf cookie m)) = Yields (page_state te (dc_args cf) m)"
    using assms(4) page_state_store [of "snd (add_subscriber (tm_store m))" m te "dc_args cf"]
    by (simp add: get_stream_def stream_open_def stream_emit_def current_state_local split_def Let_def)
      (simp add: add_subscriber_def)
qed

section \<open>The registered tasks\<close>

lemma registry_rows_sorted: "sorted (map fst (registry_rows rg))"
  by (simp add: registry_rows_def)

lemma registry_rows_exact:
  "(name, v) \<in> set (registry_rows rg) \<longleftrightarrow>
     (\<exists>f c. (name, f) \<in> set (rg_by_name rg) \<and> get_config rg f = Some c \<and> v = registry_row name c)"
  by (force simp: registry_rows_def List.map_filter_def get_config_def)

section \<open>Instances\<close>

definition ex_text :: text_env where
  "ex_text = \<lparr>te_float = (\<lambda>q. ''0.5''), te_repr = (\<lambda>v. ''?''), te_every = (\<lambda>i. ''30'')\<rparr>"

definition ex_client :: stream where
  "ex_client = \<lparr>sm_queue = 0, sm_backend = False, sm_args = False\<rparr>"

definition ex_page :: tm where
  "ex_page = ex_tm\<lparr>tm_backend := None, tm_store := store_init\<rparr>"

definition ex_watched :: tm where
  "ex_watched = ex_page\<lparr>tm_store := snd (add_subscriber store_init)\<rparr>"

lemma ex_open:
  "stream_open http ex_text False ex_page = (ex_client, Yields (page_state ex_text False ex_watched), ex_watched)"
  by (simp add: stream_open_def stream_emit_def current_state_local ex_page_def ex_watched_def ex_client_def
      add_subscriber_def store_init_def)

lemma stream_catches_up_witness:
  "\<exists>fs m. store_list (tm_store m) = [ex_ended] \<and> current_state no_http ex_text False m = (Inr (last (states fs)), m)"
proof -
  let ?s = "snd (store_create ex_ended (tm_store ex_watched))"
  let ?m1 = "ex_watched\<lparr>tm_store := ?s\<rparr>" and ?m2 = "ex_watched\<lparr>tm_store := fan_out ?s\<rparr>"
  let ?m3 = "ex_watched\<lparr>tm_store := snd (take_message 0 (fan_out ?s))\<rparr>"
  let ?f = "page_state ex_text False ex_watched" and ?g = "page_state ex_text False ?m3"
  have n: "tm_backend ex_watched = None" "tm_backend ex_page = None" by (simp_all add: ex_watched_def ex_page_def)
  have "stream_step no_http ex_text ex_client ([?f], ex_watched) ([?f], ?m1)"
    by (intro stream_step.change announced.created)
  moreover have "stream_step no_http ex_text ex_client ([?f], ?m1) ([?f], ?m2)"
    using stream_step.deliver [of ?m1] by (simp add: store_defs)
  moreover have "stream_turn no_http ex_text ex_client Waited ?m2 = (Yields ?g, ?m3)"
    using n by (simp add: stream_defs ex_client_def current_state_local store_defs ex_watched_def store_init_def put_nowait_def)
  then have "stream_step no_http ex_text ex_client ([?f], ?m2) ([?f] @ [?g], ?m3)"
    by (rule stream_step.turn)
  ultimately have r: "(stream_step no_http ex_text ex_client)\<^sup>*\<^sup>* ([?f], ex_watched) ([?f, ?g], ?m3)"
    by (auto intro: rtranclp.rtrancl_into_rtrancl)
  have "\<not> outstanding (sm_queue ex_client) ?m3"
    by (simp add: outstanding_def ex_client_def take_message_def store_defs ex_watched_def store_init_def put_nowait_def)
  from stream_catches_up [OF n(2) ex_open r this]
  have "current_state no_http ex_text False ?m3 = (Inr (last (states [?f, ?g])), ?m3)" .
  moreover have "store_list (tm_store ?m3) = [ex_ended]"
    by (simp add: take_message_def store_defs ex_watched_def store_init_def put_nowait_def)
  ultimately show ?thesis by blast
qed

definition ex_shown :: tm where
  "ex_shown = ex_old\<lparr>tm_backend := None, tm_store := snd (add_subscriber (fan_out (snd (store_create ex_ended store_init))))\<rparr>"

lemma deletion_not_streamed_witness:
  "let m' = snd (delete_history 1 ''day'' ex_shown); f = page_state ex_text False ex_shown
   in store_list (tm_store ex_shown) = [ex_ended] \<and> store_list (tm_store m') = []
      \<and> (\<exists>g m2. stream_turn no_http ex_text ex_client Waited m' = (Yields g, m2)
           \<and> m2 = m' \<and> states [f, g] = [f])"
proof -
  let ?d = "delete_history 1 ''day'' ex_shown" and ?f = "page_state ex_text False ex_shown"
  have b: "tm_backend ex_shown = None" "\<not> sm_backend ex_client" by (simp_all add: ex_shown_def ex_client_def)
  have o: "\<not> outstanding (sm_queue ex_client) ex_shown"
    by (simp add: outstanding_def ex_client_def ex_shown_def store_defs store_init_def)
  have e: "store_list (tm_store ex_shown) = [ex_ended]" by (simp add: ex_shown_def store_defs store_init_def)
  have d: "store_list (tm_store (snd ?d)) = []" by code_simp
  have s: "?d = (fst ?d, snd ?d)" by simp
  obtain g m2 where t: "stream_turn no_http ex_text ex_client Waited (snd ?d) = (Yields g, m2)"
    using deletion_silent [OF b(1) s] o b(2) by (auto simp: stream_defs outstanding_def)
  then have q: "(quiet_turns no_http ex_text ex_client)\<^sup>*\<^sup>* ([?f], snd ?d) ([?f] @ [g], m2)"
    by (intro r_into_rtranclp quiet_turns.intros)
  from deletion_not_streamed [OF b o s q] t e d show ?thesis by (auto simp: states_def)
qed

lemma stream_returns_subscriber_witness:
  "subscribers (snd (stream_run no_http ex_text ex_client [(id, Waited), (id, Client_Gone)] ex_watched)) = {}"
proof -
  let ?ts = "[(id, Waited), (id :: tm \<Rightarrow> tm, Client_Gone)]"
  have "fst (stream_run no_http ex_text ex_client ?ts ex_watched)"
    by (simp add: stream_defs ex_client_def ex_watched_def store_init_def add_subscriber_def)
  then obtain m2 where r: "stream_run no_http ex_text ex_client ?ts ex_watched = (True, m2)"
    by (cases "stream_run no_http ex_text ex_client ?ts ex_watched") auto
  have e: "subscribers ex_page = {}" by (simp add: subscribers_def ex_page_def store_init_def)
  from stream_returns_subscriber [OF ex_open _ _ r] e r show ?thesis by simp
qed
definition ex_locked :: dash_conf where
  "ex_locked = \<lparr>dc_prefix = ''/tasks'', dc_args = True, dc_secret = Some ''k'', dc_login = Some ''/tasks/auth/login'',
                dc_title = ''t''\<rparr>"

lemma stream_unguarded_witness:
  "tasks_fragment (\<lambda>k x. []) no_http ex_locked None 0 ex_page = (Inl (HttpError 401 ''Unauthorized''), ex_page)
   \<and> fst (snd (get_stream no_http ex_text ex_locked None ex_page)) = Yields (page_state ex_text True ex_page)"
proof -
  have c: "dc_secret ex_locked = Some ''k''" "dc_login ex_locked = Some ''/tasks/auth/login''" "dc_args ex_locked"
    by (simp_all add: ex_locked_def)
  have v: "\<not> verify_token (\<lambda>k x. []) ''k'' (case None of None \<Rightarrow> [] | Some c \<Rightarrow> c) 0"
    by code_simp
  have b: "tm_backend ex_page = None" by (simp add: ex_page_def)
  show ?thesis using stream_unguarded [OF c(1,2) v b] c(3) by simp
qed

end
