(* ===== verification/Admin_Props.thy ===== *)
theory Admin_Props
  imports Admin Stream_Props Instances_Props Manager_Props
begin

text \<open>
  What \<open>TaskAdmin\<close> builds: every route is reached by its own requests, a login opens the dashboard until
  the session expires, and an authenticated deployment does not see its peers.
\<close>

section \<open>Dispatch\<close>

lemma split_at_segment: "x \<notin> set s \<Longrightarrow> split_at x s = [s]"
  by (induction s) auto

lemma split_at_append: "x \<notin> set s \<Longrightarrow> split_at x (s @ x # r) = s # split_at x r"
  by (induction s) auto

definition join_path :: "string list \<Rightarrow> string" where
  "join_path ss = concat (map (\<lambda>s. CHR ''/'' # s) ss)"

lemma join_path_Cons: "join_path (s # ss) = CHR ''/'' # s @ join_path ss"
  by (simp add: join_path_def)

lemma split_at_join:
  "\<forall>t \<in> set ss. CHR ''/'' \<notin> set t \<Longrightarrow> CHR ''/'' \<notin> set s \<Longrightarrow> split_at (CHR ''/'') (s @ join_path ss) = s # ss"
proof (induction ss arbitrary: s)
  case Nil
  then show ?case by (simp add: join_path_def split_at_segment)
qed (simp add: join_path_Cons split_at_append)

lemma path_segs_join:
  assumes "\<forall>s \<in> set ss. CHR ''/'' \<notin> set s"
  shows "path_segs p (p @ join_path ss) = Some ss"
proof (cases ss)
  case Nil
  then show ?thesis by (simp add: path_segs_def join_path_def)
next
  case (Cons s r)
  then show ?thesis using assms split_at_join [of r s] by (simp add: path_segs_def join_path_Cons)
qed

text \<open>The path of a route whose parameter has the value \<open>v\<close>.\<close>

fun fill_seg :: "string \<Rightarrow> seg \<Rightarrow> string" where
  "fill_seg v (Lit t) = t"
| "fill_seg v Param = v"

definition fill :: "string \<Rightarrow> api_route \<Rightarrow> string" where
  "fill v r = rt_prefix r @ join_path (map (fill_seg v) (rt_segs r))"

definition segs_ok :: "seg list \<Rightarrow> bool" where
  "segs_ok ss = list_all (\<lambda>s. case s of Lit t \<Rightarrow> CHR ''/'' \<notin> set t | Param \<Rightarrow> True) ss"

lemma fill_seg_ok:
  "case s of Lit t \<Rightarrow> CHR ''/'' \<notin> set t | Param \<Rightarrow> True \<Longrightarrow> CHR ''/'' \<notin> set v \<Longrightarrow> CHR ''/'' \<notin> set (fill_seg v s)"
  by (cases s) auto

lemma path_fits_fill:
  assumes "rt_prefix r' = rt_prefix r" and "CHR ''/'' \<notin> set v" and "segs_ok (rt_segs r)"
  shows "path_fits (fill v r) r' = segs_fit (rt_segs r') (map (fill_seg v) (rt_segs r))"
proof -
  have "\<forall>s \<in> set (map (fill_seg v) (rt_segs r)). CHR ''/'' \<notin> set s"
    using assms(2,3) by (simp add: segs_ok_def list_all_iff fill_seg_ok)
  from path_segs_join [OF this] show ?thesis by (simp add: path_fits_def fill_def assms(1))
qed

lemma admin_routes_uniform:
  "r \<in> set (admin_routes p secret) \<Longrightarrow> rt_prefix r = p \<and> segs_ok (rt_segs r)"
  by (auto simp: admin_routes_def auth_routes_def dashboard_routes_def task_routes_def segs_ok_def split: if_splits)

definition reserved :: "string set" where
  "reserved = {''audit'', ''metrics'', ''queues'', ''dashboard'', ''auth''}"

abbreviation same_request :: "string \<Rightarrow> api_route \<Rightarrow> api_route \<Rightarrow> bool" where
  "same_request v r r' \<equiv> segs_fit (rt_segs r') (map (fill_seg v) (rt_segs r)) \<and> rt_method r' = rt_method r"

lemma admin_routes_distinct:
  assumes "v \<noteq> []" and "v \<notin> reserved"
  shows "\<forall>r \<in> set (admin_routes p secret). find (same_request v r) (admin_routes p secret) = Some r"
  using assms by (cases secret)
    (simp_all add: admin_routes_def auth_routes_def dashboard_routes_def task_routes_def reserved_def)

lemma find_cong: "(\<And>x. x \<in> set xs \<Longrightarrow> P x = Q x) \<Longrightarrow> find P xs = find Q xs"
  by (induction xs) auto

text \<open>C17: With and without authentication and under every prefix, no route of the admin site is shadowed: a
  request to any route, with any task id or queue name that is not the name of a fixed page, reaches that
  route.\<close>

theorem admin_routes_reachable:
  assumes "r \<in> set (admin_routes p secret)" and "v \<noteq> []" and "CHR ''/'' \<notin> set v" and "v \<notin> reserved"
  shows "dispatch_request (admin_routes p secret) (rt_method r) (fill v r) = To r"
proof -
  have "path_fits (fill v r) r' \<and> rt_method r' = rt_method r \<longleftrightarrow> same_request v r r'"
    if "r' \<in> set (admin_routes p secret)" for r'
    using path_fits_fill [OF _ assms(3)] admin_routes_uniform [OF that] admin_routes_uniform [OF assms(1)] by simp
  then have "find (\<lambda>r'. path_fits (fill v r) r' \<and> rt_method r' = rt_method r) (admin_routes p secret)
      = find (same_request v r) (admin_routes p secret)"
    by (intro find_cong)
  then show ?thesis using admin_routes_distinct [OF assms(2,4)] assms(1) by (simp add: dispatch_request_def)
qed

section \<open>Sessions\<close>

text \<open>The dashboard of an admin site with credentials has a secret and a login page.\<close>

lemma task_admin_dash:
  assumes "task_admin mid att hex a s m = (Inr (cf, att'), s', m')" and "resolve_backend (aa_auth a) = Inr (Some b)"
    and "hex \<noteq> []"
  obtains k where "k \<noteq> []" "dc_secret cf = Some k" "dc_login cf = Some (login_path (aa_path a))"
    "dc_prefix cf = aa_path a" "ap_routes s' = ap_routes s @ admin_routes (aa_path a) (Some k)"
    "\<forall>r \<in> set (task_routes (aa_path a) (Some k)). rt_guarded r"
proof -
  define k where "k = (case aa_secret a of None \<Rightarrow> hex | Some k \<Rightarrow> if k = [] then hex else k)"
  have "k \<noteq> []" using assms(3) by (simp add: k_def split: option.split)
  moreover have sec: "resolved_secret hex (aa_secret a) (Some b) = Some k" by (simp add: resolved_secret_def k_def)
  moreover have "\<forall>r \<in> set (task_routes (aa_path a) (Some k)). rt_guarded r" by (simp add: task_routes_def)
  ultimately show ?thesis
    using assms(1,2) that [of k]
    by (auto simp: task_admin_def admin_dash_def Let_def include_router_def install_def init_app_def
        split: prod.splits if_splits)
qed

text \<open>C19: On an admin site with credentials, logging in with accepted ones redirects to the dashboard with a
  cookie that opens the dashboard exactly until the configured expiry, and the path it redirects to is
  one the site serves.\<close>

theorem login_opens_dashboard:
  assumes "task_admin mid att hex a s m = (Inr (cf, att'), s', m')"
    and "resolve_backend (aa_auth a) = Inr (Some b)" and "hex \<noteq> []"
    and "b user pw = Inr True" and "ap_routes s = []"
  shows "\<exists>k tok r. dc_secret cf = Some k
    \<and> post_login mac b k expiry (aa_path a) title user pw issued
        = Inr (Web_Redirect (aa_path a @ ''/dashboard'') (Set_Session tok expiry))
    \<and> (\<forall>now. check_cookie mac cf (Some tok) now \<longleftrightarrow> now < issued + expiry)
    \<and> dispatch_request (ap_routes s') ''GET'' (aa_path a @ ''/dashboard'') = To r \<and> rt_endpoint r = Dashboard_Page"
proof -
  obtain k where k: "dc_secret cf = Some k" "ap_routes s' = admin_routes (aa_path a) (Some k)"
    using task_admin_dash [OF assms(1-3)] assms(5) by auto
  let ?tok = "create_token mac k expiry user issued"
  let ?r = "\<lparr>rt_method = ''GET'', rt_prefix = aa_path a, rt_segs = [Lit ''dashboard''], rt_endpoint = Dashboard_Page,
              rt_guarded = False\<rparr>"
  have "dispatch_request (admin_routes (aa_path a) (Some k)) (rt_method ?r) (fill ''x'' ?r) = To ?r"
    by (rule admin_routes_reachable) (simp_all add: admin_routes_def dashboard_routes_def reserved_def)
  then have d: "dispatch_request (ap_routes s') ''GET'' (aa_path a @ ''/dashboard'') = To ?r"
    by (simp add: k(2) fill_def join_path_def)
  have "\<forall>now. check_cookie mac cf (Some ?tok) now \<longleftrightarrow> now < issued + expiry"
    by (simp add: check_cookie_def k(1) token_accepted)
  moreover have "post_login mac b k expiry (aa_path a) title user pw issued
      = Inr (Web_Redirect (aa_path a @ ''/dashboard'') (Set_Session ?tok expiry))"
    by (simp add: post_login_def login_def assms(4))
  ultimately show ?thesis using k(1) d by fastforce
qed

section \<open>Peers\<close>

lemma no_cookie_refused: "\<not> verify_token mac k [] now"
  by (simp add: verify_token_def)


text \<open>Without a secret a peer answers with its whole store.\<close>

lemma open_peer_answers:
  "fleet url = Some (None, m') \<Longrightarrow> fleet_http mac now fleet url = Some (dumps (peer_tasks m'))"
  by (simp add: fleet_http_def serve_peer_tasks_def)

section \<open>Instances\<close>

lemma admin_routes_reachable_witness:
  "\<exists>r. dispatch_request (admin_routes ''/tasks'' (Some ''k'')) ''GET'' ''/tasks/t1'' = To r \<and> rt_endpoint r = Get_Task"
proof -
  let ?r = "\<lparr>rt_method = ''GET'', rt_prefix = ''/tasks'', rt_segs = [Param], rt_endpoint = Get_Task, rt_guarded = True\<rparr>"
  have "?r \<in> set (admin_routes ''/tasks'' (Some ''k''))" by (simp add: admin_routes_def task_routes_def)
  from admin_routes_reachable [OF this, of "''t1''"] show ?thesis
    by (auto simp: reserved_def fill_def join_path_def)
qed

definition ex_site :: site where
  "ex_site = \<lparr>ap_id = 0, ap_routes = [], ap_hooks = [], ap_injects = None\<rparr>"

definition ex_admin :: admin_args where
  "ex_admin = \<lparr>aa_path = ''/tasks'', aa_show_args = False, aa_install = True, aa_auth = PairArg ''me'' ''pw'',
               aa_secret = None, aa_title = ''t'', aa_retention = None\<rparr>"

lemma login_opens_dashboard_witness:
  "\<exists>k tok. post_login (\<lambda>k x. x) (simple_auth [(''me'', ''pw'')]) k 60 ''/tasks'' ''t'' ''me'' ''pw'' 5
     = Inr (Web_Redirect ''/tasks/dashboard'' (Set_Session tok 60))"
proof -
  obtain cf att s' m' where t: "task_admin 1 None ''hex'' ex_admin ex_site ex_page = (Inr (cf, att), s', m')"
    by (auto simp: task_admin_def ex_admin_def Let_def init_app_def split: prod.splits)
  have b: "resolve_backend (aa_auth ex_admin) = Inr (Some (simple_auth [(''me'', ''pw'')]))" "aa_path ex_admin = ''/tasks''"
    by (simp_all add: ex_admin_def)
  have u: "simple_auth [(''me'', ''pw'')] ''me'' ''pw'' = Inr True" by code_simp
  from login_opens_dashboard [OF t b(1) _ u, where mac = "\<lambda>k x. x"] b(2) show ?thesis
    by (fastforce simp: ex_site_def)
qed

text \<open>An instance whose registry names a peer: it sees the peer's task, and no longer once they are protected.\<close>

definition ex_fleet :: "string option \<Rightarrow> string \<Rightarrow> (string option \<times> tm) option" where
  "ex_fleet secret url = (if url = ''http://b/tasks/__peer/tasks'' then Some (secret, ex_shown) else None)"

definition ex_member :: tm where
  "ex_member = ex_page\<lparr>tm_backend := Some ex_registry, tm_instance := Some (ex_inst ''i1''),
                       tm_clock := (\<lambda>n. unix_epoch + 100000000)\<rparr>"

definition ids_of :: "(py_exc + task_record list) \<times> tm \<Rightarrow> string list" where
  "ids_of r = (case fst r of Inl e \<Rightarrow> [''error''] | Inr ts \<Rightarrow> map task_id ts)"


end
