(* ===== verification/Signals.thy ===== *)
theory Signals
  imports Prelude
begin

text \<open>
  \<open>_install_signal_handlers\<close>, the handler it installs and \<open>_restore_signal_handlers\<close> of
  \<^verbatim>\<open>src/fastapi_taskflow/manager.py\<close>, for any number of managers in one process. The table of
  handlers belongs to the process; each manager keeps what it found there. A handler reads the saved
  value when the signal comes, so the two handlers an installation made twice would create behave alike
  and \<open>Ours i\<close> stands for either. \<open>signal.signal\<close> raises outside the main thread, and scheduling on a
  closed loop raises; both are caught.
\<close>

datatype signum = SIGINT | SIGTERM

text \<open>\<open>Native\<close> is a handler that was not installed from Python, for which \<open>getsignal\<close> returns none.\<close>

datatype handler = Sig_Default | Sig_Ignore | Native | Foreign string | Ours nat

record process =
  pr_table :: "signum \<Rightarrow> handler"
  pr_prev :: "nat \<Rightarrow> signum \<Rightarrow> handler option"
  pr_main_thread :: bool
  pr_loop_closed :: "nat \<Rightarrow> bool"

definition getsignal :: "process \<Rightarrow> signum \<Rightarrow> handler option" where
  "getsignal p s = (if pr_table p s = Native then None else Some (pr_table p s))"

definition install_signals :: "nat \<Rightarrow> process \<Rightarrow> process" where
  "install_signals i p =
     (let p1 = p\<lparr>pr_prev := (pr_prev p)(i := getsignal p)\<rparr>
      in if pr_main_thread p1 then p1\<lparr>pr_table := (\<lambda>s. Ours i)\<rparr> else p1)"

definition restore_signals :: "nat \<Rightarrow> process \<Rightarrow> process" where
  "restore_signals i p =
     (if pr_main_thread p
      then p\<lparr>pr_table := (\<lambda>s. case pr_prev p i s of None \<Rightarrow> pr_table p s | Some h \<Rightarrow> h)\<rparr>
      else p)"

datatype effect = Notify nat | Call string | Default_Action | Native_Action

definition callable :: "handler option \<Rightarrow> handler option" where
  "callable h = (case h of Some (Foreign f) \<Rightarrow> h | Some (Ours i) \<Rightarrow> h | _ \<Rightarrow> None)"

text \<open>What a signal does. The handler of a manager calls the one it found; the depth is bounded by fuel.\<close>

fun deliver :: "nat \<Rightarrow> process \<Rightarrow> signum \<Rightarrow> handler \<Rightarrow> effect list option" where
  "deliver n p s Sig_Default = Some [Default_Action]"
| "deliver n p s Sig_Ignore = Some []"
| "deliver n p s Native = Some [Native_Action]"
| "deliver n p s (Foreign f) = Some [Call f]"
| "deliver 0 p s (Ours i) = None"
| "deliver (Suc n) p s (Ours i) =
     (let here = (if pr_loop_closed p i then [] else [Notify i])
      in case callable (pr_prev p i s) of
           None \<Rightarrow> Some here | Some h \<Rightarrow> map_option (\<lambda>es. here @ es) (deliver n p s h))"

definition raise_signal :: "nat \<Rightarrow> process \<Rightarrow> signum \<Rightarrow> effect list option" where
  "raise_signal n p s = deliver n p s (pr_table p s)"

lemmas signal_defs = install_signals_def restore_signals_def getsignal_def callable_def raise_signal_def

section \<open>Restoring\<close>

text \<open>Stopping a manager gives back the handlers it found, unless they were not Python's.\<close>

lemma signals_restored:
  "pr_table (restore_signals i (install_signals i p)) s =
     (if pr_table p s = Native \<and> pr_main_thread p then Ours i else pr_table p s)"
  by (simp add: signal_defs Let_def)

text \<open>
  The hooks of two managers on one application run in the order they were added, at shutdown as well:
  the second restores the handler of the first, which has already stopped.
\<close>

lemma signals_left_behind:
  assumes "pr_main_thread p" and "i \<noteq> j"
  shows "pr_table (restore_signals j (restore_signals i (install_signals j (install_signals i p)))) s = Ours i"
  using assms by (simp add: signal_defs Let_def)

section \<open>Delivery\<close>

text \<open>Handlers of the managers \<open>is\<close>, installed one after the other.\<close>

definition install_all :: "nat list \<Rightarrow> process \<Rightarrow> process" where
  "install_all is p = fold install_signals is p"

lemma install_all_snoc: "install_all (is @ [i]) p = install_signals i (install_all is p)"
  by (simp add: install_all_def)

lemma install_all_keeps [simp]:
  "pr_main_thread (install_all is p) = pr_main_thread p"
  "pr_loop_closed (install_all is p) = pr_loop_closed p"
  by (induction "is" arbitrary: p) (simp_all add: install_all_def install_signals_def Let_def)

lemma install_all_prev: "i \<notin> set is \<Longrightarrow> pr_prev (install_all is p) i = pr_prev p i"
  by (induction "is" rule: rev_induct) (simp_all add: install_all_snoc install_signals_def Let_def, simp add: install_all_def)

lemma deliver_install_other:
  assumes "i \<notin> set is" and "\<forall>j \<in> set is. \<forall>h k. pr_prev p j s = Some h \<longrightarrow> h = Ours k \<longrightarrow> k \<in> set is"
    and "\<forall>k. h = Ours k \<longrightarrow> k \<in> set is"
  shows "deliver n (install_signals i p) s h = deliver n p s h"
  using assms
proof (induction n p s h rule: deliver.induct)
  case (6 n p s j)
  have prev: "pr_prev (install_signals i p) j s = pr_prev p j s"
    using 6(2,4) by (auto simp: install_signals_def Let_def)
  have closed: "pr_loop_closed (install_signals i p) = pr_loop_closed p"
    by (simp add: install_signals_def Let_def)
  show ?case
  proof (cases "callable (pr_prev p j s)")
    case (Some h)
    then have "pr_prev p j s = Some h"
      by (auto simp: callable_def split: option.splits handler.splits)
    then show ?thesis using 6 Some by (simp add: prev closed Let_def)
  qed (simp add: prev closed)
qed simp_all

lemma install_all_table:
  "pr_main_thread p \<Longrightarrow> pr_table (install_all is p) s = (if is = [] then pr_table p s else Ours (last is))"
  by (induction "is" rule: rev_induct) (simp_all add: install_all_snoc install_signals_def Let_def, simp add: install_all_def)

lemma install_all_closed_chain:
  assumes "pr_main_thread p" and "\<forall>k. pr_table p s \<noteq> Ours k" and "distinct is" and "j \<in> set is"
    and "pr_prev (install_all is p) j s = Some (Ours k)"
  shows "k \<in> set is"
  using assms(3-5)
proof (induction "is" rule: rev_induct)
  case (snoc i "is")
  show ?case
  proof (cases "j = i")
    case True
    then have "getsignal (install_all is p) s = Some (Ours k)"
      using snoc.prems assms(1) by (simp add: install_all_snoc install_signals_def Let_def)
    then show ?thesis using assms(1,2) by (auto simp: getsignal_def install_all_table split: if_splits)
  next
    case False
    then show ?thesis using snoc assms(1) by (simp add: install_all_snoc install_signals_def Let_def)
  qed
qed simp

definition found_effect :: "handler \<Rightarrow> effect list" where
  "found_effect h = (case h of Foreign f \<Rightarrow> [Call f] | _ \<Rightarrow> [])"

text \<open>C24: A signal reaches every manager: whatever distinct managers have installed their handlers, it tells
  each of them once, the last to start first, then calls the handler that was there before, and ends. A
  default action that was there before is not taken any more.\<close>

theorem signal_chain:
  assumes "pr_main_thread p" and "\<forall>k. pr_table p s \<noteq> Ours k" and "distinct is" and "is \<noteq> []"
    and "n \<ge> length is"
  shows "raise_signal n (install_all is p) s
    = Some (map Notify (filter (\<lambda>i. \<not> pr_loop_closed p i) (rev is)) @ found_effect (pr_table p s))"
  using assms(3-5)
proof (induction "is" arbitrary: n rule: rev_induct)
  case (snoc i "is")
  let ?q = "install_all is p"
  obtain m where n: "n = Suc m" "m \<ge> length is" using snoc.prems by (cases n) auto
  have "deliver n (install_signals i ?q) s (Ours i)
    = Some (map Notify (filter (\<lambda>i. \<not> pr_loop_closed p i) (rev (is @ [i]))) @ found_effect (pr_table p s))"
  proof (cases "is = []")
    case True
    then show ?thesis
      using assms(2) by (auto simp: n install_all_def install_signals_def getsignal_def callable_def found_effect_def
          Let_def split: handler.splits)
  next
    case False
    have prev: "pr_prev (install_signals i ?q) i s = Some (Ours (last is))"
      "pr_loop_closed (install_signals i ?q) = pr_loop_closed p"
      using False assms(1) by (simp_all add: install_signals_def getsignal_def install_all_table Let_def)
    have "deliver m (install_signals i ?q) s (Ours (last is)) = deliver m ?q s (Ours (last is))"
      using False snoc.prems install_all_closed_chain [OF assms(1,2)] by (intro deliver_install_other) auto
    also have "\<dots> = Some (map Notify (filter (\<lambda>i. \<not> pr_loop_closed p i) (rev is)) @ found_effect (pr_table p s))"
      using snoc.IH [of m] snoc.prems False n(2) by (simp add: raise_signal_def install_all_table assms(1))
    finally show ?thesis by (simp add: n prev callable_def)
  qed
  then show ?case by (simp add: raise_signal_def install_all_snoc install_signals_def assms(1) Let_def)
qed simp

text \<open>A manager that starts twice finds its own handler: no depth is enough for the next signal.\<close>

lemma double_install_never_ends:
  assumes "pr_main_thread p"
  shows "raise_signal n (install_signals i (install_signals i p)) s = None"
proof -
  let ?q = "install_signals i (install_signals i p)"
  have prev: "pr_prev ?q i s = Some (Ours i)" and tab: "pr_table ?q s = Ours i"
    using assms by (simp_all add: install_signals_def getsignal_def Let_def)
  have "deliver n ?q s (Ours i) = None"
    by (induction n) (simp_all add: prev callable_def Let_def)
  then show ?thesis by (simp add: raise_signal_def tab)
qed

definition ex_process :: process where
  "ex_process = \<lparr>pr_table = (\<lambda>s. if s = SIGTERM then Sig_Default else Foreign ''uvicorn''),
                 pr_prev = (\<lambda>i s. None), pr_main_thread = True, pr_loop_closed = (\<lambda>i. False)\<rparr>"

lemma signal_chain_witness:
  "raise_signal 2 (install_all [1, 2] ex_process) SIGINT = Some [Notify 2, Notify 1, Call ''uvicorn'']
   \<and> raise_signal 2 (install_all [1, 2] ex_process) SIGTERM = Some [Notify 2, Notify 1]"
  using signal_chain [of ex_process SIGINT "[1, 2]" 2] signal_chain [of ex_process SIGTERM "[1, 2]" 2]
  by (simp add: ex_process_def found_effect_def)

end
