(* ===== verification/Log_Files.thy ===== *)
theory Log_Files
  imports Execution
begin

text \<open>
  \<^verbatim>\<open>loggers/file.py\<close> and \<^verbatim>\<open>file_logger.py\<close> on the process-wide table of the \<open>logging\<close> module: a logger
  is found by its name, which is made from the path, and its handlers belong to it and not to the
  instance that attached them. A handler appends lines to its file; where a rotation puts old lines is
  not modelled, so a file is all the lines ever written to it. Also the start and the end of a
  \<open>LoggerChain\<close>, the printer of \<^verbatim>\<open>loggers/stdout.py\<close> and the recorder of \<^verbatim>\<open>loggers/memory.py\<close>.
\<close>

record log_world =
  lw_handlers :: "(string, string list) dict"   \<comment> \<open>logger name to the paths of its handlers\<close>
  lw_files :: "(string, string list) dict"

record file_logger =
  fl_path :: string
  fl_lifecycle :: bool
  fl_min_level :: nat

definition logger_name :: "string \<Rightarrow> string" where
  "logger_name path = ''fastapi_taskflow.file_logger.'' @ path"

definition handlers_of :: "string \<Rightarrow> log_world \<Rightarrow> string list" where
  "handlers_of path w = (case dget (lw_handlers w) (logger_name path) of None \<Rightarrow> [] | Some hs \<Rightarrow> hs)"

definition lines_of :: "log_world \<Rightarrow> string \<Rightarrow> string list" where
  "lines_of w path = (case dget (lw_files w) path of None \<Rightarrow> [] | Some ls \<Rightarrow> ls)"

text \<open>The constructor attaches a handler when the logger has none; opening creates the file.\<close>

definition attach_handler :: "string \<Rightarrow> log_world \<Rightarrow> log_world" where
  "attach_handler path w =
     (if handlers_of path w \<noteq> [] then w
      else w\<lparr>lw_handlers := dset (logger_name path) [path] (lw_handlers w),
             lw_files := dset path (lines_of w path) (lw_files w)\<rparr>)"

definition new_file_logger :: "string \<Rightarrow> bool \<Rightarrow> string \<Rightarrow> log_world \<Rightarrow> file_logger \<times> log_world" where
  "new_file_logger path life min_level w =
     (\<lparr>fl_path = path, fl_lifecycle = life, fl_min_level = level_weight min_level\<rparr>, attach_handler path w)"

definition append_line :: "string \<Rightarrow> string \<Rightarrow> log_world \<Rightarrow> log_world" where
  "append_line line path w = w\<lparr>lw_files := dset path (lines_of w path @ [line]) (lw_files w)\<rparr>"

text \<open>\<open>self._logger.info(...)\<close>: every handler of the logger; without one the line is below the level of
  the handler of last resort and is lost.\<close>

definition log_info :: "string \<Rightarrow> string \<Rightarrow> log_world \<Rightarrow> log_world" where
  "log_info path line w = fold (append_line line) (handlers_of path w) w"

definition file_on_log :: "log_event \<Rightarrow> file_logger \<Rightarrow> log_world \<Rightarrow> log_world" where
  "file_on_log e l w =
     (if level_weight (le_level e) \<ge> fl_min_level l
      then log_info (fl_path l) (line_prefix (le_task_id e) (le_func_name e) @ le_message e) w else w)"

text \<open>\<open>strftime('%Y-%m-%dT%H:%M:%S')\<close>.\<close>

definition second_text :: "datetime \<Rightarrow> string" where
  "second_text d = butlast (strftime_utc d)"

definition file_on_lifecycle :: "lifecycle_event \<Rightarrow> file_logger \<Rightarrow> log_world \<Rightarrow> log_world" where
  "file_on_lifecycle e l w =
     (if fl_lifecycle l \<and> level_weight (status_level (ev_status e)) \<ge> fl_min_level l
      then log_info (fl_path l)
             (line_prefix (ev_task_id e) (ev_func_name e) @ second_text (ev_timestamp e) @ '' -- ''
              @ upper (status_value (ev_status e))) w
      else w)"

definition file_close :: "file_logger \<Rightarrow> log_world \<Rightarrow> log_world" where
  "file_close l w =
     (if handlers_of (fl_path l) w = [] then w
      else w\<lparr>lw_handlers := dset (logger_name (fl_path l)) [] (lw_handlers w)\<rparr>)"

section \<open>The older writer\<close>

text \<open>\<open>TaskFileLogger\<close> uses the same names, so it shares handlers with \<open>FileLogger\<close>.\<close>

definition new_task_file_logger :: "string \<Rightarrow> bool \<Rightarrow> log_world \<Rightarrow> file_logger \<times> log_world" where
  "new_task_file_logger path life w =
     (\<lparr>fl_path = path, fl_lifecycle = life, fl_min_level = 0\<rparr>, attach_handler path w)"

definition tf_write :: "string \<Rightarrow> string \<Rightarrow> string \<Rightarrow> file_logger \<Rightarrow> log_world \<Rightarrow> log_world" where
  "tf_write tid fn msg l w = log_info (fl_path l) (line_prefix tid fn @ msg) w"

definition tf_lifecycle :: "datetime \<Rightarrow> string \<Rightarrow> string \<Rightarrow> string \<Rightarrow> file_logger \<Rightarrow> log_world \<Rightarrow> log_world" where
  "tf_lifecycle now tid fn event l w =
     (if fl_lifecycle l then log_info (fl_path l) (line_prefix tid fn @ second_text now @ '' -- '' @ event) w else w)"

definition tf_close :: "file_logger \<Rightarrow> log_world \<Rightarrow> log_world" where
  "tf_close = file_close"

section \<open>Standard output\<close>

text \<open>\<open>StdoutLogger\<close> prints; the observer is the one of the logger model, the list what was printed.\<close>

definition stdout_on_log :: "log_event \<Rightarrow> observer \<Rightarrow> string list \<Rightarrow> string list" where
  "stdout_on_log e ob printed =
     (if should_log ob (le_level e)
      then printed @ [line_prefix (le_task_id e) (le_func_name e) @ second_text (le_timestamp e) @ '' ''
                      @ le_message e]
      else printed)"

definition stdout_on_lifecycle :: "lifecycle_event \<Rightarrow> bool \<Rightarrow> observer \<Rightarrow> string list \<Rightarrow> string list" where
  "stdout_on_lifecycle e life ob printed =
     (if life \<and> should_log_lifecycle ob e
      then printed @ [line_prefix (ev_task_id e) (ev_func_name e) @ second_text (ev_timestamp e) @ '' -- ''
                      @ upper (status_value (ev_status e))]
      else printed)"

text \<open>It prints a line exactly when the observer of the logger model notes one.\<close>

lemma stdout_prints_what_is_noted:
  "ob_kind ob = StdoutObs life \<Longrightarrow> on_log e ob = Inr ob' \<Longrightarrow>
   length (stdout_on_log e ob []) + length (ob_out ob) = length (ob_out ob')"
  "ob_kind ob = StdoutObs life \<Longrightarrow> on_lifecycle ev ob = Inr ob' \<Longrightarrow>
   length (stdout_on_lifecycle ev life ob []) + length (ob_out ob) = length (ob_out ob')"
  by (auto simp: stdout_on_log_def stdout_on_lifecycle_def on_log_def on_lifecycle_def emit_def split: if_splits)

section \<open>Chain and recorder\<close>

text \<open>\<open>startup\<close> and \<open>close\<close> of the chain: each observer in order, an error of one is logged.\<close>

definition chain_each :: "('o \<Rightarrow> 'w \<Rightarrow> py_exc + 'w) \<Rightarrow> 'o list \<Rightarrow> 'w \<Rightarrow> 'w" where
  "chain_each f obs w = fold (\<lambda>b w. case f b w of Inl _ \<Rightarrow> w | Inr w' \<Rightarrow> w') obs w"

definition chain_startup :: "('o \<Rightarrow> 'w \<Rightarrow> py_exc + 'w) \<Rightarrow> 'o list \<Rightarrow> 'w \<Rightarrow> 'w" where
  "chain_startup = chain_each"

definition chain_close :: "('o \<Rightarrow> 'w \<Rightarrow> py_exc + 'w) \<Rightarrow> 'o list \<Rightarrow> 'w \<Rightarrow> 'w" where
  "chain_close = chain_each"

definition memory_clear :: "observer \<Rightarrow> observer" where
  "memory_clear ob = ob\<lparr>ob_out := []\<rparr>"

section \<open>What is written\<close>

lemma logger_name_inj [simp]: "logger_name a = logger_name b \<longleftrightarrow> a = b"
  by (simp add: logger_name_def)

definition log_wf :: "log_world \<Rightarrow> bool" where
  "log_wf w \<longleftrightarrow> (\<forall>path. handlers_of path w \<in> {[], [path]})"

lemma log_wf_empty: "log_wf \<lparr>lw_handlers = [], lw_files = []\<rparr>"
  by (simp add: log_wf_def handlers_of_def)

lemma handlers_attach: "handlers_of q (attach_handler path w) =
    (if q = path \<and> handlers_of path w = [] then [path] else handlers_of q w)"
  by (simp add: attach_handler_def handlers_of_def split: option.split)

lemma handlers_close: "handlers_of q (file_close l w) = (if q = fl_path l then [] else handlers_of q w)"
  by (simp add: file_close_def handlers_of_def)

lemma fold_append_handlers [simp]: "lw_handlers (fold (append_line x) hs w) = lw_handlers w"
  by (induction hs arbitrary: w) (simp_all add: append_line_def)

lemma handlers_log [simp]: "handlers_of q (log_info path x w) = handlers_of q w"
  by (simp add: handlers_of_def log_info_def)

lemma lines_attach [simp]: "lines_of (attach_handler path w) q = lines_of w q"
  by (simp add: attach_handler_def lines_of_def split: option.split)

lemma lines_close [simp]: "lines_of (file_close l w) q = lines_of w q"
  by (simp add: file_close_def lines_of_def)

lemma lines_log:
  "log_wf w \<Longrightarrow> lines_of (log_info path x w) q = lines_of w q @ (if q = path \<and> handlers_of path w \<noteq> [] then [x] else [])"
  by (auto simp: log_wf_def log_info_def append_line_def lines_of_def dest!: spec [of _ path] split: option.split)

text \<open>What any number of file loggers of both kinds do to the process.\<close>

datatype file_act = Attach string | Write file_logger string | Close file_logger

fun do_file_act :: "file_act \<Rightarrow> log_world \<Rightarrow> log_world" where
  "do_file_act (Attach path) w = attach_handler path w"
| "do_file_act (Write l x) w = log_info (fl_path l) x w"
| "do_file_act (Close l) w = file_close l w"

lemma log_wf_act: "log_wf w \<Longrightarrow> log_wf (do_file_act a w)"
  by (cases a) (auto simp: log_wf_def handlers_attach handlers_close)

fun written :: "string \<Rightarrow> file_act list \<Rightarrow> bool \<Rightarrow> string list" where
  "written q [] attached = []"
| "written q (Attach path # as) attached = written q as (attached \<or> path = q)"
| "written q (Write l x # as) attached = (if attached \<and> fl_path l = q then [x] else []) @ written q as attached"
| "written q (Close l # as) attached = written q as (attached \<and> fl_path l \<noteq> q)"



text \<open>Two loggers on one open path share its handler and each writes: an event both get is there twice.\<close>

lemma same_path_twice:
  assumes "log_wf w" and "handlers_of (fl_path l1) w \<noteq> []" and "fl_path l2 = fl_path l1"
    and "fl_min_level l1 \<le> level_weight (le_level e)" and "fl_min_level l2 \<le> level_weight (le_level e)"
  shows "\<exists>x. lines_of (file_on_log e l2 (file_on_log e l1 w)) (fl_path l1) = lines_of w (fl_path l1) @ [x, x]"
proof -
  have "log_wf (log_info p x w)" for p x using assms(1) by (simp add: log_wf_def)
  then show ?thesis using assms by (simp add: file_on_log_def lines_log)
qed

end
