(* ===== verification/Task_Context.thy ===== *)
theory Task_Context
  imports Executors
begin

text \<open>
  \<^verbatim>\<open>task_logging.py\<close>: the two context variables a task function reads through \<open>task_log\<close> and
  \<open>get_task_context\<close>, and the places that set them: \<open>_build_exec_ctx\<close> and the legacy branch of
  \<open>_dispatch_endpoint\<close> (\<^verbatim>\<open>executor.py\<close>), the compatibility wrapper of \<open>AsyncExecutor\<close> and the
  worker of the process executor. A context is a value of \<open>contextvars\<close>: a task of the event loop
  and a thread run in a context they are given, a worker process keeps one for its life. The last
  part is the semaphore of \<open>AsyncExecutor\<close>.
\<close>

section \<open>Context variables\<close>

text \<open>The sinks a task may find: the one of the current attempt, the list a worker collects in, and the
  function that drops everything.\<close>

datatype sink = Attempt_Sink | Worker_Sink | Null_Sink

record task_context =
  tx_task_id :: string
  tx_func_name :: string
  tx_attempt :: int
  tx_tags :: "(string, string) dict"

record context_vars =
  cv_sink :: "sink option"
  cv_task :: "task_context option"
  cv_other :: "(string, string) dict"   \<comment> \<open>every other variable, a trace identifier for example\<close>

definition get_task_context :: "context_vars \<Rightarrow> task_context option" where
  "get_task_context cv = cv_task cv"

text \<open>\<open>ContextVar.set\<close> returns a token for the value it replaces; \<open>reset\<close> takes the token.\<close>

definition set_sink :: "sink option \<Rightarrow> context_vars \<Rightarrow> sink option \<times> context_vars" where
  "set_sink s cv = (cv_sink cv, cv\<lparr>cv_sink := s\<rparr>)"

definition reset_sink :: "sink option \<Rightarrow> context_vars \<Rightarrow> context_vars" where
  "reset_sink token cv = cv\<lparr>cv_sink := token\<rparr>"

definition set_context :: "task_context option \<Rightarrow> context_vars \<Rightarrow> task_context option \<times> context_vars" where
  "set_context tx cv = (cv_task cv, cv\<lparr>cv_task := tx\<rparr>)"

definition reset_context :: "task_context option \<Rightarrow> context_vars \<Rightarrow> context_vars" where
  "reset_context token cv = cv\<lparr>cv_task := token\<rparr>"

text \<open>\<open>str.lower\<close> of an ASCII text, and the levels of the standard library.\<close>

definition lower :: "string \<Rightarrow> string" where
  "lower s = map (\<lambda>c. if CHR ''A'' \<le> c \<and> c \<le> CHR ''Z'' then char_of ((of_char c :: nat) + 32) else c) s"

definition level_map :: "(string, nat) dict" where
  "level_map = [(''debug'', 10), (''info'', 20), (''warning'', 30), (''error'', 40)]"

definition fallback_level :: "string \<Rightarrow> nat" where
  "fallback_level l = (case dget level_map (lower l) of None \<Rightarrow> 20 | Some n \<Rightarrow> n)"

text \<open>What a task function does with the context, and what comes of it.\<close>

datatype act = Log log_call | Get_Context | Get_Var string | Set_Var string string

datatype seen =
    Logged sink log_call
  | Fallback nat string
  | Saw "task_context option"
  | Var "string option"

definition task_log :: "log_call \<Rightarrow> context_vars \<Rightarrow> seen" where
  "task_log l cv =
     (case cv_sink cv of
        None \<Rightarrow> Fallback (fallback_level (lc_level l)) (lc_message l)
      | Some s \<Rightarrow> Logged s l)"

text \<open>The function up to where it returns or raises.\<close>

fun run_acts :: "act list \<Rightarrow> context_vars \<Rightarrow> seen list \<times> context_vars" where
  "run_acts [] cv = ([], cv)"
| "run_acts (Log l # as) cv = (let (xs, cv') = run_acts as cv in (task_log l cv # xs, cv'))"
| "run_acts (Get_Context # as) cv =
     (let (xs, cv') = run_acts as cv in (Saw (get_task_context cv) # xs, cv'))"
| "run_acts (Get_Var x # as) cv =
     (let (xs, cv') = run_acts as cv in (Var (dget (cv_other cv) x) # xs, cv'))"
| "run_acts (Set_Var x v # as) cv = run_acts as (cv\<lparr>cv_other := dset x v (cv_other cv)\<rparr>)"

section \<open>Where the variables are set\<close>

text \<open>\<open>TaskExecutionContext\<close> and its form for the worker.\<close>

record exec_context =
  xc_task_id :: string
  xc_func_name :: string
  xc_attempt :: int
  xc_tags :: "(string, string) dict"

definition xc_to_dict :: "exec_context \<Rightarrow> (string, pyval) dict" where
  "xc_to_dict x =
     [(''task_id'', VStr (xc_task_id x)),
      (''func_name'', VStr (xc_func_name x)),
      (''attempt'', VInt (xc_attempt x)),
      (''tags'', VDict (map (\<lambda>(k, v). (k, VStr v)) (xc_tags x)))]"

definition xc_from_dict :: "(string, pyval) dict \<Rightarrow> py_exc + exec_context" where
  "xc_from_dict d =
     bindr (bindr (item d ''task_id'') as_str) (\<lambda>tid.
     bindr (bindr (item d ''func_name'') as_str) (\<lambda>fn.
     bindr (bindr (item d ''attempt'') as_int) (\<lambda>n.
     bindr (get_or as_tags [] d ''tags'') (\<lambda>tg.
     Inr \<lparr>xc_task_id = tid, xc_func_name = fn, xc_attempt = n, xc_tags = tg\<rparr>))))"

definition context_of :: "exec_context \<Rightarrow> task_context" where
  "context_of x =
     \<lparr>tx_task_id = xc_task_id x, tx_func_name = xc_func_name x, tx_attempt = xc_attempt x,
      tx_tags = xc_tags x\<rparr>"

text \<open>The \<open>TaskContext\<close> the worker builds from the dictionary of the payload.\<close>

definition worker_context :: "(string, pyval) dict \<Rightarrow> py_exc + task_context" where
  "worker_context d =
     bindr (bindr (item d ''task_id'') as_str) (\<lambda>tid.
     bindr (bindr (item d ''func_name'') as_str) (\<lambda>fn.
     bindr (bindr (item d ''attempt'') as_int) (\<lambda>n.
     bindr (get_or as_tags [] d ''tags'') (\<lambda>tg.
     Inr \<lparr>tx_task_id = tid, tx_func_name = fn, tx_attempt = n, tx_tags = tg\<rparr>))))"

text \<open>\<open>_build_exec_ctx\<close>: the setup runs inside the captured context, so the values stay in it too;
  without one it runs inside a copy of the current context.\<close>

definition build_exec_ctx ::
  "context_vars option \<Rightarrow> context_vars \<Rightarrow> sink \<Rightarrow> task_context
   \<Rightarrow> context_vars \<times> context_vars option" where
  "build_exec_ctx captured current s tx =
     (let base = (case captured of Some c \<Rightarrow> c | None \<Rightarrow> current);
          cv = snd (set_context (Some tx) (snd (set_sink (Some s) base)))
      in (cv, map_option (\<lambda>_. cv) captured))"

text \<open>The two \<open>set\<close>, the function, the two \<open>reset\<close> of a \<open>finally\<close>.\<close>

definition run_scoped ::
  "sink option \<Rightarrow> task_context \<Rightarrow> act list \<Rightarrow> context_vars \<Rightarrow> seen list \<times> context_vars" where
  "run_scoped s tx as cv =
     (let (t1, cv1) = set_sink s cv;
          (t2, cv2) = set_context (Some tx) cv1;
          (xs, cv3) = run_acts as cv2
      in (xs, reset_context t2 (reset_sink t1 cv3)))"

text \<open>The worker. A coroutine function runs in the copy of the context that \<open>asyncio.run\<close> makes.\<close>

definition worker_run ::
  "(string, pyval) dict \<Rightarrow> bool \<Rightarrow> act list \<Rightarrow> context_vars \<Rightarrow> (py_exc + seen list) \<times> context_vars" where
  "worker_run d coro as cv =
     (case worker_context d of
        Inl e \<Rightarrow> (Inl e, cv)
      | Inr tx \<Rightarrow>
          if coro
          then (let (t1, cv1) = set_sink (Some Worker_Sink) cv;
                    (t2, cv2) = set_context (Some tx) cv1;
                    xs = fst (run_acts as cv2)
                in (Inr xs, reset_context t2 (reset_sink t1 cv2)))
          else (let (xs, cv') = run_scoped (Some Worker_Sink) tx as cv in (Inr xs, cv')))"

text \<open>The parent replays the collected lines through the sink of the attempt.\<close>

definition replay :: "sink \<Rightarrow> seen \<Rightarrow> seen" where
  "replay s x = (case x of Logged Worker_Sink l \<Rightarrow> Logged s l | _ \<Rightarrow> x)"

text \<open>\<open>exec_ctx.run(func, ...)\<close> on a thread of the pool.\<close>

definition thread_run :: "act list \<Rightarrow> context_vars \<Rightarrow> seen list" where
  "thread_run as cv = fst (run_acts as cv)"

text \<open>
  One attempt of \<open>_dispatch_endpoint\<close>: what the function sees and logs, and the context of the worker
  afterwards. \<open>py311\<close> says whether \<open>create_task\<close> takes a context; no executor is the legacy branch,
  which hands the optional sink on as it is before Python 3.11.
\<close>

definition attempt_context ::
  "bool \<Rightarrow> exec_kind option \<Rightarrow> bool \<Rightarrow> sink option \<Rightarrow> context_vars option \<Rightarrow> context_vars
   \<Rightarrow> context_vars \<Rightarrow> exec_context \<Rightarrow> act list \<Rightarrow> (py_exc + seen list) \<times> context_vars" where
  "attempt_context py311 ek coro ctx_sink captured current worker x as =
     (let s = (case ctx_sink of Some s \<Rightarrow> s | None \<Rightarrow> Null_Sink);
          tx = context_of x;
          cv = fst (build_exec_ctx captured current s tx)
      in case ek of
           Some EAsync \<Rightarrow>
             (Inr (fst (if py311 then run_acts as cv else run_scoped (Some s) tx as current)), worker)
         | Some EThread \<Rightarrow> (Inr (thread_run as cv), worker)
         | Some EProcess \<Rightarrow>
             (let (r, worker') = worker_run (xc_to_dict x) coro as worker
              in (map_sum id (map (replay s)) r, worker'))
         | None \<Rightarrow>
             if coro \<and> \<not> py311 then (Inr (fst (run_scoped ctx_sink tx as current)), worker)
             else (Inr (fst (run_acts as cv)), worker))"

text \<open>The checks the two local executors make at decoration time; they accept any arguments.\<close>

definition async_validate :: "pyfunc \<Rightarrow> py_exc + unit" where
  "async_validate f = (if \<not> fn_coro f then Inl (ValueError (fn_name f)) else Inr ())"

definition thread_validate :: "pyfunc \<Rightarrow> py_exc + unit" where
  "thread_validate f = (if fn_coro f then Inl (ValueError (fn_name f)) else Inr ())"

lemma local_validate:
  "validate pk EAsync f = async_validate f" "validate pk EThread f = thread_validate f"
  by (simp_all add: async_validate_def thread_validate_def)

text \<open>A function without an explicit executor always passes the check of the one it gets.\<close>

lemma resolved_validates: "tc_executor c = None \<Longrightarrow> validate pk (resolve_executor f c) f = Inr ()"
  by (simp add: resolve_executor_def)

section \<open>What a task sees\<close>

definition logs_at :: "sink \<Rightarrow> seen list \<Rightarrow> log_call list" where
  "logs_at s xs = concat (map (\<lambda>x. case x of Logged s' l \<Rightarrow> if s' = s then [l] else [] | _ \<Rightarrow> []) xs)"

definition contexts :: "seen list \<Rightarrow> task_context option list" where
  "contexts xs = concat (map (\<lambda>x. case x of Saw c \<Rightarrow> [c] | _ \<Rightarrow> []) xs)"

definition logged :: "act list \<Rightarrow> log_call list" where
  "logged as = concat (map (\<lambda>a. case a of Log l \<Rightarrow> [l] | _ \<Rightarrow> []) as)"

definition asked :: "act list \<Rightarrow> nat" where
  "asked as = length (filter (\<lambda>a. a = Get_Context) as)"

lemmas var_ops = set_sink_def reset_sink_def set_context_def reset_context_def
lemmas seen_of = logs_at_def contexts_def logged_def asked_def

lemma run_acts_keeps [simp]:
  "cv_sink (snd (run_acts as cv)) = cv_sink cv" "cv_task (snd (run_acts as cv)) = cv_task cv"
  by (induction as cv rule: run_acts.induct) (simp_all add: case_prod_beta)

lemma run_acts_logs: "cv_sink cv = Some s \<Longrightarrow> logs_at s (fst (run_acts as cv)) = logged as"
  by (induction as cv rule: run_acts.induct) (simp_all add: case_prod_beta seen_of task_log_def)

lemma run_acts_contexts: "contexts (fst (run_acts as cv)) = replicate (asked as) (cv_task cv)"
  by (induction as cv rule: run_acts.induct)
    (simp_all add: case_prod_beta seen_of task_log_def get_task_context_def split: option.split)

lemma run_scoped_restores:
  "cv_sink (snd (run_scoped s tx as cv)) = cv_sink cv" "cv_task (snd (run_scoped s tx as cv)) = cv_task cv"
  by (simp_all add: run_scoped_def var_ops case_prod_beta)

lemma run_scoped_run: "fst (run_scoped s tx as cv) = fst (run_acts as (cv\<lparr>cv_sink := s, cv_task := Some tx\<rparr>))"
  by (simp add: run_scoped_def var_ops case_prod_beta)

text \<open>The dictionary of the payload loses nothing.\<close>

lemma exec_context_roundtrip: "xc_from_dict (xc_to_dict x) = Inr x"
  by (simp add: xc_from_dict_def xc_to_dict_def item_def get_or_def del: as_tags.simps)

lemma worker_context_same: "worker_context (xc_to_dict x) = Inr (context_of x)"
  by (simp add: worker_context_def xc_to_dict_def item_def get_or_def context_of_def del: as_tags.simps)

lemma worker_run_same:
  "fst (worker_run (xc_to_dict x) coro as cv) =
     Inr (fst (run_acts as (cv\<lparr>cv_sink := Some Worker_Sink, cv_task := Some (context_of x)\<rparr>)))"
  by (simp add: worker_run_def worker_context_same run_scoped_run var_ops case_prod_beta)

lemma worker_run_restores:
  "cv_sink (snd (worker_run d coro as cv)) = cv_sink cv" "cv_task (snd (worker_run d coro as cv)) = cv_task cv"
  by (simp_all add: worker_run_def run_scoped_restores var_ops case_prod_beta split: sum.split)

lemma logs_replay: "cv_sink cv = Some Worker_Sink \<Longrightarrow>
    logs_at s (map (replay s) (fst (run_acts as cv))) = logged as"
  by (induction as cv rule: run_acts.induct)
    (simp_all add: case_prod_beta seen_of task_log_def replay_def)

lemma contexts_replay [simp]: "contexts (map (replay s) xs) = contexts xs"
  by (induction xs) (auto simp: contexts_def replay_def split: seen.split sink.split)

lemma exec_ctx_vars:
  "cv_sink (fst (build_exec_ctx captured current s tx)) = Some s"
  "cv_task (fst (build_exec_ctx captured current s tx)) = Some tx"
  by (simp_all add: build_exec_ctx_def var_ops Let_def)


text \<open>Other variables follow the way of dispatch: a coroutine or a thread sees the ones of the captured
  context, the older wrapper the current ones, and in a worker those an earlier plain function of the
  same worker has set are still there.\<close>

lemma variables_by_dispatch:
  "fst (attempt_context True (Some EAsync) True (Some s) (Some c) current w x [Get_Var k]) = Inr [Var (dget (cv_other c) k)]"
  "fst (attempt_context py (Some EThread) False (Some s) (Some c) current w x [Get_Var k]) = Inr [Var (dget (cv_other c) k)]"
  "fst (attempt_context False (Some EAsync) True (Some s) (Some c) current w x [Get_Var k]) = Inr [Var (dget (cv_other current) k)]"
  by (simp_all add: attempt_context_def thread_run_def build_exec_ctx_def run_scoped_run var_ops Let_def)

lemma worker_keeps_variables:
  "fst (attempt_context py (Some EProcess) False (Some s) c cur
          (snd (attempt_context py (Some EProcess) False (Some s) c cur w x [Set_Var k v])) y [Get_Var k]) =
     Inr [Var (Some v)]"
  by (simp add: attempt_context_def worker_run_def worker_context_same run_scoped_def var_ops replay_def Let_def)

text \<open>Outside a task nothing is collected: the line goes to the standard library with its level.\<close>

lemma outside_task: "cv_sink cv = None \<Longrightarrow> logs_at s (fst (run_acts as cv)) = []"
  by (induction as cv rule: run_acts.induct) (simp_all add: case_prod_beta seen_of task_log_def)

section \<open>The semaphore of the async executor\<close>

text \<open>
  Any number of dispatches share one semaphore. A dispatch arrives, waits for a slot when there is a
  semaphore, runs, and gives the slot back however the function ends; one cancelled while it waits has
  no slot to give back. An event that does not apply changes nothing.
\<close>

datatype dispatch_phase = Slot_Waiting | Slot_Running | Slot_Over

record async_executor =
  ax_free :: "nat option"
  ax_runs :: "(nat, dispatch_phase) dict"

definition async_init :: "nat option \<Rightarrow> async_executor" where
  "async_init limit = \<lparr>ax_free = limit, ax_runs = []\<rparr>"

datatype async_event = Arrive nat | Acquire nat | Finish nat | Cancel nat

definition set_phase :: "nat \<Rightarrow> dispatch_phase \<Rightarrow> async_executor \<Rightarrow> async_executor" where
  "set_phase i p a = a\<lparr>ax_runs := dset i p (ax_runs a)\<rparr>"

definition release :: "async_executor \<Rightarrow> async_executor" where
  "release a = a\<lparr>ax_free := map_option Suc (ax_free a)\<rparr>"

fun async_step :: "async_event \<Rightarrow> async_executor \<Rightarrow> async_executor" where
  "async_step (Arrive i) a =
     (if dget (ax_runs a) i \<noteq> None then a
      else set_phase i (if ax_free a = None then Slot_Running else Slot_Waiting) a)"
| "async_step (Acquire i) a =
     (case ax_free a of
        Some (Suc n) \<Rightarrow>
          if dget (ax_runs a) i = Some Slot_Waiting then set_phase i Slot_Running (a\<lparr>ax_free := Some n\<rparr>) else a
      | _ \<Rightarrow> a)"
| "async_step (Finish i) a =
     (if dget (ax_runs a) i = Some Slot_Running then release (set_phase i Slot_Over a) else a)"
| "async_step (Cancel i) a =
     (case dget (ax_runs a) i of
        Some Slot_Waiting \<Rightarrow> set_phase i Slot_Over a
      | Some Slot_Running \<Rightarrow> release (set_phase i Slot_Over a)
      | _ \<Rightarrow> a)"

definition slots_used :: "async_executor \<Rightarrow> nat" where
  "slots_used a = card {i. dget (ax_runs a) i = Some Slot_Running}"

definition async_ok :: "nat option \<Rightarrow> async_executor \<Rightarrow> bool" where
  "async_ok limit a \<longleftrightarrow>
     (case limit of
        None \<Rightarrow> ax_free a = None
      | Some n \<Rightarrow> \<exists>f. ax_free a = Some f \<and> f + slots_used a = n)"

lemma running_finite [simp]: "finite {i. dget (ax_runs a) i = Some p}"
  by (rule finite_subset [of _ "set (dkeys (ax_runs a))"]) (auto dest: map_of_SomeD intro: rev_image_eqI)

lemma set_phase_simps [simp]:
  "ax_free (set_phase i p a) = ax_free a"
  "dget (ax_runs (set_phase i p a)) j = (if j = i then Some p else dget (ax_runs a) j)"
  by (simp_all add: set_phase_def)

lemma release_simps [simp]:
  "ax_free (release a) = map_option Suc (ax_free a)" "ax_runs (release a) = ax_runs a"
  by (simp_all add: release_def)

lemma slots_start:
  "dget (ax_runs a) i \<noteq> Some Slot_Running \<Longrightarrow> slots_used (set_phase i Slot_Running a) = Suc (slots_used a)"
proof -
  assume i: "dget (ax_runs a) i \<noteq> Some Slot_Running"
  have "{j. dget (ax_runs (set_phase i Slot_Running a)) j = Some Slot_Running} =
      insert i {j. dget (ax_runs a) j = Some Slot_Running}" by auto
  then show ?thesis using i by (simp add: slots_used_def)
qed

lemma slots_end:
  "dget (ax_runs a) i = Some Slot_Running \<Longrightarrow> Suc (slots_used (set_phase i Slot_Over a)) = slots_used a"
proof -
  assume i: "dget (ax_runs a) i = Some Slot_Running"
  have "{j. dget (ax_runs a) j = Some Slot_Running} =
      insert i {j. dget (ax_runs (set_phase i Slot_Over a)) j = Some Slot_Running}" using i by auto
  moreover have "i \<notin> {j. dget (ax_runs (set_phase i Slot_Over a)) j = Some Slot_Running}" by simp
  ultimately show ?thesis unfolding slots_used_def by (metis card_insert_disjoint running_finite)
qed

lemma slots_wait:
  "dget (ax_runs a) i \<noteq> Some Slot_Running \<Longrightarrow> p \<noteq> Slot_Running \<Longrightarrow> slots_used (set_phase i p a) = slots_used a"
  by (auto simp: slots_used_def intro!: arg_cong [of _ _ card])

lemma slots_free [simp]: "slots_used (a\<lparr>ax_free := f\<rparr>) = slots_used a" "slots_used (release a) = slots_used a"
  by (simp_all add: slots_used_def)

lemma async_ok_step: "async_ok limit a \<Longrightarrow> async_ok limit (async_step e a)"
  by (cases e; cases limit; cases "ax_free a")
    (auto simp: async_ok_def slots_start slots_wait slots_end
       split: option.split nat.split dispatch_phase.split)

text \<open>Whatever the interleaving and whichever dispatches are cancelled, no slot is lost or made.\<close>

lemma async_slots_conserved: "async_ok limit (fold async_step es (async_init limit))"
proof -
  have "async_ok limit a \<Longrightarrow> async_ok limit (fold async_step es a)" for a
    by (induction es arbitrary: a) (simp_all add: async_ok_step)
  moreover have "async_ok limit (async_init limit)"
    by (simp add: async_ok_def async_init_def slots_used_def split: option.split)
  ultimately show ?thesis by blast
qed

corollary async_limit_kept: "slots_used (fold async_step es (async_init (Some n))) \<le> n"
  using async_slots_conserved [of "Some n" es] by (auto simp: async_ok_def)

end
