(* ===== verification/Constructor.thy ===== *)
theory Constructor
  imports System Task_Context
begin

text \<open>
  The constructors: \<open>TaskManager.__init__\<close> (\<^verbatim>\<open>manager.py\<close>) with the \<open>SnapshotScheduler\<close> it makes
  (\<^verbatim>\<open>snapshot.py\<close>), \<open>get_tasks\<close>, and why every state a new manager reaches has the default queue
  when it uses named queues. What the process provides (the supply of ids, the clocks, the
  serialiser, the cipher of the optional package) is an argument.
\<close>

record environment =
  en_uuid :: "nat \<Rightarrow> string"
  en_clock :: "nat \<Rightarrow> int"
  en_mono :: "nat \<Rightarrow> int"
  en_pickler :: pickler
  en_fernet :: "string \<Rightarrow> py_exc + cipher"   \<comment> \<open>the import and \<open>Fernet(key)\<close>\<close>
  en_sqlite :: "string \<Rightarrow> sqlite"             \<comment> \<open>what the file at a path holds\<close>

text \<open>The arguments of the constructor the rest of the model reads. Times are in microseconds.\<close>

record tm_args =
  ta_snapshot_db :: "string option"
  ta_snapshot_backend :: "sqlite option"
  ta_snapshot_interval :: rat               \<comment> \<open>seconds\<close>
  ta_requeue_pending :: bool
  ta_merged_list_ttl :: int
  ta_loggers :: "observer list option"
  ta_log_file :: "string option"
  ta_log_lifecycle :: bool
  ta_encrypt_args_key :: "string option"
  ta_max_concurrent_tasks :: "int option"
  ta_max_sync_threads :: "int option"
  ta_retention :: "int option"
  ta_queues :: "(string, queue_config) dict option"
  ta_max_size :: "int option"
  ta_retry_replaces_original :: bool
  ta_instance_url :: "string option"
  ta_instance_tasks_prefix :: string
  ta_registry_ttl :: int
  ta_registry_heartbeat :: int

text \<open>\<open>TaskManager()\<close>.\<close>

definition default_args :: tm_args where
  "default_args =
     \<lparr>ta_snapshot_db = None, ta_snapshot_backend = None, ta_snapshot_interval = 60,
      ta_requeue_pending = False, ta_merged_list_ttl = 5000000, ta_loggers = None, ta_log_file = None,
      ta_log_lifecycle = False, ta_encrypt_args_key = None, ta_max_concurrent_tasks = None,
      ta_max_sync_threads = None, ta_retention = None, ta_queues = None, ta_max_size = None,
      ta_retry_replaces_original = True, ta_instance_url = None, ta_instance_tasks_prefix = [],
      ta_registry_ttl = 90, ta_registry_heartbeat = 30\<rparr>"

text \<open>\<open>asyncio.Semaphore(n)\<close> and \<open>ThreadPoolExecutor(max_workers=n)\<close> check their argument.\<close>

definition new_async_executor :: "int option \<Rightarrow> py_exc + async_executor" where
  "new_async_executor n =
     (case n of
        None \<Rightarrow> Inr (async_init None)
      | Some k \<Rightarrow>
          if k < 0 then Inl (ValueError ''Semaphore initial value must be >= 0'')
          else Inr (async_init (Some (nat k))))"

definition new_thread_pool :: "int option \<Rightarrow> py_exc + unit" where
  "new_thread_pool n =
     (case n of
        None \<Rightarrow> Inr ()
      | Some k \<Rightarrow> if k \<le> 0 then Inl (ValueError ''max_workers must be greater than 0'') else Inr ())"

definition new_fernet :: "environment \<Rightarrow> string option \<Rightarrow> py_exc + cipher option" where
  "new_fernet en key =
     (case key of None \<Rightarrow> Inr None | Some k \<Rightarrow> bindr (en_fernet en k) (\<lambda>ci. Inr (Some ci)))"

definition new_loggers :: "tm_args \<Rightarrow> observer list option" where
  "new_loggers a =
     (let given = (case ta_loggers a of None \<Rightarrow> [] | Some obs \<Rightarrow> obs);
          every = (case ta_log_file a of
                     None \<Rightarrow> given
                   | Some path \<Rightarrow> given @ [new_observer (FileObs (ta_log_lifecycle a)) ''info''])
      in if every = [] then None else Some every)"

definition new_queue_configs :: "tm_args \<Rightarrow> (string, queue_config) dict" where
  "new_queue_configs a =
     (if ta_queues a = None \<and> ta_max_size a = None then []
      else let given = (case ta_queues a of None \<Rightarrow> [] | Some qs \<Rightarrow> qs)
           in if ''default'' \<in> set (dkeys given) then given
              else dset ''default'' \<lparr>qc_concurrency = ta_max_concurrent_tasks a,
                                     qc_max_size = ta_max_size a\<rparr> given)"

text \<open>\<open>snapshot_backend\<close> takes precedence over \<open>snapshot_db\<close>.\<close>

definition new_backend :: "environment \<Rightarrow> tm_args \<Rightarrow> sqlite option" where
  "new_backend en a =
     (case ta_snapshot_backend a of
        Some db \<Rightarrow> Some db
      | None \<Rightarrow> map_option (en_sqlite en) (ta_snapshot_db a))"

text \<open>\<open>max(1, round(21600 / max(interval, 1)))\<close> of the snapshot scheduler.\<close>

definition retention_every :: "rat \<Rightarrow> int" where
  "retention_every interval = max 1 (round_half_even (21600 / max interval 1))"

text \<open>A \<open>SnapshotScheduler\<close> needs a backend or a path.\<close>

definition snapshot_backend_of :: "environment \<Rightarrow> sqlite option \<Rightarrow> string option \<Rightarrow> py_exc + sqlite" where
  "snapshot_backend_of en b path =
     (case b of
        Some db \<Rightarrow> Inr db
      | None \<Rightarrow>
          (case path of
             None \<Rightarrow> Inl (ValueError ''Provide either 'backend' or 'db_path'.'')
           | Some f \<Rightarrow> Inr (en_sqlite en f)))"

definition new_manager :: "environment \<Rightarrow> tm_args \<Rightarrow> py_exc + async_executor \<times> tm" where
  "new_manager en a =
     bindr (new_async_executor (ta_max_concurrent_tasks a)) (\<lambda>ax.
     bindr (new_thread_pool (ta_max_sync_threads a)) (\<lambda>_.
     bindr (new_fernet en (ta_encrypt_args_key a)) (\<lambda>fernet.
     Inr (ax,
       \<lparr>tm_registry = registry_init, tm_store = store_init, tm_backend = new_backend en a,
        tm_requeue_pending = ta_requeue_pending a, tm_retention = ta_retention a,
        tm_retention_counter = 0, tm_retention_every = retention_every (ta_snapshot_interval a),
        tm_flush_loop = False, tm_logger = new_loggers a, tm_fernet = fernet, tm_nonce = 0,
        tm_uuid = en_uuid en, tm_next_uuid = 0, tm_procs = process_executor_init,
        tm_pickler = en_pickler en, tm_running = [], tm_queue_configs = new_queue_configs a,
        tm_queues = [], tm_priority_queue = [], tm_priority_seq = 0, tm_priority_worker = False,
        tm_spawned = [], tm_starlette = [], tm_audit = [], tm_cache = [], tm_cache_ts = 0,
        tm_merged_ttl = ta_merged_list_ttl a, tm_retry_replaces = ta_retry_replaces_original a,
        tm_periodic = None, tm_deferred = [], tm_instance_url = ta_instance_url a,
        tm_instance_prefix = ta_instance_tasks_prefix a, tm_registry_ttl = ta_registry_ttl a,
        tm_heartbeat = ta_registry_heartbeat a, tm_instance = None, tm_cancels = [],
        tm_mono = en_mono en, tm_clock = en_clock en, tm_ticks = 0\<rparr>))))"

section \<open>A new manager\<close>

lemma new_manager_fields:
  assumes "new_manager en a = Inr (ax, m)"
  shows "tm_store m = store_init" "tm_backend m = new_backend en a" "tm_queues m = []" "tm_running m = []"
    "tm_queue_configs m = new_queue_configs a" "tm_spawned m = []" "tm_starlette m = []"
    "tm_priority_queue m = []" "new_async_executor (ta_max_concurrent_tasks a) = Inr ax"
  using assms by (auto simp: new_manager_def bindr_def split: sum.splits)

lemma new_manager_fresh:
  assumes "new_manager en a = Inr (ax, m)" and "pred_option sqlite_wf (new_backend en a)"
  shows "fresh_tm m"
  using assms by (simp add: fresh_tm_def new_manager_fields)

lemma new_manager_reach:
  assumes "new_manager en a = Inr (ax, m)" and "pred_option sqlite_wf (new_backend en a)"
  shows "tm_reach m"
  using new_manager_fresh [OF assms] by (rule tm_reach.fresh)

text \<open>The semaphore of a new manager starts with every slot free.\<close>

lemma new_async_ok:
  assumes "new_async_executor n = Inr ax"
  shows "async_ok (map_option nat n) ax"
  using assms
  by (auto simp: new_async_executor_def async_ok_def async_init_def slots_used_def
      split: option.splits if_splits)

text \<open>Named queues always include the default one, and only then are there configurations.\<close>

lemma dkeys_dset: "set (dkeys (dset k v d)) = insert k (set (dkeys d))"
  by (induction d) auto

lemma named_queues_have_default:
  "new_queue_configs a = [] \<longleftrightarrow> ta_queues a = None \<and> ta_max_size a = None"
  "new_queue_configs a \<noteq> [] \<Longrightarrow> ''default'' \<in> set (dkeys (new_queue_configs a))"
proof -
  have n: "dset k v d \<noteq> []" for k and v :: queue_config and d by (cases d) auto
  show "new_queue_configs a = [] \<longleftrightarrow> ta_queues a = None \<and> ta_max_size a = None"
    by (auto simp: new_queue_configs_def Let_def n split: option.splits)
  show "new_queue_configs a \<noteq> [] \<Longrightarrow> ''default'' \<in> set (dkeys (new_queue_configs a))"
    by (auto simp: new_queue_configs_def Let_def dkeys_dset simp del: set_map split: if_splits)
qed

text \<open>Overrides an operator saved change the values of known queues and add none.\<close>

lemma start_queues_keys:
  "start_queues cs m = (Inr (), m') \<Longrightarrow>
   set (dkeys (tm_queues m')) = set (dkeys cs) \<union> set (dkeys (tm_queues m))"
  by (induction cs m rule: start_queues.induct)
    (auto simp: dkeys_dset simp del: set_map split: prod.splits sum.splits)

lemma apply_overrides_keys: "set (dkeys (apply_overrides xs d)) = set (dkeys d)"
  by (induction xs d rule: apply_overrides.induct) (auto simp: dkeys_dset simp del: set_map split: sum.splits)

lemma load_overrides_keys:
  "set (dkeys (tm_queue_configs (load_overrides m))) = set (dkeys (tm_queue_configs m))"
  "tm_queues (load_overrides m) = tm_queues m"
  by (simp_all add: load_overrides_def apply_overrides_keys del: set_map split: option.split sum.split)

text \<open>
  With named queues every task finds its queue: once the workers have started, the lookup of a queue
  gives the queue of that name or the default one, and that queue exists.
\<close>

lemma queue_always_found:
  assumes "tm_queue_configs m = new_queue_configs a" and "new_queue_configs a \<noteq> []"
    and "start_workers m = (Inr (), m')"
  shows "\<exists>k q. get_queue name m' = Inr k \<and> k \<in> {name, ''default''} \<and> dget (tm_queues m') k = Some q"
proof -
  have "set (dkeys (tm_queues m')) = set (dkeys (new_queue_configs a)) \<union> set (dkeys (tm_queues m))"
    using assms start_queues_keys [of "tm_queue_configs (load_overrides m)" "load_overrides m" m']
    by (simp add: start_workers_def load_overrides_keys Let_def del: set_map)
  then have d: "''default'' \<in> set (dkeys (tm_queues m'))"
    using named_queues_have_default(2) [OF assms(2)] by blast
  have "\<exists>q. dget (tm_queues m') k = Some q" if "k \<in> set (dkeys (tm_queues m'))" for k
    using that dget_None_iff [of "tm_queues m'" k] by (cases "dget (tm_queues m') k") auto
  then show ?thesis using d by (auto simp: get_queue_def simp del: set_map)
qed

text \<open>
  The default queue a call without named queues gets from \<open>max_size\<close> has the limits of the arguments;
  one that \<open>queues\<close> brings keeps its own and the two arguments are ignored for it.
\<close>

lemma default_queue_limits:
  "dget (new_queue_configs a) ''default'' =
     (case (ta_queues a, ta_max_size a) of
        (None, None) \<Rightarrow> None
      | (qs, _) \<Rightarrow>
          (case dget (case qs of None \<Rightarrow> [] | Some d \<Rightarrow> d) ''default'' of
             Some c \<Rightarrow> Some c
           | None \<Rightarrow> Some \<lparr>qc_concurrency = ta_max_concurrent_tasks a, qc_max_size = ta_max_size a\<rparr>))"
  by (auto simp: new_queue_configs_def Let_def dget_None_iff split: option.splits dest: map_of_SomeD
      intro: rev_image_eqI)

text \<open>Pruning comes about every six hours of flushes: with the default interval, every 360th.\<close>

lemma retention_every_default: "retention_every 60 = 360" "retention_every 0 = 21600"
  by (simp_all add: retention_every_def round_half_even_def)

lemma retention_every_pos: "1 \<le> retention_every q"
  by (simp add: retention_every_def)

section \<open>The dependency of a request\<close>

text \<open>
  \<open>ManagedBackgroundTasks(manager, background_tasks)\<close> shares the task list of the request, or has an
  empty one of its own; \<open>get_tasks\<close> makes one and \<open>background_tasks\<close> is another name for it.
\<close>

definition new_managed_tasks :: "job list option \<Rightarrow> tm \<Rightarrow> tm" where
  "new_managed_tasks native m = m\<lparr>tm_starlette := (case native of None \<Rightarrow> [] | Some js \<Rightarrow> js)\<rparr>"

definition get_tasks :: "job list \<Rightarrow> tm \<Rightarrow> tm" where
  "get_tasks native m = new_managed_tasks (Some native) m"

end
