(* ===== verification/Custom_Backend.thy ===== *)
theory Custom_Backend
  imports Backend_Contract
begin

text \<open>
  \<^verbatim>\<open>backends/base.py\<close>: what a backend gets from \<open>SnapshotBackend\<close> when it defines the abstract
  methods and no more, and the asynchronous methods of \<open>ThreadedSnapshotBackend\<close> over the
  synchronous ones of a subclass. The state of the backend is a type of its own, its \<open>load\<close> and
  the synchronous methods are parameters. The theorems compare the inherited methods with the ones
  the shipped backends define.
\<close>

section \<open>Inherited methods\<close>

definition base_claim_pending :: "string \<Rightarrow> 'b \<Rightarrow> bool \<times> 'b" where
  "base_claim_pending tid b = (True, b)"

definition base_check_idempotency_key :: "'b \<Rightarrow> string \<Rightarrow> string option" where
  "base_check_idempotency_key b key = None"

definition base_record_idempotency_key :: "string \<Rightarrow> string \<Rightarrow> 'b \<Rightarrow> 'b" where
  "base_record_idempotency_key key tid b = b"

definition base_completed_ids :: "('b \<Rightarrow> task_record list) \<Rightarrow> string list \<Rightarrow> 'b \<Rightarrow> string list" where
  "base_completed_ids load ids b =
     (if ids = [] then []
      else map task_id (filter (\<lambda>r. task_id r \<in> set ids \<and> status_value (status r) = ''success'') (load b)))"

definition base_delete_records :: "string list \<Rightarrow> 'b \<Rightarrow> nat \<times> 'b" where
  "base_delete_records ids b = (0, b)"

definition base_delete_before :: "datetime \<Rightarrow> 'b \<Rightarrow> nat \<times> 'b" where
  "base_delete_before cutoff b = (0, b)"

definition base_acquire_schedule_lock :: "string \<Rightarrow> int \<Rightarrow> 'b \<Rightarrow> bool \<times> 'b" where
  "base_acquire_schedule_lock key ttl b = (True, b)"

text \<open>\<open>type(self).__name__\<close> is the first argument; \<open>schedule_once\<close> asks for the flag before it saves.\<close>

definition base_supports_scheduled_once :: bool where
  "base_supports_scheduled_once = False"

definition no_one_offs :: "string \<Rightarrow> py_exc" where
  "no_one_offs cls = NotImplementedError (cls @ '' does not support one-off schedules.'')"

definition base_save_scheduled :: "string \<Rightarrow> scheduled_once \<Rightarrow> 'b \<Rightarrow> py_exc + 'b" where
  "base_save_scheduled cls e b =
     Inl (NotImplementedError (cls @ '' does not support one-off schedules. ''
       @ ''Set supports_scheduled_once = True and implement save_scheduled, ''
       @ ''load_due, delete_scheduled and claim_scheduled.''))"

definition base_load_due :: "string \<Rightarrow> datetime \<Rightarrow> 'b \<Rightarrow> py_exc + scheduled_once list" where
  "base_load_due cls before b = Inl (no_one_offs cls)"

definition base_delete_scheduled :: "string \<Rightarrow> string \<Rightarrow> 'b \<Rightarrow> py_exc + bool \<times> 'b" where
  "base_delete_scheduled cls k b = Inl (no_one_offs cls)"

definition base_claim_scheduled :: "string \<Rightarrow> string \<Rightarrow> 'b \<Rightarrow> py_exc + bool \<times> 'b" where
  "base_claim_scheduled cls k b = Inl (no_one_offs cls)"

section \<open>Methods over a thread pool\<close>

text \<open>Each method hands one synchronous call to the pool and returns its result; two of them answer an
  empty list without a call, and timestamps are passed as ISO text. The delete is the claim.\<close>

definition th_delete_before :: "(isotext \<Rightarrow> 'b \<Rightarrow> nat \<times> 'b) \<Rightarrow> datetime \<Rightarrow> 'b \<Rightarrow> nat \<times> 'b" where
  "th_delete_before f cutoff b = f (isoformat cutoff) b"

definition th_delete_records :: "(string list \<Rightarrow> 'b \<Rightarrow> nat \<times> 'b) \<Rightarrow> string list \<Rightarrow> 'b \<Rightarrow> nat \<times> 'b" where
  "th_delete_records f ids b = (if ids = [] then (0, b) else f ids b)"

definition th_completed_ids :: "(string list \<Rightarrow> 'b \<Rightarrow> string list) \<Rightarrow> string list \<Rightarrow> 'b \<Rightarrow> string list" where
  "th_completed_ids f ids b = (if ids = [] then [] else f ids b)"

definition th_load_due :: "(isotext \<Rightarrow> 'b \<Rightarrow> scheduled_once list) \<Rightarrow> datetime \<Rightarrow> 'b \<Rightarrow> scheduled_once list" where
  "th_load_due f before b = f (isoformat before) b"

definition th_claim_scheduled :: "(string \<Rightarrow> 'b \<Rightarrow> bool \<times> 'b) \<Rightarrow> string \<Rightarrow> 'b \<Rightarrow> bool \<times> 'b" where
  "th_claim_scheduled delete k b = delete k b"

section \<open>The targeted query\<close>

text \<open>
  A backend may answer \<open>completed_ids\<close> with a query of its own. The law is that it finds what loading
  everything and filtering finds; then the caller skips the same tasks.
\<close>

locale targeted_query =
  fixes load :: "'b \<Rightarrow> task_record list"
    and completed :: "string list \<Rightarrow> 'b \<Rightarrow> string list"
    and good :: "'b \<Rightarrow> bool"
  assumes targeted: "good b \<Longrightarrow> set (completed ids b) = set (base_completed_ids load ids b)"
begin

lemma same_to_requeue:
  "good b \<Longrightarrow> filter (\<lambda>r. task_id r \<notin> set (completed ids b)) rs =
     filter (\<lambda>r. task_id r \<notin> set (base_completed_ids load ids b)) rs"
  by (simp add: targeted)

lemma only_asked: "good b \<Longrightarrow> set (completed ids b) \<subseteq> set ids"
  by (auto simp: targeted base_completed_ids_def)

end

lemma success_value: "status_value s = ''success'' \<longleftrightarrow> s = SUCCESS"
  by (cases s) simp_all

lemma base_completed_rows:
  "(\<And>k r. (k, r) \<in> set t \<Longrightarrow> hr_task_id r = k) \<Longrightarrow> load b = map row_to_record (dvals t) \<Longrightarrow>
   set (base_completed_ids load ids b) =
     (if ids = [] then {} else fst ` {(k, r) \<in> set t. k \<in> set ids \<and> hr_status r = SUCCESS})"
  by (force simp: base_completed_ids_def row_to_record_def success_value image_iff)

definition filed :: "(string, hist_row) dict \<Rightarrow> bool" where
  "filed t \<longleftrightarrow> (\<forall>(k, r) \<in> set t. hr_task_id r = k)"

interpretation sqlite_query: targeted_query sq_load sq_completed_ids sqlite_wf
proof
  fix db :: sqlite and ids
  assume "sqlite_wf db"
  then have "(k, r) \<in> set (sq_history db) \<Longrightarrow> hr_task_id r = k" for k r
    by (auto simp: sqlite_wf_def)
  then show "set (sq_completed_ids ids db) = set (base_completed_ids sq_load ids db)"
    by (subst base_completed_rows [of "sq_history db"]) (auto simp: sq_load_def sq_completed_ids_def)
qed

interpretation postgres_query: targeted_query pg_load pg_completed_ids "\<lambda>db :: sql_db. filed (db_history db)"
proof
  fix db :: sql_db and ids
  assume "filed (db_history db)"
  then have "(k, r) \<in> set (db_history db) \<Longrightarrow> hr_task_id r = k" for k r
    by (auto simp: filed_def)
  then show "set (pg_completed_ids ids db) = set (base_completed_ids pg_load ids db)"
    by (subst base_completed_rows [of "db_history db"]) (auto simp: pg_load_def pg_completed_ids_def db_rows)
qed

interpretation mysql_query: targeted_query my_load "my_completed_ids binary" "\<lambda>db :: sql_db. filed (db_history db)"
proof
  fix db :: sql_db and ids
  assume "filed (db_history db)"
  moreover have "my_load = pg_load" "my_completed_ids binary ids db = pg_completed_ids ids db"
    by (simp_all add: fun_eq_iff my_load_def pg_load_def my_completed_ids_def pg_completed_ids_def)
  ultimately show "set (my_completed_ids binary ids db) = set (base_completed_ids my_load ids db)"
    using postgres_query.targeted by simp
qed

text \<open>So a requeue skips the same pending tasks whether its backend asks for them or loads everything.\<close>

lemma requeue_skips_alike:
  assumes "sqlite_wf db" and "records = sq_load_pending db"
  shows "filter (\<lambda>r. task_id r \<notin> set (sq_completed_ids (map task_id records) db)) records =
    filter (\<lambda>r. task_id r \<notin> set (base_completed_ids sq_load (map task_id records) db)) records"
  by (rule sqlite_query.same_to_requeue [OF assms(1)])

text \<open>Saving files every row under its key, so the law is kept.\<close>

lemma filed_save: "filed (db_history db) \<Longrightarrow> filed (db_history (snd (pg_save now rs db)))"
proof -
  have "filed t \<Longrightarrow> filed (dset (hr_task_id r) r t)" for r t
    by (induction t) (auto simp: filed_def)
  then have "filed t \<Longrightarrow> filed (fold (\<lambda>r. dset (hr_task_id r) r) rows t)" for rows t
    by (induction rows arbitrary: t) simp_all
  then show "filed (db_history db) \<Longrightarrow> ?thesis" by (simp add: pg_save_def)
qed

section \<open>What the inherited methods do not promise\<close>

text \<open>Every caller wins the inherited claim and the inherited lock, in any number and order: without a claim
  of its own a shared backend has a task dispatched by every instance that loaded it.\<close>

lemma base_claim_not_exclusive:
  "wins k ks (fst (run_claims base_claim_pending ks b)) = count_list ks k"
  by (induction ks) (simp_all add: wins_def base_claim_pending_def case_prod_beta Let_def)

lemma base_lock_not_exclusive:
  "fst (base_acquire_schedule_lock key ttl b)
   \<and> fst (base_acquire_schedule_lock key ttl (snd (base_acquire_schedule_lock key ttl b)))"
  by (simp add: base_acquire_schedule_lock_def)

text \<open>The wrapper's shortcut agrees with the query of every backend that finds nothing for no ids.\<close>

lemma wrapped_queries:
  "th_delete_records pg_delete_records = pg_delete_records" "th_completed_ids pg_completed_ids = pg_completed_ids"
  "th_delete_records sq_delete_records = sq_delete_records" "th_completed_ids sq_completed_ids = sq_completed_ids"
  by (auto simp: fun_eq_iff th_delete_records_def th_completed_ids_def pg_delete_records_def
      pg_completed_ids_def sq_delete_records_def sq_completed_ids_def)

end
