(* ===== verification/Schema.thy ===== *)
theory Schema
  imports Loggers
begin

text \<open>
  Opening a database: the \<open>_init_db\<close> of the three SQL backends as the data definition statements they
  send, in order, and what \<open>_parse_url\<close> of \<^verbatim>\<open>mysql.py\<close> hands to the driver. A table is its columns
  with their default texts and its rows; an index is its name. A statement fails the way the server
  fails it: a column added twice, a column added to a missing table, an index made twice or over a
  missing column. Column types are not modelled.
\<close>

section \<open>Tables and statements\<close>

type_synonym cell = "string option"
type_synonym column = "string \<times> cell"
type_synonym db_row = "(string, cell) dict"

record db_table =
  tb_columns :: "column list"   \<comment> \<open>name and default\<close>
  tb_rows :: "db_row list"

record database =
  df_tables :: "(string, db_table) dict"
  df_indexes :: "string list"

text \<open>The flag of the last two is \<open>IF NOT EXISTS\<close>; \<open>CREATE TABLE\<close> always has it.\<close>

datatype ddl =
    Create_Table string "column list"
  | Add_Column bool string column
  | Create_Index bool string string "string list"

definition add_column :: "column \<Rightarrow> db_table \<Rightarrow> db_table" where
  "add_column c t = \<lparr>tb_columns = tb_columns t @ [c], tb_rows = map (\<lambda>r. r @ [c]) (tb_rows t)\<rparr>"

fun run_ddl :: "ddl \<Rightarrow> database \<Rightarrow> py_exc + database" where
  "run_ddl (Create_Table n cols) d =
     (if dget (df_tables d) n \<noteq> None then Inr d
      else Inr (d\<lparr>df_tables := dset n \<lparr>tb_columns = cols, tb_rows = []\<rparr> (df_tables d)\<rparr>))"
| "run_ddl (Add_Column if_not_exists n c) d =
     (case dget (df_tables d) n of
        None \<Rightarrow> Inl (RuntimeError (''no such table: '' @ n))
      | Some t \<Rightarrow>
          if fst c \<in> set (dkeys (tb_columns t))
          then if if_not_exists then Inr d else Inl (RuntimeError (''duplicate column name: '' @ fst c))
          else Inr (d\<lparr>df_tables := dset n (add_column c t) (df_tables d)\<rparr>))"
| "run_ddl (Create_Index if_not_exists i n cols) d =
     (if i \<in> set (df_indexes d)
      then if if_not_exists then Inr d else Inl (RuntimeError (''index '' @ i @ '' already exists''))
      else case dget (df_tables d) n of
             None \<Rightarrow> Inl (RuntimeError (''no such table: '' @ n))
           | Some t \<Rightarrow>
               if set cols \<subseteq> set (dkeys (tb_columns t)) then Inr (d\<lparr>df_indexes := df_indexes d @ [i]\<rparr>)
               else Inl (RuntimeError ''no such column''))"

text \<open>A list of statements: the first error ends it, or every error is passed over.\<close>

fun run_all :: "ddl list \<Rightarrow> database \<Rightarrow> py_exc + database" where
  "run_all [] d = Inr d"
| "run_all (x # xs) d = bindr (run_ddl x d) (run_all xs)"

fun try_all :: "ddl list \<Rightarrow> database \<Rightarrow> database" where
  "try_all [] d = d"
| "try_all (x # xs) d = try_all xs (case run_ddl x d of Inl _ \<Rightarrow> d | Inr d' \<Rightarrow> d')"

section \<open>The statements of the backends\<close>

definition no_default :: "string list \<Rightarrow> column list" where
  "no_default = map (\<lambda>n. (n, None))"

definition sqlite_tables :: "ddl list" where
  "sqlite_tables =
  [Create_Table ''task_snapshots''
    (no_default [''task_id'', ''func_name'', ''status'', ''created_at'', ''start_time'',
        ''end_time'', ''duration'']
     @ [(''retries_used'', Some ''0'')]
     @ no_default [''error'', ''snapshotted_at'', ''args_json'', ''kwargs_json'',
        ''logs_json'', ''stacktrace'', ''encrypted_payload'']
     @ [(''source'', Some ''manual'')]
     @ no_default [''executor'']
     @ [(''queue'', Some ''default'')]),
   Create_Table ''task_pending_requeue''
    (no_default [''task_id'', ''func_name'', ''created_at'']
     @ [(''retries_used'', Some ''0'')]
     @ no_default [''args_json'', ''kwargs_json'', ''encrypted_payload'']),
   Create_Table ''task_idempotency_keys''
    (no_default [''idem_key'', ''task_id'', ''created_at'']),
   Create_Table ''task_schedule_locks''
    (no_default [''lock_key'', ''expires_at'']),
   Create_Table ''task_metadata''
    (no_default [''key'', ''value'']),
   Create_Table ''task_scheduled_once''
    (no_default [''run_key'', ''func_name'', ''fire_at'', ''created_at'', ''args_json'',
        ''kwargs_json'', ''encrypted_payload'']
     @ [(''queue'', Some ''default'')]
     @ no_default [''priority'', ''idempotency_key'', ''tags_json''])]"

definition sqlite_migrations :: "ddl list" where
  "sqlite_migrations =
  [Add_Column False ''task_snapshots'' (''args_json'', None),
   Add_Column False ''task_snapshots'' (''kwargs_json'', None),
   Add_Column False ''task_snapshots'' (''logs_json'', None),
   Add_Column False ''task_snapshots'' (''stacktrace'', None),
   Add_Column False ''task_snapshots'' (''encrypted_payload'', None),
   Add_Column False ''task_pending_requeue'' (''encrypted_payload'', None),
   Add_Column False ''task_snapshots'' (''source'', Some ''manual''),
   Add_Column False ''task_snapshots'' (''priority'', None),
   Add_Column False ''task_snapshots'' (''executor'', None),
   Add_Column False ''task_snapshots'' (''queue'', Some ''default''),
   Add_Column False ''task_pending_requeue'' (''queue'', Some ''default'')]"

definition sqlite_indexes :: "ddl list" where
  "sqlite_indexes =
  [Create_Index True ''idx_snap_status'' ''task_snapshots'' [''status''],
   Create_Index True ''idx_snap_end_status'' ''task_snapshots'' [''end_time'', ''status''],
   Create_Index True ''idx_snap_snapshotted'' ''task_snapshots'' [''snapshotted_at''],
   Create_Index True ''idx_snap_func_name'' ''task_snapshots'' [''func_name''],
   Create_Index True ''idx_sched_fire_at'' ''task_scheduled_once'' [''fire_at'']]"

definition postgres_tables :: "ddl list" where
  "postgres_tables =
  [Create_Table ''task_snapshots''
    (no_default [''task_id'', ''func_name'', ''status'', ''created_at'', ''start_time'',
        ''end_time'', ''duration'']
     @ [(''retries_used'', Some ''0'')]
     @ no_default [''error'', ''snapshotted_at'', ''args_json'', ''kwargs_json'',
        ''logs_json'', ''stacktrace'', ''encrypted_payload'']
     @ [(''source'', Some ''manual'')]
     @ no_default [''priority'', ''executor'']),
   Create_Table ''task_pending_requeue''
    (no_default [''task_id'', ''func_name'', ''created_at'']
     @ [(''retries_used'', Some ''0'')]
     @ no_default [''args_json'', ''kwargs_json'', ''encrypted_payload'']),
   Create_Table ''task_idempotency_keys''
    (no_default [''idem_key'', ''task_id'', ''created_at'']),
   Create_Table ''task_schedule_locks''
    (no_default [''lock_key'', ''expires_at'']),
   Create_Table ''task_scheduled_once''
    (no_default [''run_key'', ''func_name'', ''fire_at'', ''created_at'', ''args_json'',
        ''kwargs_json'', ''encrypted_payload'']
     @ [(''queue'', Some ''default'')]
     @ no_default [''priority'', ''idempotency_key'', ''tags_json''])]"

definition postgres_migrations :: "ddl list" where
  "postgres_migrations =
  [Add_Column True ''task_snapshots'' (''executor'', None),
   Add_Column True ''task_snapshots'' (''queue'', Some ''default''),
   Add_Column True ''task_pending_requeue'' (''queue'', Some ''default'')]"

definition postgres_indexes :: "ddl list" where
  "postgres_indexes =
  [Create_Index True ''idx_snap_status'' ''task_snapshots'' [''status''],
   Create_Index True ''idx_snap_end_status'' ''task_snapshots'' [''end_time'', ''status''],
   Create_Index True ''idx_snap_snapshotted'' ''task_snapshots'' [''snapshotted_at''],
   Create_Index True ''idx_snap_func_name'' ''task_snapshots'' [''func_name''],
   Create_Index True ''idx_sched_fire_at'' ''task_scheduled_once'' [''fire_at'']]"

definition mysql_tables :: "ddl list" where
  "mysql_tables =
  [Create_Table ''task_snapshots''
    (no_default [''task_id'', ''func_name'', ''status'', ''created_at'', ''start_time'',
        ''end_time'', ''duration'']
     @ [(''retries_used'', Some ''0'')]
     @ no_default [''error'', ''snapshotted_at'', ''args_json'', ''kwargs_json'',
        ''logs_json'', ''stacktrace'', ''encrypted_payload'']
     @ [(''source'', Some ''manual'')]
     @ no_default [''priority'', ''executor'']
     @ [(''queue'', Some ''default'')]),
   Create_Table ''task_pending_requeue''
    (no_default [''task_id'', ''func_name'', ''created_at'']
     @ [(''retries_used'', Some ''0'')]
     @ no_default [''args_json'', ''kwargs_json'', ''encrypted_payload'']),
   Create_Table ''task_idempotency_keys''
    (no_default [''idem_key'', ''task_id'', ''created_at'']),
   Create_Table ''task_schedule_locks''
    (no_default [''lock_key'', ''expires_at'']),
   Create_Table ''task_scheduled_once''
    (no_default [''run_key'', ''func_name'', ''fire_at'', ''created_at'', ''args_json'',
        ''kwargs_json'', ''encrypted_payload'']
     @ [(''queue'', Some ''default'')]
     @ no_default [''priority'', ''idempotency_key'', ''tags_json''])]"

definition mysql_migrations :: "ddl list" where
  "mysql_migrations =
  [Add_Column False ''task_snapshots'' (''executor'', None),
   Add_Column False ''task_snapshots'' (''queue'', Some ''default''),
   Add_Column False ''task_pending_requeue'' (''queue'', Some ''default'')]"

definition mysql_indexes :: "ddl list" where
  "mysql_indexes =
  [Create_Index False ''idx_snap_status'' ''task_snapshots'' [''status''],
   Create_Index False ''idx_snap_end_status'' ''task_snapshots'' [''end_time'', ''status''],
   Create_Index False ''idx_snap_snapshotted'' ''task_snapshots'' [''snapshotted_at''],
   Create_Index False ''idx_snap_func_name'' ''task_snapshots'' [''func_name''],
   Create_Index False ''idx_sched_fire_at'' ''task_scheduled_once'' [''fire_at'']]"

text \<open>The columns the three upserts name, the same in every backend.\<close>

definition upsert_columns :: "(string \<times> string list) list" where
  "upsert_columns =
  [(''task_snapshots'',
    [''task_id'', ''func_name'', ''status'', ''created_at'', ''start_time'', ''end_time'',
        ''duration'', ''retries_used'', ''error'', ''snapshotted_at'', ''args_json'',
        ''kwargs_json'', ''logs_json'', ''stacktrace'', ''encrypted_payload'', ''source'',
        ''priority'', ''executor'', ''queue'']),
   (''task_pending_requeue'',
    [''task_id'', ''func_name'', ''created_at'', ''retries_used'', ''args_json'',
        ''kwargs_json'', ''encrypted_payload'', ''queue'']),
   (''task_scheduled_once'',
    [''run_key'', ''func_name'', ''fire_at'', ''created_at'', ''args_json'', ''kwargs_json'',
        ''encrypted_payload'', ''queue'', ''priority'', ''idempotency_key'', ''tags_json''])]"

section \<open>Opening\<close>

definition sqlite_init_db :: "database \<Rightarrow> py_exc + database" where
  "sqlite_init_db d =
     bindr (run_all sqlite_tables d) (\<lambda>d1. run_all sqlite_indexes (try_all sqlite_migrations d1))"

definition postgres_init_db :: "database \<Rightarrow> py_exc + database" where
  "postgres_init_db d =
     bindr (run_all postgres_tables d) (\<lambda>d1.
     bindr (run_all postgres_migrations d1) (run_all postgres_indexes))"

definition mysql_init_db :: "database \<Rightarrow> py_exc + database" where
  "mysql_init_db d =
     bindr (run_all mysql_tables d) (\<lambda>d1. Inr (try_all mysql_indexes (try_all mysql_migrations d1)))"

datatype sql_backend = Sqlite | Postgres | Mysql

fun init_db :: "sql_backend \<Rightarrow> database \<Rightarrow> py_exc + database" where
  "init_db Sqlite = sqlite_init_db"
| "init_db Postgres = postgres_init_db"
| "init_db Mysql = mysql_init_db"

section \<open>Databases of earlier versions\<close>

text \<open>A table of an earlier version has at least these columns; a table may be missing altogether.\<close>

definition first_columns :: "sql_backend \<Rightarrow> (string \<times> string list) list" where
  "first_columns b =
     (case b of
        Sqlite \<Rightarrow>
          [(''task_snapshots'', [''task_id'', ''func_name'', ''status'', ''created_at'', ''start_time'',
              ''end_time'', ''duration'', ''retries_used'', ''error'', ''snapshotted_at'']),
           (''task_pending_requeue'', [''task_id'', ''func_name'', ''created_at'', ''retries_used'',
              ''args_json'', ''kwargs_json''])]
      | _ \<Rightarrow>
          [(''task_snapshots'', [''task_id'', ''func_name'', ''status'', ''created_at'', ''start_time'',
              ''end_time'', ''duration'', ''retries_used'', ''error'', ''snapshotted_at'', ''args_json'',
              ''kwargs_json'', ''logs_json'', ''stacktrace'', ''encrypted_payload'', ''source'', ''priority'']),
           (''task_pending_requeue'', [''task_id'', ''func_name'', ''created_at'', ''retries_used'',
              ''args_json'', ''kwargs_json'', ''encrypted_payload''])])
     @ [(''task_scheduled_once'', [''run_key'', ''func_name'', ''fire_at'', ''created_at'', ''args_json'',
           ''kwargs_json'', ''encrypted_payload'', ''queue'', ''priority'', ''idempotency_key'', ''tags_json''])]"

definition columns_of :: "database \<Rightarrow> string \<Rightarrow> string set option" where
  "columns_of d n = map_option (\<lambda>t. set (dkeys (tb_columns t))) (dget (df_tables d) n)"

definition older :: "sql_backend \<Rightarrow> database \<Rightarrow> bool" where
  "older b d \<longleftrightarrow> (\<forall>(n, cs) \<in> set (first_columns b). \<forall>have. columns_of d n = Some have \<longrightarrow> set cs \<subseteq> have)"

definition has_columns :: "database \<Rightarrow> string \<Rightarrow> string set \<Rightarrow> bool" where
  "has_columns d n cs \<longleftrightarrow> (\<exists>have. columns_of d n = Some have \<and> cs \<subseteq> have)"

definition writable :: "database \<Rightarrow> bool" where
  "writable d \<longleftrightarrow> (\<forall>(n, cs) \<in> set upsert_columns. has_columns d n (set cs))"

text \<open>Every table is still there with its columns first, and its rows have their values and the defaults of
  the new columns.\<close>

definition grown :: "db_table \<Rightarrow> column list \<Rightarrow> db_table" where
  "grown t new = \<lparr>tb_columns = tb_columns t @ new, tb_rows = map (\<lambda>r. r @ new) (tb_rows t)\<rparr>"

definition extends :: "database \<Rightarrow> database \<Rightarrow> bool" where
  "extends d d' \<longleftrightarrow>
     (\<forall>n t. dget (df_tables d) n = Some t \<longrightarrow> (\<exists>new. dget (df_tables d') n = Some (grown t new)))"

lemma grown_Nil [simp]: "grown t [] = t"
  by (simp add: grown_def)

lemma grown_self [simp]: "\<exists>new. t = grown t new" "\<exists>new. grown t a = grown t new"
  by (metis grown_Nil) blast

lemma grown_grown [simp]: "grown (grown t a) b = grown t (a @ b)"
  by (simp add: grown_def)

lemma add_column_grown: "add_column c t = grown t [c]"
  by (simp add: add_column_def grown_def)

lemma extends_refl [simp]: "extends d d"
  unfolding extends_def by (metis grown_Nil)

lemma extends_trans: "extends d1 d2 \<Longrightarrow> extends d2 d3 \<Longrightarrow> extends d1 d3"
  unfolding extends_def by (metis grown_grown)

lemma run_ddl_extends: "run_ddl x d = Inr d' \<Longrightarrow> extends d d'"
proof (cases x)
  case (Create_Table n cols)
  moreover assume "run_ddl x d = Inr d'"
  ultimately show ?thesis
    by (auto simp: extends_def split: if_splits)
next
  case (Add_Column b n c)
  assume "run_ddl x d = Inr d'"
  then show ?thesis
    using Add_Column by (auto simp: extends_def add_column_grown split: option.splits if_splits)
next
  case (Create_Index b i n cols)
  assume "run_ddl x d = Inr d'"
  then show ?thesis
    using Create_Index by (auto simp: extends_def split: option.splits if_splits)
qed

lemma run_all_extends: "run_all xs d = Inr d' \<Longrightarrow> extends d d'"
  by (induction xs arbitrary: d)
    (auto simp: bindr_def split: sum.splits intro: extends_trans run_ddl_extends)

lemma try_all_extends: "extends d (try_all xs d)"
  by (induction xs arbitrary: d)
    (auto split: sum.split intro: extends_trans run_ddl_extends)

lemma extends_columns: "extends d d' \<Longrightarrow> has_columns d n cs \<Longrightarrow> has_columns d' n cs"
  by (fastforce simp: extends_def has_columns_def columns_of_def grown_def)

lemma has_columns_Un: "has_columns d n a \<Longrightarrow> has_columns d n b \<Longrightarrow> has_columns d n (a \<union> b)"
  by (auto simp: has_columns_def)

lemma has_columns_mono: "has_columns d n a \<Longrightarrow> b \<subseteq> a \<Longrightarrow> has_columns d n b"
  by (auto simp: has_columns_def)

lemma create_tables:
  assumes "list_all (\<lambda>x. case x of Create_Table n cols \<Rightarrow> n = t \<longrightarrow> cs \<subseteq> set (dkeys cols) | _ \<Rightarrow> False) xs"
    and "columns_of d t \<noteq> None \<or> (\<exists>cols. Create_Table t cols \<in> set xs)"
    and "\<And>have. columns_of d t = Some have \<Longrightarrow> cs \<subseteq> have"
  shows "\<exists>d'. run_all xs d = Inr d' \<and> has_columns d' t cs"
  using assms
proof (induction xs arbitrary: d)
  case Nil
  then show ?case by (auto simp: has_columns_def)
next
  case (Cons x xs)
  then obtain n cols where x: "x = Create_Table n cols" "n = t \<longrightarrow> cs \<subseteq> set (dkeys cols)"
    by (cases x) auto
  obtain d1 where d1: "run_ddl x d = Inr d1"
    by (cases "run_ddl x d") (auto simp: x(1) split: if_splits)
  have "columns_of d1 t \<noteq> None \<or> (\<exists>cols. Create_Table t cols \<in> set xs)"
    using Cons.prems(2) d1 x(1) by (auto simp: columns_of_def split: if_splits)
  moreover have "cs \<subseteq> S" if S: "columns_of d1 t = Some S" for S
  proof (cases "columns_of d n = None \<and> t = n")
    case True
    then have "columns_of d1 t = Some (set (dkeys cols))" using d1 x(1) by (auto simp: columns_of_def)
    then have "S = set (dkeys cols)" using S by (simp only: option.inject)
    then show ?thesis using x(2) True by simp
  next
    case False
    then have "columns_of d t = Some S" using S d1 x(1) by (auto simp: columns_of_def split: if_splits)
    then show ?thesis by (rule Cons.prems(3))
  qed
  ultimately show ?case using Cons.IH [of d1] Cons.prems(1) d1 by simp
qed

text \<open>A migration whose error is passed over, or that asks first, leaves the column in the table.\<close>

lemma add_column_has:
  "columns_of d n \<noteq> None \<Longrightarrow>
   has_columns (case run_ddl (Add_Column b n c) d of Inl _ \<Rightarrow> d | Inr d' \<Rightarrow> d') n {fst c}"
  by (auto simp: has_columns_def columns_of_def add_column_def split: option.splits)

lemma has_columns_exists: "has_columns d n cs \<Longrightarrow> columns_of d n \<noteq> None"
  by (auto simp: has_columns_def)

lemma try_adds_has:
  assumes "columns_of d n \<noteq> None" and "Add_Column b n c \<in> set xs"
  shows "has_columns (try_all xs d) n {fst c}"
  using assms
proof (induction xs arbitrary: d)
  case (Cons x xs)
  let ?d = "case run_ddl x d of Inl _ \<Rightarrow> d | Inr d' \<Rightarrow> d'"
  have e: "extends d ?d" by (auto split: sum.split intro: run_ddl_extends)
  show ?case
  proof (cases "x = Add_Column b n c")
    case True
    then have "has_columns ?d n {fst c}" using add_column_has [OF Cons.prems(1), of b c] by (simp only:)
    then show ?thesis using extends_columns [OF try_all_extends] by simp
  next
    case False
    have "has_columns d n {}" using Cons.prems(1) by (auto simp: has_columns_def)
    then have "columns_of ?d n \<noteq> None" using extends_columns [OF e] has_columns_exists by blast
    then show ?thesis using Cons.IH [of ?d] Cons.prems(2) False by simp
  qed
qed simp

text \<open>Statements that ask first do the same whether or not an error would be passed over.\<close>

lemma run_adds:
  assumes "list_all (\<lambda>x. case x of Add_Column b n c \<Rightarrow> b \<and> columns_of d n \<noteq> None | _ \<Rightarrow> False) xs"
  shows "run_all xs d = Inr (try_all xs d)"
  using assms
proof (induction xs arbitrary: d)
  case (Cons x xs)
  then obtain n c where x: "x = Add_Column True n c" "columns_of d n \<noteq> None" by (cases x) auto
  then obtain d1 where d1: "run_ddl x d = Inr d1"
    by (cases "run_ddl x d") (auto simp: columns_of_def split: if_splits)
  have e: "extends d d1" using d1 by (rule run_ddl_extends)
  have "columns_of d n \<noteq> None \<Longrightarrow> columns_of d1 n \<noteq> None" for n
    using extends_columns [OF e, of n "{}"] by (auto simp: has_columns_def)
  then have "list_all (\<lambda>x. case x of Add_Column b n c \<Rightarrow> b \<and> columns_of d1 n \<noteq> None | _ \<Rightarrow> False) xs"
    using Cons.prems by (auto simp: list_all_iff split: ddl.splits)
  then show ?case using Cons.IH d1 by simp
qed simp

lemma make_indexes:
  assumes "list_all (\<lambda>x. case x of Create_Index b i n cols \<Rightarrow> b \<and> has_columns d n (set cols) | _ \<Rightarrow> False) xs"
  shows "run_all xs d = Inr (try_all xs d) \<and> df_tables (try_all xs d) = df_tables d"
  using assms
proof (induction xs arbitrary: d)
  case (Cons x xs)
  then obtain i n cols where x: "x = Create_Index True i n cols" "has_columns d n (set cols)"
    by (cases x) auto
  then obtain d1 where d1: "run_ddl x d = Inr d1" "df_tables d1 = df_tables d"
    by (cases "run_ddl x d") (auto simp: has_columns_def columns_of_def split: if_splits)
  then have "has_columns d1 = has_columns d" by (auto simp: fun_eq_iff has_columns_def columns_of_def)
  moreover have "list_all (\<lambda>x. case x of Create_Index b i n cols \<Rightarrow> b \<and> has_columns d n (set cols) | _ \<Rightarrow> False) xs"
    using Cons.prems by simp
  ultimately show ?case using Cons.IH [of d1] d1 by (simp only: run_all.simps try_all.simps bindr_simps sum.case)
qed simp

text \<open>The parts put together, for any lists of statements of these forms.\<close>

definition tables_cover :: "ddl list \<Rightarrow> (string \<times> string list) list \<Rightarrow> bool" where
  "tables_cover tabs first \<longleftrightarrow> list_all (\<lambda>(n, cs).
     list_all (\<lambda>x. case x of Create_Table n' cols \<Rightarrow> n' = n \<longrightarrow> set cs \<subseteq> set (dkeys cols) | _ \<Rightarrow> False) tabs
     \<and> list_ex (\<lambda>x. case x of Create_Table n' cols \<Rightarrow> n' = n | _ \<Rightarrow> False) tabs) first"

definition migrated :: "ddl list \<Rightarrow> string \<Rightarrow> string set" where
  "migrated ms n = set (concat (map (\<lambda>x. case x of Add_Column b n' c \<Rightarrow> if n' = n then [fst c] else [] | _ \<Rightarrow> []) ms))"

definition columns_cover :: "ddl list \<Rightarrow> (string \<times> string list) list \<Rightarrow> bool" where
  "columns_cover ms first \<longleftrightarrow> list_all (\<lambda>(n, cs).
     list_ex (\<lambda>(n', cs'). n' = n \<and> set cs \<subseteq> set cs' \<union> migrated ms n) first) upsert_columns"

lemma creates_table:
  "list_ex (\<lambda>x. case x of Create_Table n' cols \<Rightarrow> n' = n | _ \<Rightarrow> False) xs \<Longrightarrow> \<exists>cols. Create_Table n cols \<in> set xs"
  by (induction xs) (auto split: ddl.splits)

lemma tables_made:
  assumes "tables_cover tabs (first_columns b)" and "older b d"
  shows "\<exists>d1. run_all tabs d = Inr d1 \<and> (\<forall>(n, cs) \<in> set (first_columns b). has_columns d1 n (set cs))"
proof -
  have one: "\<exists>d1. run_all tabs d = Inr d1 \<and> has_columns d1 n (set cs)"
    if "(n, cs) \<in> set (first_columns b)" for n cs
  proof (rule create_tables)
    have cc: "list_all (\<lambda>x. case x of Create_Table n' cols \<Rightarrow> n' = n \<longrightarrow> set cs \<subseteq> set (dkeys cols) | _ \<Rightarrow> False) tabs
      \<and> list_ex (\<lambda>x. case x of Create_Table n' cols \<Rightarrow> n' = n | _ \<Rightarrow> False) tabs"
      using bspec [OF assms(1) [unfolded tables_cover_def list_all_iff] that]
      unfolding prod.case list_all_iff .
    note c = conjunct1 [OF cc] conjunct2 [OF cc]
    show "list_all (\<lambda>x. case x of Create_Table n' cols \<Rightarrow> n' = n \<longrightarrow> set cs \<subseteq> set (dkeys cols) | _ \<Rightarrow> False) tabs"
      by (rule c(1))
    have "\<exists>cols. Create_Table n cols \<in> set tabs"
      using c(2) by (rule creates_table)
    then show "columns_of d n \<noteq> None \<or> (\<exists>cols. Create_Table n cols \<in> set tabs)" ..
    show "set cs \<subseteq> S" if "columns_of d n = Some S" for S
      using bspec [OF assms(2) [unfolded older_def] \<open>(n, cs) \<in> _\<close>] that by simp
  qed
  have "(''task_scheduled_once'', snd (last (first_columns b))) \<in> set (first_columns b)"
    by (simp add: first_columns_def)
  from one [OF this] obtain d1 where "run_all tabs d = Inr d1" by blast
  then show ?thesis using one by fastforce
qed

lemma migrations_done:
  assumes "\<forall>(n, cs) \<in> set first. has_columns d n (set cs)" and "columns_cover ms first"
  shows "writable (try_all ms d)"
proof -
  have "has_columns (try_all ms d) n (set cs)" if u: "(n, cs) \<in> set upsert_columns" for n cs
  proof -
    obtain cs' where f: "(n, cs') \<in> set first" "set cs \<subseteq> set cs' \<union> migrated ms n"
      using u assms(2) by (force simp: columns_cover_def list_all_iff list_ex_iff)
    have d: "has_columns d n (set cs')" using f(1) assms(1) by auto
    have "has_columns (try_all ms d) n {c}" if "c \<in> migrated ms n" for c
      using that try_adds_has [OF has_columns_exists [OF d]]
      by (fastforce simp: migrated_def split: ddl.splits if_splits)
    moreover have "has_columns (try_all ms d) n (set cs')" using d extends_columns [OF try_all_extends] by blast
    ultimately show ?thesis using f(2) by (fastforce simp: has_columns_def)
  qed
  then show ?thesis by (auto simp: writable_def)
qed

lemma covers:
  "tables_cover sqlite_tables (first_columns Sqlite)" "tables_cover postgres_tables (first_columns Postgres)"
  "tables_cover mysql_tables (first_columns Mysql)"
  "columns_cover sqlite_migrations (first_columns Sqlite)" "columns_cover postgres_migrations (first_columns Postgres)"
  "columns_cover mysql_migrations (first_columns Mysql)"
  by code_simp+

definition indexes_cover :: "ddl list \<Rightarrow> bool" where
  "indexes_cover xs \<longleftrightarrow> list_all (\<lambda>x. case x of
     Create_Index b i n cols \<Rightarrow> list_ex (\<lambda>(n', cs). n' = n \<and> set cols \<subseteq> set cs) upsert_columns | _ \<Rightarrow> False) xs"

lemma indexes_covered:
  "indexes_cover sqlite_indexes" "indexes_cover postgres_indexes" "indexes_cover mysql_indexes"
  by code_simp+

lemma writable_indexes:
  assumes "writable d" and "indexes_cover xs" and "Create_Index b i n cols \<in> set xs"
  shows "has_columns d n (set cols)"
proof -
  obtain cs where "(n, cs) \<in> set upsert_columns" "set cols \<subseteq> set cs"
    using assms(2,3) by (fastforce simp: indexes_cover_def list_all_iff list_ex_iff)
  then show ?thesis using assms(1) has_columns_mono by (fastforce simp: writable_def)
qed

lemma indexes_only:
  "indexes_cover xs \<Longrightarrow> x \<in> set xs \<Longrightarrow> \<exists>b i n cols. x = Create_Index b i n cols"
  by (cases x) (auto simp: indexes_cover_def list_all_iff)

lemma run_ddl_indexes: "run_ddl x d = Inr d' \<Longrightarrow> set (df_indexes d) \<subseteq> set (df_indexes d')"
  by (cases x) (auto split: option.splits if_splits)

lemma try_all_indexes: "set (df_indexes d) \<subseteq> set (df_indexes (try_all xs d))"
  by (induction xs arbitrary: d) (auto split: sum.split dest!: run_ddl_indexes)

lemma try_indexes_has:
  assumes "Create_Index b i n cols \<in> set xs" and "has_columns d n (set cols)"
  shows "i \<in> set (df_indexes (try_all xs d))"
  using assms
proof (induction xs arbitrary: d)
  case (Cons x xs)
  let ?d = "case run_ddl x d of Inl _ \<Rightarrow> d | Inr d' \<Rightarrow> d'"
  show ?case
  proof (cases "x = Create_Index b i n cols")
    case True
    then have "i \<in> set (df_indexes ?d)"
      using Cons.prems(2) by (auto simp: has_columns_def columns_of_def split: option.split)
    then show ?thesis using try_all_indexes by auto
  next
    case False
    have "extends d ?d" by (auto split: sum.split intro: run_ddl_extends)
    then show ?thesis
      using Cons.IH [of ?d] Cons.prems False extends_columns by (metis set_ConsD try_all.simps(2))
  qed
qed simp

text \<open>A statement with nothing left to do.\<close>

definition settled :: "ddl \<Rightarrow> database \<Rightarrow> bool" where
  "settled x d \<longleftrightarrow>
     (case x of
        Create_Table n cols \<Rightarrow> columns_of d n \<noteq> None
      | Add_Column b n c \<Rightarrow> has_columns d n {fst c}
      | Create_Index b i n cols \<Rightarrow> i \<in> set (df_indexes d))"

lemma settled_try: "\<forall>x \<in> set xs. settled x d \<Longrightarrow> try_all xs d = d"
proof (induction xs)
  case (Cons x xs)
  then have "settled x d" by simp
  then have "(case run_ddl x d of Inl _ \<Rightarrow> d | Inr d' \<Rightarrow> d') = d"
    by (cases x) (auto simp: settled_def has_columns_def columns_of_def simp del: set_map)
  then show ?case using Cons by simp
qed simp

lemma settled_run:
  "\<forall>x \<in> set xs. settled x d \<and> (case x of Add_Column b n c \<Rightarrow> b | Create_Index b i n cols \<Rightarrow> b | _ \<Rightarrow> True) \<Longrightarrow>
   run_all xs d = Inr d"
proof (induction xs)
  case (Cons x xs)
  then have "settled x d \<and> (case x of Add_Column b n c \<Rightarrow> b | Create_Index b i n cols \<Rightarrow> b | _ \<Rightarrow> True)" by simp
  then have "run_ddl x d = Inr d"
    by (cases x) (auto simp: settled_def has_columns_def columns_of_def simp del: set_map)
  then show ?case using Cons by simp
qed simp

text \<open>What opening leaves: the tables made, the columns added, the indexes made.\<close>

definition creates_only :: "ddl list \<Rightarrow> bool" where
  "creates_only xs \<longleftrightarrow> list_all (\<lambda>x. case x of Create_Table n cols \<Rightarrow> True | _ \<Rightarrow> False) xs"

definition adds_only :: "ddl list \<Rightarrow> bool" where
  "adds_only xs \<longleftrightarrow> list_all (\<lambda>x. case x of
     Add_Column b n c \<Rightarrow> list_ex (\<lambda>(n', cs). n' = n) upsert_columns | _ \<Rightarrow> False) xs"

lemma statement_kinds:
  "creates_only sqlite_tables" "creates_only postgres_tables" "creates_only mysql_tables"
  "adds_only sqlite_migrations" "adds_only postgres_migrations" "adds_only mysql_migrations"
  by code_simp+

lemma tables_exist:
  assumes "creates_only tabs" and "run_all tabs d = Inr d1" and "Create_Table n cols \<in> set tabs"
  shows "columns_of d1 n \<noteq> None"
proof -
  have "list_all (\<lambda>x. case x of Create_Table n' cols \<Rightarrow> n' = n \<longrightarrow> {} \<subseteq> set (dkeys cols) | _ \<Rightarrow> False) tabs"
    using assms(1) by (auto simp: creates_only_def list_all_iff split: ddl.splits)
  from create_tables [OF this, of d] assms(2,3) show ?thesis by (auto simp: has_columns_def)
qed

lemma creates_only: "creates_only xs \<Longrightarrow> x \<in> set xs \<Longrightarrow> \<exists>n cols. x = Create_Table n cols"
  by (cases x) (auto simp: creates_only_def list_all_iff)

lemma adds_only:
  "adds_only xs \<Longrightarrow> x \<in> set xs \<Longrightarrow>
   \<exists>b n c. x = Add_Column b n c \<and> list_ex (\<lambda>(n', cs). n' = n) upsert_columns"
  by (cases x) (auto simp: adds_only_def list_all_iff)

lemma opened_settled:
  assumes "creates_only tabs" and "adds_only ms" and "indexes_cover ixs" and "run_all tabs d = Inr d1"
    and "writable (try_all ms d1)" and "\<forall>(n, cs) \<in> set upsert_columns. columns_of d1 n \<noteq> None"
  shows "\<forall>x \<in> set (tabs @ ms @ ixs). settled x (try_all ixs (try_all ms d1))"
proof
  fix x assume "x \<in> set (tabs @ ms @ ixs)"
  then consider "x \<in> set tabs" | "x \<in> set ms" | "x \<in> set ixs" by auto
  then show "settled x (try_all ixs (try_all ms d1))"
  proof cases
    case 1
    then obtain n cols where x: "x = Create_Table n cols"
      using creates_only [OF assms(1)] by blast
    have "has_columns d1 n {}" using tables_exist [OF assms(1,4)] 1 x by (auto simp: has_columns_def)
    then have "has_columns (try_all ixs (try_all ms d1)) n {}"
      using extends_columns extends_trans try_all_extends by metis
    then show ?thesis by (auto simp: settled_def x has_columns_def)
  next
    case 2
    then obtain b n c where x: "x = Add_Column b n c" and u: "list_ex (\<lambda>(n', cs). n' = n) upsert_columns"
      using adds_only [OF assms(2)] by blast
    have "columns_of d1 n \<noteq> None" using u assms(6) by (fastforce simp: list_ex_iff)
    from try_adds_has [OF this] 2 x have "has_columns (try_all ms d1) n {fst c}" by blast
    then show ?thesis
      using extends_columns [OF try_all_extends] by (simp add: settled_def x)
  next
    case 3
    then obtain b i n cols where x: "x = Create_Index b i n cols" using indexes_only [OF assms(3)] by blast
    then show ?thesis
      using try_indexes_has [OF _ writable_indexes [OF assms(5,3)]] 3 by (fastforce simp: settled_def)
  qed
qed

definition asks_first :: "ddl list \<Rightarrow> bool" where
  "asks_first xs \<longleftrightarrow> list_all (\<lambda>x. case x of Add_Column b n c \<Rightarrow> b | Create_Index b i n cols \<Rightarrow> b | _ \<Rightarrow> True) xs"

lemma statements_ask:
  "asks_first sqlite_tables" "asks_first sqlite_indexes" "asks_first postgres_tables"
  "asks_first postgres_migrations" "asks_first postgres_indexes" "asks_first mysql_tables"
  by code_simp+

lemma asks_first: "asks_first xs \<Longrightarrow> \<forall>x \<in> set xs. settled x d \<Longrightarrow> run_all xs d = Inr d"
  by (rule settled_run) (simp add: asks_first_def list_all_iff)

lemma first_names: "list_all (\<lambda>(n, cs). list_ex (\<lambda>(n', cs'). n' = n) (first_columns b)) upsert_columns"
  by (cases b) (simp_all add: first_columns_def upsert_columns_def)

lemma opened:
  assumes "tables_cover tabs (first_columns b)" and "columns_cover ms (first_columns b)"
    and "creates_only tabs" and "adds_only ms" and "indexes_cover ixs" and "older b d"
  obtains d1 where "run_all tabs d = Inr d1"
    and "asks_first ms \<Longrightarrow> run_all ms d1 = Inr (try_all ms d1)"
    and "asks_first ixs \<Longrightarrow> run_all ixs (try_all ms d1) = Inr (try_all ixs (try_all ms d1))"
    and "extends d (try_all ixs (try_all ms d1))" and "writable (try_all ixs (try_all ms d1))"
    and "\<forall>x \<in> set (tabs @ ms @ ixs). settled x (try_all ixs (try_all ms d1))"
proof -
  obtain d1 where d1: "run_all tabs d = Inr d1" "\<forall>(n, cs) \<in> set (first_columns b). has_columns d1 n (set cs)"
    using tables_made [OF assms(1,6)] by blast
  have w: "writable (try_all ms d1)" by (rule migrations_done [OF d1(2) assms(2)])
  have names: "\<forall>(n, cs) \<in> set upsert_columns. columns_of d1 n \<noteq> None"
    using first_names [of b] d1(2) has_columns_exists by (fastforce simp: list_all_iff list_ex_iff)
  have "run_all ms d1 = Inr (try_all ms d1)" if "asks_first ms"
  proof (rule run_adds, unfold list_all_iff, rule ballI)
    fix x assume x: "x \<in> set ms"
    then obtain b n c where "x = Add_Column b n c" "list_ex (\<lambda>(n', cs). n' = n) upsert_columns"
      using adds_only [OF assms(4)] by blast
    then show "case x of Add_Column b n c \<Rightarrow> b \<and> columns_of d1 n \<noteq> None | _ \<Rightarrow> False"
      using that x names by (fastforce simp: asks_first_def list_all_iff list_ex_iff)
  qed
  moreover have "run_all ixs (try_all ms d1) = Inr (try_all ixs (try_all ms d1))" if "asks_first ixs"
  proof (rule conjunct1 [OF make_indexes], unfold list_all_iff, rule ballI)
    fix x assume x: "x \<in> set ixs"
    then obtain b i n cols where "x = Create_Index b i n cols" using indexes_only [OF assms(5)] by blast
    then show "case x of Create_Index b i n cols \<Rightarrow> b \<and> has_columns (try_all ms d1) n (set cols) | _ \<Rightarrow> False"
      using that x writable_indexes [OF w assms(5)] by (fastforce simp: asks_first_def list_all_iff)
  qed
  moreover have "extends d (try_all ixs (try_all ms d1))"
    using run_all_extends [OF d1(1)] try_all_extends extends_trans by blast
  moreover have "writable (try_all ixs (try_all ms d1))"
    using w extends_columns [OF try_all_extends] by (fastforce simp: writable_def)
  ultimately show ?thesis
    using that d1(1) opened_settled [OF assms(3,4,5) d1(1) w names] by blast
qed

text \<open>C22: Opening a database of any earlier version, with any of the tables missing and any of the later
  columns missing, succeeds on each SQL backend and leaves every column the writing statements name.
  No table, column or row is lost: the rows keep their values and get the defaults of the new columns.
  Opening it again changes nothing.
\<close>
theorem database_upgraded:
  assumes "older b d"
  shows "\<exists>d'. init_db b d = Inr d' \<and> writable d' \<and> extends d d' \<and> init_db b d' = Inr d'"
proof (cases b)
  case Sqlite
  from assms [unfolded Sqlite] obtain d1 where d1: "run_all sqlite_tables d = Inr d1"
      "run_all sqlite_indexes (try_all sqlite_migrations d1) = Inr (try_all sqlite_indexes (try_all sqlite_migrations d1))"
      "extends d (try_all sqlite_indexes (try_all sqlite_migrations d1))"
      "writable (try_all sqlite_indexes (try_all sqlite_migrations d1))"
      "\<forall>x \<in> set (sqlite_tables @ sqlite_migrations @ sqlite_indexes).
         settled x (try_all sqlite_indexes (try_all sqlite_migrations d1))"
    using opened [OF covers(1,4) statement_kinds(1,4) indexes_covered(1)] statements_ask by metis
  then show ?thesis
    using asks_first [OF statements_ask(1)] asks_first [OF statements_ask(2)] settled_try [of sqlite_migrations]
    by (simp add: Sqlite sqlite_init_db_def)
next
  case Postgres
  from assms [unfolded Postgres] obtain d1 where d1: "run_all postgres_tables d = Inr d1"
      "run_all postgres_migrations d1 = Inr (try_all postgres_migrations d1)"
      "run_all postgres_indexes (try_all postgres_migrations d1) = Inr (try_all postgres_indexes (try_all postgres_migrations d1))"
      "extends d (try_all postgres_indexes (try_all postgres_migrations d1))"
      "writable (try_all postgres_indexes (try_all postgres_migrations d1))"
      "\<forall>x \<in> set (postgres_tables @ postgres_migrations @ postgres_indexes).
         settled x (try_all postgres_indexes (try_all postgres_migrations d1))"
    using opened [OF covers(2,5) statement_kinds(2,5) indexes_covered(2)] statements_ask by metis
  then show ?thesis
    using asks_first [OF statements_ask(3)] asks_first [OF statements_ask(4)] asks_first [OF statements_ask(5)]
    by (simp add: Postgres postgres_init_db_def)
next
  case Mysql
  from assms [unfolded Mysql] obtain d1 where d1: "run_all mysql_tables d = Inr d1"
      "extends d (try_all mysql_indexes (try_all mysql_migrations d1))"
      "writable (try_all mysql_indexes (try_all mysql_migrations d1))"
      "\<forall>x \<in> set (mysql_tables @ mysql_migrations @ mysql_indexes).
         settled x (try_all mysql_indexes (try_all mysql_migrations d1))"
    using opened [OF covers(3,6) statement_kinds(3,6) indexes_covered(3)] by metis
  then show ?thesis
    using asks_first [OF statements_ask(6)] settled_try [of mysql_migrations] settled_try [of mysql_indexes]
    by (simp add: Mysql mysql_init_db_def)
qed

text \<open>A history file of the first version, with one row and none of the other tables.\<close>

definition ex_old :: database where
  "ex_old =
     \<lparr>df_tables =
        [(''task_snapshots'',
          \<lparr>tb_columns = no_default [''task_id'', ''func_name'', ''status'', ''created_at'', ''start_time'',
             ''end_time'', ''duration'', ''retries_used'', ''error'', ''snapshotted_at''],
           tb_rows = [[(''task_id'', Some ''t1''), (''status'', Some ''success'')]]\<rparr>)],
      df_indexes = []\<rparr>"

lemma database_upgraded_witness:
  "older Sqlite ex_old
   \<and> (\<exists>d'. init_db Sqlite ex_old = Inr d' \<and> writable d' \<and> extends ex_old d' \<and> init_db Sqlite d' = Inr d')"
proof -
  have "older Sqlite ex_old"
    by (simp add: older_def ex_old_def first_columns_def columns_of_def no_default_def)
  then show ?thesis using database_upgraded [of Sqlite ex_old] by (intro conjI)
qed

section \<open>The address of a MySQL server\<close>

text \<open>
  What \<open>urlparse\<close> and \<open>parse_qs\<close> (which keeps blank values) of the standard library make of the address:
  the parts as the address spells them, and the query as a dictionary of lists.
\<close>

record parsed_url =
  pu_hostname :: "string option"
  pu_port :: "int option"
  pu_username :: "string option"
  pu_password :: "string option"
  pu_path :: string
  pu_query :: "(string, string list) dict"

definition or_text :: "string option \<Rightarrow> string \<Rightarrow> pyval" where
  "or_text x dflt = (case x of None \<Rightarrow> VStr dflt | Some s \<Rightarrow> VStr (if s = [] then dflt else s))"

fun query_options :: "(string, string list) dict \<Rightarrow> (string, pyval) dict \<Rightarrow> py_exc + (string, pyval) dict" where
  "query_options [] d = Inr d"
| "query_options ((k, vs) # qs) d =
     (let v = (case vs of [x] \<Rightarrow> VStr x | _ \<Rightarrow> VList (map VStr vs))
      in if k = ''ssl-mode''
         then query_options qs
                (case v of
                   VStr x \<Rightarrow> if upper x \<noteq> ''DISABLED'' \<and> dget d ''ssl'' = None then dset ''ssl'' (VDict []) d else d
                 | _ \<Rightarrow> d)
         else if CHR ''-'' \<in> set k
         then Inl (ValueError (''MySQLBackend: unsupported query parameter '' @ k))
         else query_options qs (dset k v d))"

definition my_parse_url :: "parsed_url \<Rightarrow> py_exc + (string, pyval) dict" where
  "my_parse_url u =
     query_options (pu_query u)
       [(''host'', or_text (pu_hostname u) ''localhost''),
        (''port'', VInt (case pu_port u of None \<Rightarrow> 3306 | Some n \<Rightarrow> if n = 0 then 3306 else n)),
        (''user'', or_text (pu_username u) ''root''),
        (''password'', or_text (pu_password u) []),
        (''database'', VStr (dropWhile (\<lambda>c. c = CHR ''/'') (pu_path u)))]"

text \<open>Without a query the parts are the options; the last of several values is a list.\<close>

lemma my_parse_plain:
  "pu_query u = [] \<Longrightarrow> \<exists>d. my_parse_url u = Inr d \<and> dget d ''password'' = Some (or_text (pu_password u) [])"
  by (simp add: my_parse_url_def)

text \<open>A name with a hyphen is refused unless it is the one of the command line client.\<close>

lemma hyphen_refused:
  "(k, vs) \<in> set qs \<Longrightarrow> CHR ''-'' \<in> set k \<Longrightarrow> k \<noteq> ''ssl-mode'' \<Longrightarrow> \<exists>e. query_options qs d = Inl e"
  by (induction qs d rule: query_options.induct) (auto simp: Let_def)

lemma hyphen_free_accepted:
  "\<forall>(k, vs) \<in> set qs. CHR ''-'' \<notin> set k \<or> k = ''ssl-mode'' \<Longrightarrow> \<exists>d'. query_options qs d = Inr d'"
proof (induction qs arbitrary: d)
  case (Cons q qs)
  obtain k vs where q: "q = (k, vs)" by (cases q)
  have k: "CHR ''-'' \<notin> set k \<or> k = ''ssl-mode''" using Cons.prems q by auto
  have ih: "\<exists>d'. query_options qs e = Inr d'" for e using Cons.IH Cons.prems by simp
  show ?case
  proof (cases "k = ''ssl-mode''")
    case True
    then show ?thesis unfolding q query_options.simps Let_def by (simp only: if_True simp_thms) (rule ih)
  next
    case False
    then show ?thesis using k unfolding q query_options.simps Let_def by (simp only: if_False simp_thms) (rule ih)
  qed
qed simp

text \<open>Every option of the query reaches the driver as text: a number or a false flag is a string.\<close>

definition text_value :: "pyval \<Rightarrow> bool" where
  "text_value v \<longleftrightarrow> (\<exists>x. v = VStr x) \<or> (\<exists>xs. v = VList (map VStr xs))"

lemma query_texts: "text_value (case vs of [x] \<Rightarrow> VStr x | _ \<Rightarrow> VList (map VStr vs))"
proof (cases vs)
  case (Cons a as)
  then show ?thesis by (cases as) (simp_all add: text_value_def, metis list.map(2))
qed (simp add: text_value_def)

lemma options_are_text:
  "query_options qs d = Inr d' \<Longrightarrow> k \<noteq> ''ssl'' \<Longrightarrow>
   dget d' k = dget d k \<or> (\<exists>v. dget d' k = Some v \<and> text_value v)"
proof (induction qs d rule: query_options.induct)
  case (2 j vs qs d)
  let ?v = "case vs of [x] \<Rightarrow> VStr x | _ \<Rightarrow> VList (map VStr vs)"
  show ?case
  proof (cases "j = ''ssl-mode''")
    case True
    let ?d = "case ?v of VStr x \<Rightarrow> if upper x \<noteq> ''DISABLED'' \<and> dget d ''ssl'' = None then dset ''ssl'' (VDict []) d else d | _ \<Rightarrow> d"
    have "dget ?d k = dget d k" using 2(4) by (simp split: pyval.split)
    moreover have "query_options qs ?d = Inr d'" using 2(3) True by (simp add: Let_def)
    ultimately show ?thesis using 2(1) [OF refl True _ 2(4)] by simp
  next
    case False
    have h: "CHR ''-'' \<notin> set j" using 2(3) False by (auto simp: Let_def split: if_splits)
    then have q: "query_options qs (dset j ?v d) = Inr d'" using 2(3) False by (simp add: Let_def)
    show ?thesis using 2(2) [OF refl False h q 2(4)] query_texts [of vs] by auto
  qed
qed simp

end
