(* ===== verification/Spec2Isabelle.thy ===== *)
theory Spec2Isabelle
  imports Instances_Props Queue_Props Core_Props Auth_Props System Backend_Contract Redis_Props Admin_Props
    Signals Log_Files Constructor Custom_Backend Schema
begin

text \<open>
  A model of fastapi-taskflow (\<^verbatim>\<open>src/fastapi_taskflow/\<close>), a task manager for FastAPI applications.

  \<^bold>\<open>The program.\<close> A \<open>TaskManager\<close> registers functions, stores a record for every call and decides where
  the call waits: a named queue with a concurrency limit, the priority queue, Starlette's background
  tasks of the request, or a task of the event loop. A run goes through three middlewares
  (idempotency, logging and finalisation, retry) to an executor. A snapshot scheduler writes
  finished records to a backend, classifies unfinished ones at shutdown and requeues them at the
  next start. A periodic scheduler fires recurring schedules and one-off tasks. Several instances
  share a backend: they claim pending tasks, one-offs and schedule locks from each other, and answer
  each other's requests for their live tasks. An HTTP API reads, retries and cancels tasks; a dashboard
  shows them and follows changes over an event stream.

  \<^bold>\<open>Theories, data model to composition.\<close>
  \<^item> \<open>Prelude\<close>: dictionaries as association lists, the exceptions as a datatype, the interfaces
    \<open>keyed_table\<close>, \<open>claim_once\<close>, \<open>first_writer\<close>, \<open>ttl_lock\<close> with \<open>precise_ttl_lock\<close> below it, and
    \<open>min_heap\<close> as locales.
  \<^item> \<open>Py_Values\<close>: dynamic values, JSON, timestamps and their ISO text (standard library).
  \<^item> \<open>Models\<close>, \<open>Registry\<close>, \<open>Store\<close>, \<open>Loggers\<close>: \<^verbatim>\<open>models.py\<close>, \<^verbatim>\<open>registry.py\<close>, \<^verbatim>\<open>store.py\<close> and
    \<^verbatim>\<open>loggers/\<close>; each public method is one state transformer. \<open>Log_Files\<close>: the process-wide handlers file loggers
    share, \<^verbatim>\<open>file_logger.py\<close> and the printer.
  \<^item> \<open>Heap_Order\<close>, \<open>Queues\<close>: the heap and \<open>_TaskQueue\<close> of \<^verbatim>\<open>manager.py\<close>; the drainer is a state
    machine that stops at every await, semaphores are objects with an identity.
  \<^item> \<open>Sqlite_Backend\<close>, \<open>Sql_Backends\<close>: \<^verbatim>\<open>backends/sqlite.py\<close>, \<^verbatim>\<open>postgres.py\<close>, \<^verbatim>\<open>mysql.py\<close> and
    \<^verbatim>\<open>base.py\<close>; a table is a dictionary, a method is one transaction. \<open>Custom_Backend\<close>: what a backend
    inherits from \<^verbatim>\<open>base.py\<close>. \<open>Schema\<close>: the statements that create and migrate the tables, and the
    connection options of a MySQL address.
  \<^item> \<open>Redis_Backend\<close>: \<^verbatim>\<open>backends/redis.py\<close> as the commands it sends and the replies it reads. The server
    is a parameter; \<open>redis_server\<close> states the documented effect of each command, and \<open>Redis_Memory\<close>
    is a server that has it, on which the witnesses run.
  \<^item> \<open>Executors\<close>, \<open>Execution\<close>: \<^verbatim>\<open>executors/\<close>, \<^verbatim>\<open>middleware.py\<close> and \<^verbatim>\<open>executor.py\<close>; one run of a
    task as a function of the task's body. \<open>Task_Context\<close>: the context variables of
    \<^verbatim>\<open>task_logging.py\<close> through every executor, and the semaphore of the async executor.
  \<^item> \<open>Instances\<close>: \<^verbatim>\<open>instance_registry.py\<close> and \<^verbatim>\<open>fan_out.py\<close>.
  \<^item> \<open>Manager_State\<close>, \<open>Wrapper\<close>, \<open>Snapshot\<close>, \<open>Periodic\<close>, \<open>Manager\<close>: the state of a \<open>TaskManager\<close>,
    \<open>add_task\<close> (\<^verbatim>\<open>wrapper.py\<close>), \<^verbatim>\<open>snapshot.py\<close>, \<^verbatim>\<open>periodic.py\<close>, and the rest of \<^verbatim>\<open>manager.py\<close> with
    startup and shutdown. \<open>Constructor\<close>: its \<open>__init__\<close>. \<open>Signals\<close>: its signal handlers, for any number
    of managers in one process.
  \<^item> \<open>Auth\<close>, \<open>Router\<close>: \<^verbatim>\<open>auth.py\<close> down to base64 and the JSON text of a token, and every handler of
    \<^verbatim>\<open>router.py\<close>.
  \<^item> \<open>Dashboard\<close>, \<open>Admin\<close>: \<^verbatim>\<open>dashboard/\<close> (the fragments as text, the event stream as a state machine that
    stops at every await, the page and its routes) and \<^verbatim>\<open>admin.py\<close> with the login pages: the route
    tables in their order, their guards, and the application a request is dispatched on.
  \<^item> \<open>System\<close>: all operations of one manager as one transition relation \<open>tm_step\<close>, together with the
    runs of waiting jobs and the steps of other instances.

  \<^bold>\<open>What the theorems show.\<close>
  \<^item> \<open>Execution_Facts\<close>, \<open>Execution_Props\<close>: how a run ends: retry until success, exhaustion,
    cancellation, duplicates, the backoff schedule; a cancelled waiting task still runs.
  \<^item> \<open>Queue_Props\<close>: limits, dispatch order, conservation and liveness of the queue; what a change of
    its configuration breaks.
  \<^item> \<open>Wrapper_Props\<close>: an accepted call waits exactly once; its record, duplicates, encryption.
  \<^item> \<open>Snapshot_Props\<close>, \<open>Restart_Props\<close>: saved records come back, shutdown classifies, a requeue
    dispatches once, and shutdown followed by startup runs every waiting task once.
  \<^item> \<open>Periodic_Props\<close>: a turn ends, a replaced or cancelled one-off never fires, claims and locks are
    exclusive.
  \<^item> \<open>Manager_Props\<close>, \<open>Router_Props\<close>, \<open>Instances_Props\<close>, \<open>Auth_Props\<close>: the merged view, the life of a
    queue's configuration, retries, cancellation, deletion, live peers, session tokens.
  \<^item> \<open>Backend_Contract\<close>: the contract of \<^verbatim>\<open>base.py\<close> on maps; SQLite and, under a binary collation,
    PostgreSQL refine it, so that they answer every sequence of operations alike; MySQL fails it in
    one operation. \<open>Schema\<close>: a database of any earlier version opens, complete and without loss.
    \<open>Custom_Backend\<close>: the shipped queries answer like the inherited ones (\<open>targeted_query\<close>), and what
    the inherited ones do not promise.
  \<^item> \<open>Redis_Facts\<close>, \<open>Redis_Props\<close>: the shape of the key space every command keeps, the lifetime of a saved
    record, exclusive claims and locks, pending tasks as in SQLite.
  \<^item> \<open>Dashboard_Props\<close>, \<open>Stream_Props\<close>, \<open>Admin_Props\<close>: a browser reads the values of the records and nothing
    else from the task table, the stream decodes to its events, catches up with the store and gives its
    subscriber back; every route is reachable, a login opens the dashboard, and a protected fleet does
    not see its peers.
  \<^item> \<open>Task_Context\<close>, \<open>Signals\<close>, \<open>Log_Files\<close>, \<open>Constructor\<close>: a task sees its own context and sink however it
    is dispatched; a signal reaches every manager and ends; the lines of a log file; a new manager is
    a state of \<open>tm_reach\<close> and its named queues always have a default.
  \<^item> \<open>System\<close>: every reachable state is well-formed, which discharges the well-formedness hypotheses
    of the other theories.

  \<^bold>\<open>Conventions.\<close> An operation returns \<open>Inl e\<close> for a raised exception and \<open>Inr x\<close> for a result, with
  the state it leaves. A step of a coroutine runs up to its next await; a whole handler is one step
  where the interleaving inside it does not matter for the property. The clock, \<open>uuid4\<close>, the task
  bodies, HTTP GET, the HMAC, Fernet, pickling, croniter, the collation of a database server, the Redis
  server (\<open>srv\<close>), the static page (\<open>tpl\<close>) and the decimal text of a float (\<open>te_float\<close>, \<open>te_repr\<close>,
  \<open>te_every\<close>) are parameters. Integers are unbounded as in Python; the ranges that matter (\<open>timedelta\<close>, \<open>datetime\<close>)
  are tested where the code reaches them.

  \<^bold>\<open>Fuel.\<close> \<open>fire_due\<close> takes fuel because its loop need not end; \<open>periodic_turn_ends\<close> shows that the
  length of the heap is enough when every recurring entry moves forward, and \<open>zero_interval_never_ends\<close>
  that none is enough for an interval of zero. The attempts of a retry loop are counted down. \<open>p_members\<close>
  of the token parser is bounded by the length of its input. A chain of signal handlers is followed with
  fuel: \<open>signal_chain\<close> shows that the number of managers is enough, \<open>double_install_never_ends\<close> that none
  is when a manager was started twice. All other recursions are structural or
  terminate by a measure.

  \<^bold>\<open>Not modelled.\<close> The style sheet, the script and the page frame of the dashboard
  (\<^verbatim>\<open>dashboard/css.py\<close>, \<^verbatim>\<open>js.py\<close>, \<^verbatim>\<open>html.py\<close>), constant text without Python logic. Connections, connection
  pools, thread and process pools and the rotation of log files, which are library calls; the daemon
  threads of \<open>_DaemonThreadPoolExecutor\<close>, which reach into the standard library. Routing of requests and
  validation of bodies are FastAPI and Starlette: \<open>dispatch_request\<close> states the documented routing rule.
  Column types of the databases. Metadata that is not JSON cannot occur in the model: every value the
  program stores is JSON text. The packages' \<open>__init__\<close> files only name what they export.
\<close>

end
